(* ===== verification/Prelude.thy ===== *)
theory Prelude
  imports Main "HOL-Library.Sublist" "HOL-Library.Char_ord" "HOL-Library.List_Lexorder"
begin

text \<open>
  Shared vocabulary of the development: Go strings (byte sequences, here \<^typ>\<open>string\<close>),
  the functions of Go's package strings that the service uses, UTF-8, and Go maps from
  strings to strings in the canonical form of association lists sorted by key.

  A Go string is a sequence of bytes and \<^typ>\<open>char\<close> is an eight bit value, so a
  \<^typ>\<open>string\<close> is exactly a Go string; \<open>length\<close> is Go's \<open>len\<close>.
\<close>

named_theorems go_str \<open>rewrite rules for the string functions of the model\<close>

section \<open>Bytes\<close>

definition byte :: "char \<Rightarrow> nat" where
  "byte c = of_char c"

definition chr :: "nat \<Rightarrow> char" where
  "chr n = char_of n"

lemma byte_chr [simp]: "n < 256 \<Longrightarrow> byte (chr n) = n"
  by (simp add: byte_def chr_def)

lemma chr_byte [simp]: "chr (byte c) = c"
  by (simp add: byte_def chr_def)

lemma byte_less [simp]: "byte c < 256"
  using nat_of_char_less_256 by (simp add: byte_def)

lemma byte_inject [simp]: "byte a = byte b \<longleftrightarrow> a = b"
  by (metis chr_byte)

definition is_ascii :: "char \<Rightarrow> bool" where
  "is_ascii c \<longleftrightarrow> byte c < 128"

definition is_digit :: "char \<Rightarrow> bool" where
  "is_digit c \<longleftrightarrow> 48 \<le> byte c \<and> byte c \<le> 57"

section \<open>Package strings\<close>

definition hasPrefix :: "string \<Rightarrow> string \<Rightarrow> bool" where
  "hasPrefix s p \<longleftrightarrow> prefix p s"

definition hasSuffix :: "string \<Rightarrow> string \<Rightarrow> bool" where
  "hasSuffix s p \<longleftrightarrow> suffix p s"

definition trimPrefix :: "string \<Rightarrow> string \<Rightarrow> string" where
  "trimPrefix s p = (if hasPrefix s p then drop (length p) s else s)"

fun strContains :: "string \<Rightarrow> string \<Rightarrow> bool" where
  "strContains [] p = (p = [])"
| "strContains (c # s) p = (prefix p (c # s) \<or> strContains s p)"

text \<open>\<open>strings.Index\<close> for a one byte needle; \<open>None\<close> is Go's \<open>-1\<close>.\<close>

fun indexByte :: "string \<Rightarrow> char \<Rightarrow> nat option" where
  "indexByte [] c = None"
| "indexByte (x # s) c = (if x = c then Some 0 else map_option Suc (indexByte s c))"

text \<open>\<open>strings.Split\<close> for a one byte separator.\<close>

fun splitByte :: "char \<Rightarrow> string \<Rightarrow> string list" where
  "splitByte c [] = [[]]"
| "splitByte c (x # s) =
     (if x = c then [] # splitByte c s
      else (case splitByte c s of p # ps \<Rightarrow> (x # p) # ps | [] \<Rightarrow> [[x]]))"

lemma hasPrefix_append [go_str]: "hasPrefix (p @ s) p"
  by (simp add: hasPrefix_def)

lemma trimPrefix_append [go_str]: "trimPrefix (p @ s) p = s"
  by (simp add: trimPrefix_def hasPrefix_append)

lemma hasPrefix_iff: "hasPrefix s p \<longleftrightarrow> (\<exists>r. s = p @ r)"
  by (auto simp: hasPrefix_def prefix_def)

lemma hasSuffix_iff: "hasSuffix s p \<longleftrightarrow> (\<exists>r. s = r @ p)"
  by (auto simp: hasSuffix_def suffix_def)

lemma strContains_iff: "strContains s p \<longleftrightarrow> (\<exists>a b. s = a @ p @ b)"
proof (induction s)
  case Nil
  then show ?case by simp
next
  case (Cons c s)
  show ?case
  proof
    assume "strContains (c # s) p"
    then consider "prefix p (c # s)" | "strContains s p" by auto
    then show "\<exists>a b. c # s = a @ p @ b"
    proof cases
      case 1
      then show ?thesis by (metis prefix_def append_Nil)
    next
      case 2
      with Cons.IH obtain a b where "s = a @ p @ b" by auto
      then have "c # s = (c # a) @ p @ b" by simp
      then show ?thesis by blast
    qed
  next
    assume "\<exists>a b. c # s = a @ p @ b"
    then obtain a b where ab: "c # s = a @ p @ b" by blast
    show "strContains (c # s) p"
    proof (cases a)
      case Nil
      with ab have "prefix p (c # s)" by (simp add: prefix_def)
      then show ?thesis by simp
    next
      case (Cons x a')
      with ab have "s = a' @ p @ b" by simp
      with Cons.IH show ?thesis by auto
    qed
  qed
qed

lemma indexByte_Some:
  "indexByte s c = Some i \<Longrightarrow> i < length s \<and> s ! i = c \<and> c \<notin> set (take i s)"
  by (induction s arbitrary: i) (auto split: if_splits)

lemma indexByte_None [go_str]: "indexByte s c = None \<longleftrightarrow> c \<notin> set s"
  by (induction s) auto

lemma splitByte_not_Nil [simp]: "splitByte c s \<noteq> []"
  by (induction s) (auto split: list.splits)

lemma splitByte_no_sep: "p \<in> set (splitByte c s) \<Longrightarrow> c \<notin> set p"
proof (induction s arbitrary: p)
  case Nil
  then show ?case by simp
next
  case (Cons x s)
  then show ?case
    by (cases "splitByte c s") (auto split: if_splits)
qed

section \<open>White space\<close>

text \<open>
  \<open>unicode.IsSpace\<close> in UTF-8: the six ASCII spaces and the encodings of U+0085, U+00A0,
  U+1680, U+2000 to U+200A, U+2028, U+2029, U+202F, U+205F and U+3000.
\<close>

definition space_seqs :: "string list" where
  "space_seqs =
     map (map chr)
       ([[9], [10], [11], [12], [13], [32], [194, 133], [194, 160], [225, 154, 128]]
        @ map (\<lambda>n. [226, 128, n]) [128, 129, 130, 131, 132, 133, 134, 135, 136, 137, 138, 168, 169, 175]
        @ [[226, 129, 159], [227, 128, 128]])"

fun find_prefix :: "string list \<Rightarrow> string \<Rightarrow> string option" where
  "find_prefix [] s = None"
| "find_prefix (p # ps) s = (if prefix p s then Some p else find_prefix ps s)"

lemma find_prefix_Some: "find_prefix ps s = Some p \<Longrightarrow> p \<in> set ps \<and> prefix p s"
  by (induction ps) (auto split: if_splits)

lemma find_prefix_None: "find_prefix ps s = None \<longleftrightarrow> (\<forall>p \<in> set ps. \<not> prefix p s)"
  by (induction ps) auto

lemma space_seqs_not_Nil: "p \<in> set space_seqs \<Longrightarrow> p \<noteq> []"
  by (auto simp: space_seqs_def)

text \<open>Stripping from the left by one table of byte sequences.\<close>

function trimSeqs :: "string list \<Rightarrow> string \<Rightarrow> string" where
  "trimSeqs ps s =
     (case find_prefix ps s of
        None \<Rightarrow> s
      | Some p \<Rightarrow> if p = [] then s else trimSeqs ps (drop (length p) s))"
  by pat_completeness auto
termination
  by (relation "measure (length \<circ> snd)")
     (auto dest!: find_prefix_Some simp: prefix_def neq_Nil_conv)

declare trimSeqs.simps [simp del]

text \<open>
  \<open>strings.TrimSpace\<close>: spaces are removed at both ends. The right end is trimmed on the
  reversed string with the reversed sequences.
\<close>

definition trimSpace :: "string \<Rightarrow> string" where
  "trimSpace s = rev (trimSeqs (map rev space_seqs) (rev (trimSeqs space_seqs s)))"

lemma trimSeqs_no_prefix: "p \<in> set ps \<Longrightarrow> p \<noteq> [] \<Longrightarrow> (\<forall>q \<in> set ps. q \<noteq> []) \<Longrightarrow> \<not> prefix p (trimSeqs ps s)"
proof (induction ps s rule: trimSeqs.induct)
  case (1 ps s)
  show ?case
  proof (cases "find_prefix ps s")
    case None
    moreover from this 1 have "\<not> prefix p s" by (simp add: find_prefix_None)
    ultimately show ?thesis by (simp add: trimSeqs.simps [of ps s])
  next
    case (Some q)
    with 1 have "q \<noteq> []" by (auto dest: find_prefix_Some)
    with 1 Some show ?thesis by (simp add: trimSeqs.simps [of ps s])
  qed
qed

lemma trimSeqs_suffix: "suffix (trimSeqs ps s) s"
proof (induction ps s rule: trimSeqs.induct)
  case (1 ps s)
  show ?case
  proof (cases "find_prefix ps s")
    case None
    then show ?thesis by (simp add: trimSeqs.simps [of ps s])
  next
    case (Some p)
    with 1 have "p \<noteq> [] \<Longrightarrow> suffix (trimSeqs ps (drop (length p) s)) s"
      using suffix_drop suffix_order.order_trans by blast
    with Some show ?thesis by (simp add: trimSeqs.simps [of ps s])
  qed
qed

lemma trimSpace_no_trailing: "p \<in> set space_seqs \<Longrightarrow> \<not> suffix p (trimSpace s)"
proof -
  assume p: "p \<in> set space_seqs"
  have "\<not> prefix (rev p) (trimSeqs (map rev space_seqs) (rev (trimSeqs space_seqs s)))"
    using p by (intro trimSeqs_no_prefix) (auto dest: space_seqs_not_Nil)
  then show ?thesis
    by (simp add: trimSpace_def suffix_to_prefix)
qed

lemma trimSpace_sublist: "sublist (trimSpace s) s"
proof -
  have "suffix (trimSeqs space_seqs s) s" by (rule trimSeqs_suffix)
  moreover have "prefix (trimSpace s) (trimSeqs space_seqs s)"
    unfolding trimSpace_def
    by (metis rev_rev_ident suffix_to_prefix trimSeqs_suffix)
  ultimately show ?thesis
    by (meson prefix_imp_sublist sublist_order.order_trans suffix_imp_sublist)
qed

text \<open>A string that starts and ends with a visible ASCII byte has nothing to trim.\<close>

definition visible :: "char \<Rightarrow> bool" where
  "visible c \<longleftrightarrow> 33 \<le> byte c \<and> byte c \<le> 127"

lemma trimSeqs_id: "list_all (\<lambda>p. \<not> prefix p s) ps \<Longrightarrow> trimSeqs ps s = s"
  by (subst trimSeqs.simps) (simp add: find_prefix_None [THEN iffD2] list_all_iff)

lemma space_seqs_bytes:
  "list_all (\<lambda>p. p \<noteq> [] \<and> \<not> visible (hd p) \<and> \<not> visible (last p)) space_seqs"
  by (simp add: space_seqs_def visible_def)

lemma trimSpace_visible:
  assumes "s \<noteq> []" "visible (hd s)" "visible (last s)"
  shows "trimSpace s = s"
proof -
  have p: "p \<noteq> []" "\<not> visible (hd p)" "\<not> visible (last p)" if "p \<in> set space_seqs" for p
    using that space_seqs_bytes by (auto simp: list_all_iff)
  have "trimSeqs space_seqs s = s"
    using assms p by (intro trimSeqs_id) (auto simp: list_all_iff prefix_def)
  moreover have "trimSeqs (map rev space_seqs) (rev s) = rev s"
  proof (rule trimSeqs_id, unfold list_all_iff, rule ballI)
    fix q assume "q \<in> set (map rev space_seqs)"
    then obtain p' where q: "q = rev p'" "p' \<in> set space_seqs" by auto
    show "\<not> prefix q (rev s)"
      using q p [OF q(2)] assms by (auto simp: suffix_to_prefix [symmetric] suffix_def)
  qed
  ultimately show ?thesis by (simp add: trimSpace_def)
qed

section \<open>UTF-8\<close>

definition is_cont :: "char \<Rightarrow> bool" where
  "is_cont c \<longleftrightarrow> 128 \<le> byte c \<and> byte c \<le> 191"

text \<open>
  \<open>runeLen s\<close> is the width of the encoding at the head of \<open>s\<close>, and 0 where Go's
  \<open>utf8.DecodeRuneInString\<close> reports \<open>RuneError\<close> with width 1 (or \<open>s\<close> is empty). The
  ranges are those of the package's accept table: overlong forms, surrogates and code
  points above U+10FFFF are invalid.
\<close>

fun runeLen :: "string \<Rightarrow> nat" where
  "runeLen [] = 0"
| "runeLen (a # s) =
     (let x = byte a in
      if x < 128 then 1
      else if 194 \<le> x \<and> x \<le> 223 then
        (case s of b # _ \<Rightarrow> if is_cont b then 2 else 0 | _ \<Rightarrow> 0)
      else if 224 \<le> x \<and> x \<le> 239 then
        (case s of b # c # _ \<Rightarrow>
           if (if x = 224 then 160 else 128) \<le> byte b \<and> byte b \<le> (if x = 237 then 159 else 191) \<and> is_cont c
           then 3 else 0
         | _ \<Rightarrow> 0)
      else if 240 \<le> x \<and> x \<le> 244 then
        (case s of b # c # d # _ \<Rightarrow>
           if (if x = 240 then 144 else 128) \<le> byte b \<and> byte b \<le> (if x = 244 then 143 else 191)
              \<and> is_cont c \<and> is_cont d
           then 4 else 0
         | _ \<Rightarrow> 0)
      else 0)"

lemma runeLen_le: "runeLen s \<le> length s"
  by (cases s) (auto simp: Let_def split: list.splits)

lemma runeLen_le4: "runeLen s \<le> 4"
  by (cases s) (auto simp: Let_def split: list.splits)

lemma runeLen_ascii [simp]: "is_ascii a \<Longrightarrow> runeLen (a # s) = 1"
  by (simp add: is_ascii_def)

declare runeLen.simps(2) [simp del]

text \<open>The code point of a valid encoding.\<close>

fun runeVal :: "string \<Rightarrow> nat" where
  "runeVal [a] = byte a"
| "runeVal [a, b] = (byte a - 192) * 64 + (byte b - 128)"
| "runeVal [a, b, c] = (byte a - 224) * 4096 + (byte b - 128) * 64 + (byte c - 128)"
| "runeVal [a, b, c, d] =
     (byte a - 240) * 262144 + (byte b - 128) * 4096 + (byte c - 128) * 64 + (byte d - 128)"
| "runeVal _ = 65533"

text \<open>\<open>utf8.AppendRune\<close>; surrogates and values out of range become U+FFFD.\<close>

definition encodeRune :: "nat \<Rightarrow> string" where
  "encodeRune r =
     (if r < 128 then [chr r]
      else if r < 2048 then [chr (192 + r div 64), chr (128 + r mod 64)]
      else if (55296 \<le> r \<and> r \<le> 57343) \<or> 1114111 < r then map chr [239, 191, 189]
      else if r < 65536 then
        [chr (224 + r div 4096), chr (128 + r div 64 mod 64), chr (128 + r mod 64)]
      else
        [chr (240 + r div 262144), chr (128 + r div 4096 mod 64), chr (128 + r div 64 mod 64),
         chr (128 + r mod 64)])"

text \<open>The runes of a string; an invalid byte counts as U+FFFD, as in Go's range loop.\<close>

function runes :: "string \<Rightarrow> nat list" where
  "runes [] = []"
| "runes (a # s) =
     (let k = runeLen (a # s) in
      if k = 0 then 65533 # runes s
      else runeVal (take k (a # s)) # runes (drop k (a # s)))"
  by pat_completeness auto
termination
  by (relation "measure length") auto

declare runes.simps(2) [simp del]

function validUTF8 :: "string \<Rightarrow> bool" where
  "validUTF8 [] = True"
| "validUTF8 (a # s) =
     (let k = runeLen (a # s) in if k = 0 then False else validUTF8 (drop k (a # s)))"
  by pat_completeness auto
termination
  by (relation "measure length") auto

declare validUTF8.simps(2) [simp del]

lemma validUTF8_ascii_Cons [simp]: "is_ascii a \<Longrightarrow> validUTF8 (a # s) = validUTF8 s"
  by (simp add: validUTF8.simps(2))

lemma validUTF8_ascii: "\<forall>c \<in> set s. is_ascii c \<Longrightarrow> validUTF8 s"
  by (induction s) auto

text \<open>
  \<open>strings.ToLower\<close>: a byte-wise mapping on ASCII strings; otherwise every rune goes through
  the Unicode table \<open>unicode.ToLower\<close>, which is the argument \<open>u\<close>.
\<close>

definition asciiLower :: "char \<Rightarrow> char" where
  "asciiLower c = (if 65 \<le> byte c \<and> byte c \<le> 90 then chr (byte c + 32) else c)"

definition toLower :: "(nat \<Rightarrow> nat) \<Rightarrow> string \<Rightarrow> string" where
  "toLower u s =
     (if list_all is_ascii s then map asciiLower s
      else concat (map (\<lambda>r. encodeRune (u r)) (runes s)))"

lemma asciiLower_idem [simp]: "asciiLower (asciiLower c) = asciiLower c"
  by (simp add: asciiLower_def)

lemma is_ascii_asciiLower [simp]: "is_ascii c \<Longrightarrow> is_ascii (asciiLower c)"
  by (auto simp: is_ascii_def asciiLower_def)

lemma toLower_ascii [go_str]: "list_all is_ascii s \<Longrightarrow> toLower u s = map asciiLower s"
  by (simp add: toLower_def)

section \<open>Go maps from strings to strings\<close>

text \<open>
  A Go \<open>map[string]string\<close>, or a map from strings to another type, is kept as the association list sorted by key, without
  duplicate keys; this form is unique for each finite map. The nil map and the empty map
  are both \<open>[]\<close>: the code never distinguishes them other than by JSON's omitempty, which
  omits both.
\<close>

type_synonym gomap = "(string \<times> string) list"

definition wf_map :: "(string \<times> 'v) list \<Rightarrow> bool" where
  "wf_map m \<longleftrightarrow> sorted_wrt (<) (map fst m)"

fun map_put :: "(string \<times> 'v) list \<Rightarrow> string \<Rightarrow> 'v \<Rightarrow> (string \<times> 'v) list" where
  "map_put [] k v = [(k, v)]"
| "map_put (e # m) k v =
     (if k = fst e then (k, v) # m
      else if fst e < k then e # map_put m k v
      else (k, v) # e # m)"

lemma set_fst_map_put: "fst ` set (map_put m k v) = insert k (fst ` set m)"
  by (induction m) auto

lemma wf_map_put [simp, intro]: "wf_map m \<Longrightarrow> wf_map (map_put m k v)"
  unfolding wf_map_def
proof (induction m)
  case Nil
  then show ?case by simp
next
  case (Cons e m)
  then have "fst e < k \<Longrightarrow> \<forall>x \<in> fst ` set (map_put m k v). fst e < x"
    by (auto simp: set_fst_map_put)
  with Cons show ?case
    by (auto simp: not_less_iff_gr_or_eq intro: less_trans)
qed

lemma map_of_map_put: "wf_map m \<Longrightarrow> map_of (map_put m k v) = (map_of m)(k \<mapsto> v)"
  unfolding wf_map_def
  by (induction m) (auto simp: fun_eq_iff)

lemma wf_map_unique:
  assumes "wf_map m" "wf_map m'" "map_of m = map_of m'"
  shows "m = m'"
proof -
  have d: "distinct (map fst m)" "distinct (map fst m')"
    using assms by (auto simp: wf_map_def strict_sorted_iff)
  have "fst ` set m = fst ` set m'"
    by (metis assms(3) dom_map_of_conv_image_fst)
  then have k: "map fst m = map fst m'"
    using assms(1,2) by (intro strict_sorted_equal) (auto simp: wf_map_def)
  then have len: "length m = length m'" by (metis length_map)
  show ?thesis
  proof (rule nth_equalityI [OF len])
    fix i assume i: "i < length m"
    with k len have f: "fst (m ! i) = fst (m' ! i)" by (metis nth_map)
    have "map_of m (fst (m ! i)) = Some (snd (m ! i))"
      using d(1) i by simp
    moreover have "map_of m' (fst (m' ! i)) = Some (snd (m' ! i))"
      using d(2) i len by simp
    ultimately have "snd (m ! i) = snd (m' ! i)"
      using assms(3) f by simp
    with f show "m ! i = m' ! i" by (rule prod_eqI)
  qed
qed

end
