(* ===== verification/Go_Errors.thy ===== *)
theory Go_Errors
  imports Prelude
begin

text \<open>
  Go errors as values: the sentinel errors of the service, errors of third party libraries
  (of which the code can observe only three things), the two error types of
  internal/infrastructure/nats/errors.go, and \<open>fmt.Errorf\<close> with its \<open>%w\<close> wrapping.
  \<open>nil\<close> is \<open>None\<close> where a function returns only an error; a function that returns
  a value or an error has the sum type with the error on the left.
\<close>

named_theorems err_simps \<open>what errors.Is finds in an error\<close>

section \<open>Values\<close>

datatype sentinel =
    ErrInvalidRequest
  | ErrEmailDispatchFailed
  | ErrInviteNotFound
  | ErrAlreadyAccepted
  | ErrInviteExpired
  | ErrInvalidCustomClaims
  | ErrInvalidInviteToken
  | ErrAcceptanceRejected

text \<open>
  An error of a library: whether \<open>errors.Is(err, jetstream.ErrKeyNotFound)\<close> holds, the
  error code when it is a \<open>JetStreamError\<close> whose \<open>APIError()\<close> is not nil, and its text.
\<close>

record liberr =
  le_notFound :: bool
  le_apiCode :: "nat option"
  le_text :: string

datatype goerr =
    Sentinel sentinel
  | LibErr liberr
  | ServiceUnavailable string "goerr option"
  | Unexpected string "goerr option"
  | Errorf "errpart list"
and errpart =
    T string
  | S string
  | Q string
  | D int
  | W goerr

text \<open>The text of \<open>errors.New\<close> for each sentinel.\<close>

fun sentinelText :: "sentinel \<Rightarrow> string" where
  "sentinelText ErrInvalidRequest = ''invalid_request''"
| "sentinelText ErrEmailDispatchFailed = ''email_dispatch_failed''"
| "sentinelText ErrInviteNotFound = ''invite_not_found''"
| "sentinelText ErrAlreadyAccepted = ''invite_already_accepted''"
| "sentinelText ErrInviteExpired = ''invite_expired''"
| "sentinelText ErrInvalidCustomClaims = ''invalid custom claims''"
| "sentinelText ErrInvalidInviteToken = ''invalid_invite_token''"
| "sentinelText ErrAcceptanceRejected = ''acceptance_rejected''"

section \<open>errors.Is and Error\<close>

text \<open>\<open>errors.Is\<close> against a sentinel: a search of the tree that \<open>Unwrap\<close> spans.\<close>

primrec errors_Is :: "goerr \<Rightarrow> sentinel \<Rightarrow> bool"
  and part_Is :: "errpart \<Rightarrow> sentinel \<Rightarrow> bool" where
  "errors_Is (Sentinel s) t = (s = t)"
| "errors_Is (LibErr l) t = False"
| "errors_Is (ServiceUnavailable m c) t = (case map_option (\<lambda>e. errors_Is e t) c of Some b \<Rightarrow> b | None \<Rightarrow> False)"
| "errors_Is (Unexpected m c) t = (case map_option (\<lambda>e. errors_Is e t) c of Some b \<Rightarrow> b | None \<Rightarrow> False)"
| "errors_Is (Errorf ps) t = list_ex id (map (\<lambda>p. part_Is p t) ps)"
| "part_Is (T x) t = False"
| "part_Is (S x) t = False"
| "part_Is (Q x) t = False"
| "part_Is (D n) t = False"
| "part_Is (W e) t = errors_Is e t"

text \<open>\<open>Error()\<close> of the two types of errors.go, given the text of the cause.\<close>

definition Error_serviceUnavailable :: "string \<Rightarrow> string option \<Rightarrow> string" where
  "Error_serviceUnavailable message cause = (case cause of Some t \<Rightarrow> message @ '': '' @ t | None \<Rightarrow> message)"

definition Error_unexpected :: "string \<Rightarrow> string option \<Rightarrow> string" where
  "Error_unexpected message cause = (case cause of Some t \<Rightarrow> message @ '': '' @ t | None \<Rightarrow> message)"

text \<open>
  \<open>Error()\<close> of each kind of error. \<open>q\<close> is \<open>strconv.Quote\<close> (the verb \<open>%q\<close>) and \<open>d\<close>
  prints an integer.
\<close>

primrec errText :: "(string \<Rightarrow> string) \<Rightarrow> (int \<Rightarrow> string) \<Rightarrow> goerr \<Rightarrow> string"
  and partText :: "(string \<Rightarrow> string) \<Rightarrow> (int \<Rightarrow> string) \<Rightarrow> errpart \<Rightarrow> string" where
  "errText q d (Sentinel s) = sentinelText s"
| "errText q d (LibErr l) = le_text l"
| "errText q d (ServiceUnavailable m c) = Error_serviceUnavailable m (map_option (errText q d) c)"
| "errText q d (Unexpected m c) = Error_unexpected m (map_option (errText q d) c)"
| "errText q d (Errorf ps) = concat (map (partText q d) ps)"
| "partText q d (T x) = x"
| "partText q d (S x) = x"
| "partText q d (Q x) = q x"
| "partText q d (D n) = d n"
| "partText q d (W e) = errText q d e"

section \<open>Constructors of errors.go\<close>

definition newServiceUnavailable :: "string \<Rightarrow> goerr option \<Rightarrow> goerr" where
  "newServiceUnavailable msg cause = ServiceUnavailable msg cause"

definition newUnexpected :: "string \<Rightarrow> goerr option \<Rightarrow> goerr" where
  "newUnexpected msg cause = Unexpected msg cause"

text \<open>\<open>Unwrap\<close> of the two error types.\<close>

fun unwrapCause :: "goerr \<Rightarrow> goerr option" where
  "unwrapCause (ServiceUnavailable m c) = c"
| "unwrapCause (Unexpected m c) = c"
| "unwrapCause e = None"

lemma errors_Is_newServiceUnavailable [err_simps]:
  "errors_Is (newServiceUnavailable m c) t \<longleftrightarrow> (\<exists>e. c = Some e \<and> errors_Is e t)"
  by (cases c) (simp_all add: newServiceUnavailable_def)

lemma errors_Is_newUnexpected [err_simps]:
  "errors_Is (newUnexpected m c) t \<longleftrightarrow> (\<exists>e. c = Some e \<and> errors_Is e t)"
  by (cases c) (simp_all add: newUnexpected_def)

lemma errors_Is_unwrap:
  "unwrapCause e = Some c \<Longrightarrow> errors_Is c t \<Longrightarrow> errors_Is e t"
  by (cases e) auto

lemma errors_Is_Errorf [err_simps]:
  "errors_Is (Errorf ps) t \<longleftrightarrow> (\<exists>e. W e \<in> set ps \<and> errors_Is e t)"
proof -
  have "list_ex id (map (\<lambda>p. part_Is p t) ps) \<longleftrightarrow> (\<exists>p \<in> set ps. part_Is p t)"
    by (auto simp: list_ex_iff)
  moreover have "part_Is p t \<longleftrightarrow> (\<exists>e. p = W e \<and> errors_Is e t)" for p
    by (cases p) auto
  ultimately show ?thesis by auto
qed

lemmas [err_simps] = errors_Is.simps(1,2)

text \<open>An error that reports only one sentinel, so that a client can map it to one code.\<close>

definition onlyIs :: "goerr \<Rightarrow> sentinel \<Rightarrow> bool" where
  "onlyIs e s \<longleftrightarrow> (\<forall>t. errors_Is e t \<longleftrightarrow> t = s)"

definition noSentinel :: "goerr \<Rightarrow> bool" where
  "noSentinel e \<longleftrightarrow> (\<forall>t. \<not> errors_Is e t)"

lemma noSentinel_lib [simp]: "noSentinel (LibErr l)"
  by (simp add: noSentinel_def)

lemma noSentinel_newServiceUnavailable [simp]:
  "noSentinel (newServiceUnavailable m c) \<longleftrightarrow> (\<forall>e. c = Some e \<longrightarrow> noSentinel e)"
  by (auto simp: noSentinel_def err_simps)

lemma noSentinel_newUnexpected [simp]:
  "noSentinel (newUnexpected m c) \<longleftrightarrow> (\<forall>e. c = Some e \<longrightarrow> noSentinel e)"
  by (auto simp: noSentinel_def err_simps)

end
