(* ===== verification/Go_Strconv.thy ===== *)
theory Go_Strconv
  imports Prelude
begin

text \<open>Decimal printing and reading, as \<open>strconv\<close> and \<open>fmt\<close> do it for the service.\<close>

named_theorems dec_simps \<open>facts about decimal digits\<close>

definition digitChar :: "nat \<Rightarrow> char" where
  "digitChar n = chr (48 + n)"

definition digitVal :: "char \<Rightarrow> nat" where
  "digitVal c = byte c - 48"

fun showNat :: "nat \<Rightarrow> string" where
  "showNat n = (if n < 10 then [digitChar n] else showNat (n div 10) @ [digitChar (n mod 10)])"

declare showNat.simps [simp del]

definition showInt :: "int \<Rightarrow> string" where
  "showInt n = (if n < 0 then CHR ''-'' # showNat (nat (- n)) else showNat (nat n))"

definition parseNat :: "string \<Rightarrow> nat" where
  "parseNat s = foldl (\<lambda>a c. 10 * a + digitVal c) 0 s"

text \<open>Exactly \<open>w\<close> digits, with leading zeros.\<close>

fun padNat :: "nat \<Rightarrow> nat \<Rightarrow> string" where
  "padNat 0 n = []"
| "padNat (Suc w) n = padNat w (n div 10) @ [digitChar (n mod 10)]"

lemma byte_digitChar [dec_simps]: "n < 10 \<Longrightarrow> byte (digitChar n) = 48 + n"
  by (simp add: digitChar_def)

lemma digitVal_digitChar [dec_simps]: "n < 10 \<Longrightarrow> digitVal (digitChar n) = n"
  by (simp add: digitVal_def byte_digitChar)

lemma is_digit_digitChar [dec_simps]: "n < 10 \<Longrightarrow> is_digit (digitChar n)"
  by (simp add: is_digit_def byte_digitChar)

lemma digitVal_less: "is_digit c \<Longrightarrow> digitVal c < 10"
  by (auto simp: is_digit_def digitVal_def)

lemma digitChar_digitVal: "is_digit c \<Longrightarrow> digitChar (digitVal c) = c"
  by (auto simp: is_digit_def digitVal_def digitChar_def)

lemma parseNat_Nil [simp]: "parseNat [] = 0"
  by (simp add: parseNat_def)

lemma parseNat_snoc [simp]: "parseNat (s @ [c]) = 10 * parseNat s + digitVal c"
  by (simp add: parseNat_def)

lemma parseNat_showNat [dec_simps]: "parseNat (showNat n) = n"
proof (induction n rule: showNat.induct)
  case (1 n)
  then show ?case
    by (cases "n < 10")
       (simp_all add: showNat.simps [of n] digitVal_digitChar parseNat_snoc [of "[]", simplified])
qed

lemma showNat_digits [dec_simps]: "list_all is_digit (showNat n)"
proof (induction n rule: showNat.induct)
  case (1 n)
  then show ?case
    by (cases "n < 10") (simp_all add: showNat.simps [of n] is_digit_digitChar)
qed

lemma showNat_not_Nil [simp]: "showNat n \<noteq> []"
  by (simp add: showNat.simps [of n])

lemma hd_showNat: "0 < n \<Longrightarrow> hd (showNat n) \<noteq> CHR ''0''"
proof (induction n rule: showNat.induct)
  case (1 n)
  have "0 < n \<Longrightarrow> n < 10 \<Longrightarrow> byte (digitChar n) \<noteq> byte (CHR ''0'')"
    by (simp add: byte_digitChar, simp add: byte_def)
  with 1 show ?case
    by (cases "n < 10") (auto simp: showNat.simps [of n])
qed

lemma showNat_0: "showNat 0 = [CHR ''0'']"
  by code_simp

lemma length_padNat [dec_simps]: "length (padNat w n) = w"
  by (induction w arbitrary: n) auto

lemma parseNat_padNat [dec_simps]: "parseNat (padNat w n) = n mod 10 ^ w"
proof (induction w arbitrary: n)
  case 0
  then show ?case by simp
next
  case (Suc w)
  have "n mod (10 * 10 ^ w) = 10 * (n div 10 mod 10 ^ w) + n mod 10"
    by (metis mod_mult2_eq)
  then show ?case
    using Suc by (simp add: digitVal_digitChar)
qed

lemma padNat_digits [dec_simps]: "list_all is_digit (padNat w n)"
  by (induction w arbitrary: n) (auto simp: is_digit_digitChar)

lemma is_digit_ascii: "is_digit c \<Longrightarrow> is_ascii c"
  by (simp add: is_digit_def is_ascii_def)

lemma parseNat_bound: "list_all is_digit s \<Longrightarrow> parseNat s < 10 ^ length s"
proof (induction s rule: rev_induct)
  case Nil
  then show ?case by simp
next
  case (snoc c s)
  then have "parseNat s < 10 ^ length s" "digitVal c < 10" by (auto dest: digitVal_less)
  then show ?case by simp
qed

lemma parseNat_append: "parseNat (s @ t) = parseNat s * 10 ^ length t + parseNat t"
proof (induction t rule: rev_induct)
  case Nil
  then show ?case by simp
next
  case (snoc c t)
  then show ?case
    by (simp add: append_assoc [symmetric] del: append_assoc)
qed

lemma parseNat_zeros: "parseNat (replicate n (CHR ''0'')) = 0"
proof (induction n)
  case 0
  then show ?case by simp
next
  case (Suc n)
  have "digitVal (CHR ''0'') = 0" by (simp add: digitVal_def byte_def)
  moreover have "replicate (Suc n) (CHR ''0'') = replicate n (CHR ''0'') @ [CHR ''0'']"
    by (simp add: replicate_append_same)
  ultimately show ?case
    using Suc by (simp only: parseNat_snoc)
qed

end
