(* ===== verification/Go_Time.thy ===== *)
theory Go_Time
  imports Go_Strconv
begin

text \<open>
  Package time as the service uses it. A \<open>time.Time\<close> is the instant it denotes, in
  nanoseconds since 1970-01-01T00:00:00Z; \<open>Before\<close> and \<open>Add\<close> are order and addition of
  instants. Times are printed in UTC, the zone of the service's container and of every time it
  makes. The reader accepts any zone offset, but the offset is not kept: a time that somebody else
  wrote with another offset is printed here as the same instant in UTC, where Go prints it with the
  offset it was read with. A record read from the store carries no monotonic clock reading, so
  comparisons with it are comparisons of instants.
\<close>

type_synonym time = int

definition nsPerSecond :: int where
  "nsPerSecond = 1000000000"

definition nsPerHour :: int where
  "nsPerHour = 3600 * nsPerSecond"

text \<open>The zero \<open>time.Time\<close>, 0001-01-01T00:00:00Z.\<close>

definition zeroTime :: time where
  "zeroTime = - 62135596800 * nsPerSecond"

definition before :: "time \<Rightarrow> time \<Rightarrow> bool" where
  "before a b \<longleftrightarrow> a < b"

definition addDur :: "time \<Rightarrow> int \<Rightarrow> time" where
  "addDur t d = t + d"

text \<open>\<open>Time.Unix\<close>: whole seconds, rounded down.\<close>

definition unixSeconds :: "time \<Rightarrow> int" where
  "unixSeconds t = t div nsPerSecond"

section \<open>Calendar\<close>

text \<open>Days are counted from 0001-01-01.\<close>

definition isLeap :: "int \<Rightarrow> bool" where
  "isLeap y \<longleftrightarrow> y mod 4 = 0 \<and> (y mod 100 \<noteq> 0 \<or> y mod 400 = 0)"

definition daysBeforeYear :: "int \<Rightarrow> int" where
  "daysBeforeYear y = (let p = y - 1 in 365 * p + p div 4 - p div 100 + p div 400)"

text \<open>Days of a year before each month, with the total as the thirteenth entry.\<close>

definition cumDays :: "bool \<Rightarrow> int list" where
  "cumDays leap =
     (if leap then [0, 31, 60, 91, 121, 152, 182, 213, 244, 274, 305, 335, 366]
      else [0, 31, 59, 90, 120, 151, 181, 212, 243, 273, 304, 334, 365])"

definition daysIn :: "int \<Rightarrow> nat \<Rightarrow> int" where
  "daysIn y m = cumDays (isLeap y) ! m - cumDays (isLeap y) ! (m - 1)"

definition yearOfDay :: "int \<Rightarrow> int" where
  "yearOfDay n =
     (let e = n div 146097; a = n mod 146097;
          c = min (a div 36524) 3; b = a - 36524 * c;
          q = b div 1461; r = b mod 1461;
          y = min (r div 365) 3
      in 400 * e + 100 * c + 4 * q + y + 1)"

fun monthOfDay :: "int list \<Rightarrow> nat \<Rightarrow> int \<Rightarrow> nat" where
  "monthOfDay (a # b # cs) m d = (if d < b then m else monthOfDay (b # cs) (Suc m) d)"
| "monthOfDay _ m d = m"

definition dayNumber :: "int \<Rightarrow> nat \<Rightarrow> int \<Rightarrow> int" where
  "dayNumber y m d = daysBeforeYear y + cumDays (isLeap y) ! (m - 1) + d - 1"

definition civil :: "int \<Rightarrow> int \<times> nat \<times> int" where
  "civil n =
     (let y = yearOfDay n; doy = n - daysBeforeYear y;
          m = monthOfDay (cumDays (isLeap y)) 1 doy
      in (y, m, doy - cumDays (isLeap y) ! (m - 1) + 1))"

lemma digit_div: "(0::int) \<le> x \<Longrightarrow> x < k \<Longrightarrow> (k * n + x) div k = n"
  by simp

lemma digit_last:
  assumes "(0::int) \<le> x" "x < k"
  shows "(k * n + x + 1) mod k = 0 \<longleftrightarrow> x = k - 1"
proof -
  have "(k * n + x + 1) mod k = (x + 1) mod k"
    by (metis add.assoc mod_mult_self4)
  also have "\<dots> = 0 \<longleftrightarrow> x = k - 1"
    using assms by (cases "x + 1 = k") auto
  finally show ?thesis .
qed

text \<open>The year found for a day is the year whose days contain it.\<close>

lemma yearOfDay_bounds:
  "daysBeforeYear (yearOfDay n) \<le> n \<and>
   n < daysBeforeYear (yearOfDay n) + (if isLeap (yearOfDay n) then 366 else 365)"
proof -
  define e where "e = n div 146097"
  define a where "a = n mod 146097"
  define c where "c = min (a div 36524) 3"
  define b where "b = a - 36524 * c"
  define q where "q = b div 1461"
  define r where "r = b mod 1461"
  define y where "y = min (r div 365) 3"
  define p where "p = 400 * e + 100 * c + 4 * q + y"
  have year: "yearOfDay n = p + 1"
    by (simp only: yearOfDay_def Let_def p_def y_def r_def q_def b_def c_def a_def e_def)
  have n: "n = 146097 * e + a" and a: "0 \<le> a" "a < 146097"
    by (simp_all add: e_def a_def)
  have c: "0 \<le> c" "c \<le> 3" and b: "0 \<le> b" "b \<le> 36524" and b3: "c < 3 \<Longrightarrow> b < 36524"
    using a unfolding b_def c_def by (auto simp: min_def)
  have br: "b = 1461 * q + r" "0 \<le> r" "r < 1461" and q: "0 \<le> q" "q \<le> 24"
    using b unfolding q_def r_def by auto
  have y: "0 \<le> y" "y \<le> 3" and ry: "365 * y \<le> r" "r < 365 * y + 366" and y3: "y < 3 \<Longrightarrow> r < 365 * y + 365"
    using br unfolding y_def by (auto simp: min_def)
  have p4: "p = 4 * (100 * e + 25 * c + q) + y" and p100: "p = 100 * (4 * e + c) + (4 * q + y)"
    and p400: "p = 400 * e + (100 * c + 4 * q + y)"
    by (simp_all add: p_def)
  have "p div 4 = 100 * e + 25 * c + q"
    unfolding p4 using y by (intro digit_div) auto
  moreover have "p div 100 = 4 * e + c"
    unfolding p100 using y q by (intro digit_div) auto
  moreover have "p div 400 = e"
    unfolding p400 using y q c by (intro digit_div) auto
  ultimately have dby: "daysBeforeYear (p + 1) = 146097 * e + 36524 * c + 1461 * q + 365 * y"
    by (simp add: daysBeforeYear_def p_def)
  have leap: "isLeap (p + 1) \<longleftrightarrow> y = 3 \<and> (q \<noteq> 24 \<or> c = 3)"
  proof -
    have "(p + 1) mod 4 = 0 \<longleftrightarrow> y = 3"
      using digit_last [of y 4 "100 * e + 25 * c + q"] y unfolding p4 by linarith
    moreover have "(p + 1) mod 100 = 0 \<longleftrightarrow> 4 * q + y = 99"
      using digit_last [of "4 * q + y" 100 "4 * e + c"] y q unfolding p100 by linarith
    moreover have "(p + 1) mod 400 = 0 \<longleftrightarrow> 100 * c + 4 * q + y = 399"
      using digit_last [of "100 * c + 4 * q + y" 400 e] y q c unfolding p400 by linarith
    moreover have "4 * q + y = 99 \<longleftrightarrow> q = 24 \<and> y = 3" using y q by arith
    moreover have "100 * c + 4 * q + y = 399 \<longleftrightarrow> c = 3 \<and> q = 24 \<and> y = 3" using y q c by arith
    ultimately show ?thesis unfolding isLeap_def by auto
  qed
  have "n = daysBeforeYear (p + 1) + (r - 365 * y)"
    using n br dby b_def by simp
  moreover have "r - 365 * y < (if isLeap (p + 1) then 366 else 365)"
  proof (cases "y = 3")
    case False
    with y y3 show ?thesis by auto
  next
    case True
    show ?thesis
    proof (cases "q = 24 \<and> c \<noteq> 3")
      case True
      with b3 c br have "r < 1460" by simp
      with \<open>y = 3\<close> True leap show ?thesis by simp
    next
      case False
      with \<open>y = 3\<close> leap have "isLeap (p + 1)" by auto
      with ry show ?thesis by simp
    qed
  qed
  ultimately show ?thesis
    using ry year by simp
qed

lemma monthOfDay_range:
  assumes "sorted cs" "cs \<noteq> []" "hd cs \<le> d" "d < last cs" "1 \<le> m"
  shows "m \<le> monthOfDay cs m d \<and> monthOfDay cs m d < m + length cs - 1 \<and>
         cs ! (monthOfDay cs m d - m) \<le> d \<and> d < cs ! (Suc (monthOfDay cs m d - m))"
  using assms
proof (induction cs m d rule: monthOfDay.induct)
  case (1 a b cs m d)
  show ?case
  proof (cases "d < b")
    case True
    with "1.prems" show ?thesis by simp
  next
    case False
    with "1.prems" have "cs \<noteq> []" by auto
    with 1 False have IH: "Suc m \<le> monthOfDay (b # cs) (Suc m) d
        \<and> monthOfDay (b # cs) (Suc m) d < Suc m + length (b # cs) - 1
        \<and> (b # cs) ! (monthOfDay (b # cs) (Suc m) d - Suc m) \<le> d
        \<and> d < (b # cs) ! (Suc (monthOfDay (b # cs) (Suc m) d - Suc m))"
      by auto
    then obtain k where "monthOfDay (b # cs) (Suc m) d = Suc m + k"
      by (metis le_iff_add)
    with IH False show ?thesis by (simp add: Suc_diff_le)
  qed
qed auto

lemma sorted_cumDays: "sorted (cumDays l)"
  by (simp add: cumDays_def)

text \<open>\<open>civil\<close> and \<open>dayNumber\<close> are inverse, and the date found is a date of the calendar.\<close>

lemma civil_date:
  assumes "civil n = (y, m, d)"
  shows "dayNumber y m d = n" "1 \<le> m" "m \<le> 12" "1 \<le> d" "d \<le> daysIn y m"
proof -
  let ?c = "cumDays (isLeap y)"
  define doy where "doy = n - daysBeforeYear y"
  have y: "y = yearOfDay n" and m: "m = monthOfDay ?c 1 doy" and d: "d = doy - ?c ! (m - 1) + 1"
    using assms by (auto simp: civil_def Let_def doy_def)
  have "0 \<le> doy" "doy < (if isLeap y then 366 else 365)"
    using yearOfDay_bounds [of n] by (auto simp: doy_def y)
  then have "hd ?c \<le> doy" "doy < last ?c" "?c \<noteq> []" and len: "length ?c = 13"
    by (auto simp: cumDays_def split: if_splits)
  from monthOfDay_range [OF sorted_cumDays this(3) this(1,2), of 1]
  have r: "1 \<le> m" "m < length ?c" "?c ! (m - 1) \<le> doy" "doy < ?c ! m"
    by (auto simp: m)
  then show "1 \<le> m" "m \<le> 12" "1 \<le> d" "d \<le> daysIn y m" "dayNumber y m d = n"
    using len d by (auto simp: daysIn_def dayNumber_def doy_def)
qed

section \<open>RFC 3339 text\<close>

text \<open>
  \<open>Time.MarshalJSON\<close> without the quotes: RFC3339Nano in UTC. A year outside 0 to 9999
  is an error, here \<open>None\<close>.
\<close>

definition epochDay :: int where
  "epochDay = 719162"

definition trimZeros :: "string \<Rightarrow> string" where
  "trimZeros s = rev (dropWhile (\<lambda>c. c = CHR ''0'') (rev s))"

definition fracText :: "nat \<Rightarrow> string" where
  "fracText ns = (if ns = 0 then [] else CHR ''.'' # trimZeros (padNat 9 ns))"

definition timeText :: "int \<Rightarrow> nat \<Rightarrow> int \<Rightarrow> nat \<Rightarrow> nat \<Rightarrow> string" where
  "timeText y m d sod ns =
     padNat 4 (nat y) @ [CHR ''-''] @ padNat 2 m @ [CHR ''-''] @ padNat 2 (nat d) @ [CHR ''T'']
     @ padNat 2 (sod div 3600) @ [CHR '':''] @ padNat 2 (sod div 60 mod 60) @ [CHR '':'']
     @ padNat 2 (sod mod 60) @ fracText ns @ [CHR ''Z'']"

definition formatTime :: "time \<Rightarrow> string option" where
  "formatTime t =
     (let secs = t div nsPerSecond;
          (y, m, d) = civil (secs div 86400 + epochDay)
      in if y < 0 \<or> 9999 < y then None
         else Some (timeText y m d (nat (secs mod 86400)) (nat (t mod nsPerSecond))))"

text \<open>
  \<open>Time.UnmarshalJSON\<close> without the quotes: date and time of fixed width, an optional fraction, and
  \<open>Z\<close> or an offset. What \<open>parseRFC3339\<close> of package time refuses is read by \<open>Parse\<close> with the layout
  \<open>time.RFC3339\<close>, which also takes an hour of one digit, a comma before the fraction, and offsets of
  24 hours or 60 minutes.
\<close>

definition padHour :: "string \<Rightarrow> string" where
  "padHour s = (if 12 < length s \<and> s ! 12 = CHR '':'' then take 11 s @ CHR ''0'' # drop 11 s else s)"

definition parseUint :: "string \<Rightarrow> nat \<Rightarrow> nat \<Rightarrow> nat option" where
  "parseUint s lo hi =
     (if list_all is_digit s \<and> lo \<le> parseNat s \<and> parseNat s \<le> hi then Some (parseNat s) else None)"

definition parseFrac :: "string \<Rightarrow> nat \<times> string" where
  "parseFrac s =
     (case s of
        c # d # r \<Rightarrow>
          if (c = CHR ''.'' \<or> c = CHR '','') \<and> is_digit d then
            (let ds = takeWhile is_digit (d # r); k = take 9 ds
             in (parseNat k * 10 ^ (9 - length k), drop (length ds) (d # r)))
          else (0, s)
      | _ \<Rightarrow> (0, s))"

definition parseZone :: "string \<Rightarrow> int option" where
  "parseZone s =
     (if s = [CHR ''Z''] then Some 0
      else if length s \<noteq> 6 then None
      else case parseUint (take 2 (drop 1 s)) 0 24 of None \<Rightarrow> None
      | Some h \<Rightarrow> (case parseUint (drop 4 s) 0 60 of None \<Rightarrow> None
      | Some m \<Rightarrow>
          if s ! 3 \<noteq> CHR '':'' then None
          else if s ! 0 = CHR ''-'' then Some (- int ((h * 60 + m) * 60))
          else if s ! 0 = CHR ''+'' then Some (int ((h * 60 + m) * 60))
          else None))"

definition parseFixed :: "string \<Rightarrow> time option" where
  "parseFixed s =
     (if length s < 19 \<or> s ! 4 \<noteq> CHR ''-'' \<or> s ! 7 \<noteq> CHR ''-'' \<or> s ! 10 \<noteq> CHR ''T''
         \<or> s ! 13 \<noteq> CHR '':'' \<or> s ! 16 \<noteq> CHR '':'' then None
      else case parseUint (take 4 s) 0 9999 of None \<Rightarrow> None
      | Some y \<Rightarrow> (case parseUint (take 2 (drop 5 s)) 1 12 of None \<Rightarrow> None
      | Some m \<Rightarrow> (case parseUint (take 2 (drop 8 s)) 1 (nat (daysIn (int y) m)) of None \<Rightarrow> None
      | Some d \<Rightarrow> (case parseUint (take 2 (drop 11 s)) 0 23 of None \<Rightarrow> None
      | Some h \<Rightarrow> (case parseUint (take 2 (drop 14 s)) 0 59 of None \<Rightarrow> None
      | Some mi \<Rightarrow> (case parseUint (take 2 (drop 17 s)) 0 59 of None \<Rightarrow> None
      | Some sec \<Rightarrow>
          (let (ns, rest) = parseFrac (drop 19 s)
           in case parseZone rest of None \<Rightarrow> None
              | Some off \<Rightarrow>
                  Some (((dayNumber (int y) m (int d) - epochDay) * 86400
                         + int (h * 3600 + mi * 60 + sec) - off) * nsPerSecond + int ns))))))))"

definition parseTime :: "string \<Rightarrow> time option" where
  "parseTime s = parseFixed (padHour s)"

lemma parseUint_padNat:
  "n < 10 ^ w \<Longrightarrow> lo \<le> n \<Longrightarrow> n \<le> hi \<Longrightarrow> parseUint (padNat w n) lo hi = Some n"
  by (simp add: parseUint_def dec_simps)

lemma trimZeros_split: "\<exists>k. s = trimZeros s @ replicate k (CHR ''0'')"
proof -
  have "rev s = takeWhile (\<lambda>c. c = CHR ''0'') (rev s) @ dropWhile (\<lambda>c. c = CHR ''0'') (rev s)"
    by simp
  then have "s = trimZeros s @ rev (takeWhile (\<lambda>c. c = CHR ''0'') (rev s))"
    unfolding trimZeros_def by (metis rev_append rev_rev_ident)
  moreover have "rev (takeWhile (\<lambda>c. c = CHR ''0'') (rev s))
      = replicate (length (takeWhile (\<lambda>c. c = CHR ''0'') (rev s))) (CHR ''0'')"
    by (rule replicate_eqI) (auto dest: set_takeWhileD)
  ultimately show ?thesis by metis
qed

lemma parseFrac_fracText:
  assumes "ns < 10 ^ 9"
  shows "parseFrac (fracText ns @ [CHR ''Z'']) = (ns, [CHR ''Z''])"
proof (cases "ns = 0")
  case True
  then show ?thesis by (simp add: fracText_def parseFrac_def)
next
  case False
  define t where "t = trimZeros (padNat 9 ns)"
  obtain k where k: "padNat 9 ns = t @ replicate k (CHR ''0'')"
    using trimZeros_split t_def by metis
  have dig: "list_all is_digit t"
    using padNat_digits [of 9 ns] unfolding k by simp
  have len: "length t + k = 9"
    using arg_cong [OF k, of length] by (simp add: length_padNat)
  have "parseNat (padNat 9 ns) = ns" using assms by (simp add: parseNat_padNat)
  then have val: "parseNat t * 10 ^ k = ns"
    unfolding k by (simp add: parseNat_append parseNat_zeros)
  with False obtain c r where t: "t = c # r" by (cases t) auto
  have z: "\<not> is_digit (CHR ''Z'')" by code_simp
  have "takeWhile is_digit (t @ [CHR ''Z'']) = t"
    using dig z by (induction t) auto
  then have "takeWhile is_digit (c # r @ [CHR ''Z'']) = c # r" by (simp add: t)
  moreover have "9 - length (c # r) = k" "take 9 (c # r) = c # r" using len t by auto
  moreover have "is_digit c" using dig t by simp
  ultimately show ?thesis
    using False val t
    by (simp add: fracText_def parseFrac_def t_def [symmetric] Let_def del: takeWhile.simps)
qed

text \<open>Reading back what was printed gives the same instant.\<close>

lemma daysIn_le:
  assumes "1 \<le> m" "m \<le> 12"
  shows "daysIn y m \<le> 31"
proof -
  have "list_all (\<lambda>m. cumDays True ! m - cumDays True ! (m - 1) \<le> 31) [1..<13]" by code_simp
  moreover have "list_all (\<lambda>m. cumDays False ! m - cumDays False ! (m - 1) \<le> 31) [1..<13]" by code_simp
  ultimately have "list_all (\<lambda>m. cumDays b ! m - cumDays b ! (m - 1) \<le> 31) [1..<13]" for b
    by (cases b) simp_all
  then show ?thesis using assms by (simp add: daysIn_def list_all_iff)
qed

lemma parseTime_timeText:
  assumes "0 \<le> y" "y \<le> 9999" "1 \<le> m" "m \<le> 12" "1 \<le> d" "d \<le> daysIn y m" "sod < 86400" "ns < 10 ^ 9"
  shows "parseTime (timeText y m d sod ns)
           = Some (((dayNumber y m d - epochDay) * 86400 + int sod) * nsPerSecond + int ns)"
proof -
  have "daysIn y m \<le> 31"
    using assms(3,4) by (rule daysIn_le)
  then have d: "nat d < 10 ^ 2" using assms by simp
  have sod: "sod div 3600 \<le> 23" "sod div 60 mod 60 \<le> 59" "sod mod 60 \<le> 59"
    "sod div 3600 * 3600 + sod div 60 mod 60 * 60 + sod mod 60 = sod"
    using assms(7) mod_mult2_eq [of sod 60 60] div_mult_mod_eq [of sod 3600]
    by (simp_all add: less_mult_imp_div_less less_Suc_eq_le [symmetric])
  obtain y1 y2 y3 y4 where y: "padNat 4 (nat y) = [y1, y2, y3, y4]"
    using length_padNat [of 4 "nat y"] by (auto simp: numeral_eq_Suc length_Suc_conv simp del: padNat.simps)
  have pair: "\<exists>a b. padNat 2 n = [a, b]" for n
    using length_padNat [of 2 n] by (auto simp: numeral_eq_Suc length_Suc_conv simp del: padNat.simps)
  obtain m1 m2 d1 d2 h1 h2 i1 i2 s1 s2 where
    p: "padNat 2 m = [m1, m2]" "padNat 2 (nat d) = [d1, d2]" "padNat 2 (sod div 3600) = [h1, h2]"
       "padNat 2 (sod div 60 mod 60) = [i1, i2]" "padNat 2 (sod mod 60) = [s1, s2]"
    using pair by metis
  have lim: "nat y \<le> 9999" "nat d \<le> nat (daysIn y m)" "1 \<le> nat d" "nat y < 10 ^ 4"
    "sod div 3600 < 10 ^ 2" "sod div 60 mod 60 < 10 ^ 2" "sod mod 60 < 10 ^ 2" "m < 10 ^ 2"
    using assms(1-6) sod(1-3) by simp_all
  have u: "parseUint [y1, y2, y3, y4] 0 9999 = Some (nat y)"
    "parseUint [m1, m2] 1 12 = Some m"
    "parseUint [d1, d2] 1 (nat (daysIn y m)) = Some (nat d)"
    "parseUint [h1, h2] 0 23 = Some (sod div 3600)"
    "parseUint [i1, i2] 0 59 = Some (sod div 60 mod 60)"
    "parseUint [s1, s2] 0 59 = Some (sod mod 60)"
    unfolding p [symmetric] y [symmetric]
    by (rule parseUint_padNat, rule lim d, rule le0 lim assms, rule lim assms sod)+
  have tt: "timeText y m d sod ns =
      [y1, y2, y3, y4, CHR ''-'', m1, m2, CHR ''-'', d1, d2, CHR ''T'', h1, h2, CHR '':'', i1, i2,
       CHR '':'', s1, s2] @ fracText ns @ [CHR ''Z'']"
    by (simp add: timeText_def p y)
  have "is_digit h2" using padNat_digits [of 2 "sod div 3600"] unfolding p by simp
  moreover have "\<not> is_digit (CHR '':'')" by code_simp
  ultimately have "h2 \<noteq> CHR '':''" by blast
  then have "padHour (timeText y m d sod ns) = timeText y m d sod ns" unfolding tt by (simp add: padHour_def)
  then have "parseTime (timeText y m d sod ns) = parseFixed (timeText y m d sod ns)" by (simp add: parseTime_def)
  also have "parseFixed (timeText y m d sod ns) = (case parseZone [CHR ''Z''] of None \<Rightarrow> None
              | Some off \<Rightarrow>
                  Some (((dayNumber (int (nat y)) m (int (nat d)) - epochDay) * 86400
                         + int (sod div 3600 * 3600 + sod div 60 mod 60 * 60 + sod mod 60) - off)
                        * nsPerSecond + int ns))"
    unfolding tt parseFixed_def
    using u assms(1) by (simp add: parseFrac_fracText [OF assms(8)])
  finally show ?thesis
    using assms sod(4) by (simp add: parseZone_def)
qed

theorem parseTime_formatTime: "formatTime t = Some s \<Longrightarrow> parseTime s = Some t"
proof -
  assume f: "formatTime t = Some s"
  obtain y m d where c: "civil (t div nsPerSecond div 86400 + epochDay) = (y, m, d)"
    by (metis prod_cases3)
  have ns: "0 \<le> t mod nsPerSecond" "t mod nsPerSecond < nsPerSecond"
    by (simp_all add: nsPerSecond_def)
  have s: "s = timeText y m d (nat (t div nsPerSecond mod 86400)) (nat (t mod nsPerSecond))"
    and y: "0 \<le> y" "y \<le> 9999"
    using f c by (auto simp: formatTime_def Let_def split: if_splits)
  have "parseTime s = Some (((dayNumber y m d - epochDay) * 86400
      + int (nat (t div nsPerSecond mod 86400))) * nsPerSecond + int (nat (t mod nsPerSecond)))"
    unfolding s using ns civil_date [OF c] y
    by (intro parseTime_timeText) (auto simp: nsPerSecond_def)
  then show ?thesis
    using civil_date(1) [OF c] ns by (simp add: nsPerSecond_def)
qed

end
