(* ===== verification/Domain_Model.thy ===== *)
theory Domain_Model
  imports Go_Errors Go_Time
begin

text \<open>
  internal/domain/model: the records of the service and the methods of
  \<open>SendInviteRequest\<close> that choose between its structured and its deprecated fields.
  A pointer to a struct is an option; string types with constants stay strings, since a stored or
  received value can be any string.
\<close>

named_theorems resolve \<open>how the fields of a request are resolved\<close>

section \<open>Invite records (invite\_record.go)\<close>

type_synonym InviteStatus = string

definition InviteStatusPending :: InviteStatus where
  "InviteStatusPending = ''pending''"

definition InviteStatusAccepted :: InviteStatus where
  "InviteStatusAccepted = ''accepted''"

lemma status_distinct [simp]:
  "InviteStatusPending \<noteq> InviteStatusAccepted" "InviteStatusAccepted \<noteq> InviteStatusPending"
  by (simp_all add: InviteStatusPending_def InviteStatusAccepted_def)

record Inviter =
  inv_Name :: string
  inv_Username :: string
  inv_Email :: string
  inv_Avatar :: string

record Recipient =
  rcp_Name :: string
  rcp_Email :: string
  rcp_Username :: string
  rcp_Avatar :: string

record InviteResource =
  res_UID :: string
  res_Name :: string
  res_Type :: string
  res_ParentName :: string

record InviteRecord =
  rec_UID :: string
  rec_Status :: InviteStatus
  rec_Recipient :: Recipient
  rec_Inviter :: Inviter
  rec_Resource :: InviteResource
  rec_Role :: string
  rec_OrgName :: string
  rec_ReturnURL :: string
  rec_ExpirationDays :: int
  rec_CustomClaims :: gomap
  rec_CreatedAt :: time
  rec_ExpiresAt :: time
  rec_AcceptedAt :: "time option"
  rec_AcceptedBy :: string

text \<open>The zero values of the structs.\<close>

definition zeroInviter :: Inviter where
  "zeroInviter = \<lparr>inv_Name = [], inv_Username = [], inv_Email = [], inv_Avatar = []\<rparr>"

definition zeroRecipient :: Recipient where
  "zeroRecipient = \<lparr>rcp_Name = [], rcp_Email = [], rcp_Username = [], rcp_Avatar = []\<rparr>"

definition zeroResource :: InviteResource where
  "zeroResource = \<lparr>res_UID = [], res_Name = [], res_Type = [], res_ParentName = []\<rparr>"

definition zeroInviteRecord :: InviteRecord where
  "zeroInviteRecord =
     \<lparr>rec_UID = [], rec_Status = [], rec_Recipient = zeroRecipient, rec_Inviter = zeroInviter,
      rec_Resource = zeroResource, rec_Role = [], rec_OrgName = [], rec_ReturnURL = [],
      rec_ExpirationDays = 0, rec_CustomClaims = [], rec_CreatedAt = zeroTime,
      rec_ExpiresAt = zeroTime, rec_AcceptedAt = None, rec_AcceptedBy = []\<rparr>"

section \<open>Requests (invite.go)\<close>

record SendInviteRequest =
  req_Recipient :: "Recipient option"
  req_Inviter :: "Inviter option"
  req_Resource :: "InviteResource option"
  req_RecipientEmail :: string
  req_RecipientName :: string
  req_InviterName :: string
  req_ResourceUID :: string
  req_ResourceName :: string
  req_ResourceType :: string
  req_Role :: string
  req_ReturnURL :: string
  req_OrgName :: string
  req_ExpirationDays :: int
  req_CustomClaims :: gomap
  req_RecipientHasAccount :: bool

definition ResolvedRecipientEmail :: "SendInviteRequest \<Rightarrow> string" where
  "ResolvedRecipientEmail r =
     (case req_Recipient r of
        Some p \<Rightarrow> if rcp_Email p \<noteq> [] then rcp_Email p else req_RecipientEmail r
      | None \<Rightarrow> req_RecipientEmail r)"

definition ResolvedRecipientName :: "SendInviteRequest \<Rightarrow> string" where
  "ResolvedRecipientName r =
     (case req_Recipient r of
        Some p \<Rightarrow> if rcp_Name p \<noteq> [] then rcp_Name p else req_RecipientName r
      | None \<Rightarrow> req_RecipientName r)"

definition ResolvedResourceUID :: "SendInviteRequest \<Rightarrow> string" where
  "ResolvedResourceUID r =
     (case req_Resource r of
        Some p \<Rightarrow> if res_UID p \<noteq> [] then res_UID p else req_ResourceUID r
      | None \<Rightarrow> req_ResourceUID r)"

definition ResolvedResourceName :: "SendInviteRequest \<Rightarrow> string" where
  "ResolvedResourceName r =
     (case req_Resource r of
        Some p \<Rightarrow> if res_Name p \<noteq> [] then res_Name p else req_ResourceName r
      | None \<Rightarrow> req_ResourceName r)"

definition ResolvedResourceType :: "SendInviteRequest \<Rightarrow> string" where
  "ResolvedResourceType r =
     (case req_Resource r of
        Some p \<Rightarrow> if res_Type p \<noteq> [] then res_Type p else req_ResourceType r
      | None \<Rightarrow> req_ResourceType r)"

definition ResolvedInviterName :: "SendInviteRequest \<Rightarrow> string" where
  "ResolvedInviterName r =
     (case req_Inviter r of
        Some p \<Rightarrow> if inv_Name p \<noteq> [] then inv_Name p else req_InviterName r
      | None \<Rightarrow> req_InviterName r)"

definition ResolvedParentResourceName :: "SendInviteRequest \<Rightarrow> string" where
  "ResolvedParentResourceName r =
     (case req_Resource r of Some p \<Rightarrow> res_ParentName p | None \<Rightarrow> [])"

lemmas [resolve] =
  ResolvedRecipientEmail_def ResolvedRecipientName_def ResolvedResourceUID_def
  ResolvedResourceName_def ResolvedResourceType_def ResolvedInviterName_def
  ResolvedParentResourceName_def

section \<open>Email payload (invite\_email\_payload.go)\<close>

record InviteEmailPayload =
  pay_RecipientEmail :: string
  pay_RecipientName :: string
  pay_InviterName :: string
  pay_ResourceName :: string
  pay_ResourceType :: string
  pay_ParentResourceName :: string
  pay_ResourceUID :: string
  pay_Role :: string
  pay_OrgName :: string
  pay_InviteLink :: string
  pay_RecipientHasAccount :: bool

section \<open>Audit entries (notification.go)\<close>

datatype DeliveryState = DeliveryStateSent | DeliveryStateFailed | DeliveryStateSkipped

text \<open>The error message is kept as the error whose text it is; \<open>None\<close> is the empty message.\<close>

record NotificationAuditEntry =
  aud_ResourceUID :: string
  aud_RecipientLFID :: string
  aud_RecipientEmail :: string
  aud_Role :: string
  aud_DeliveryState :: DeliveryState
  aud_ErrorMessage :: "goerr option"

end
