(* ===== verification/Api_Types.thy ===== *)
theory Api_Types
  imports Domain_Model
begin

text \<open>
  pkg/api: the public contract of the service, its subjects and its message types. The types
  mirror those of the domain model and are kept apart, as in the source; the conversions are
  \<open>apiToModelRequest\<close> and \<open>domainToAPIInvite\<close>.
\<close>

section \<open>Subjects\<close>

definition SendInviteSubject :: string where
  "SendInviteSubject = ''lfx.invite-service.send_invite''"

definition GetInviteSubject :: string where
  "GetInviteSubject = ''lfx.invite-service.get_invite''"

definition GetInvitesByEmailSubject :: string where
  "GetInvitesByEmailSubject = ''lfx.invite-service.get_invites_by_email''"

definition InviteCreatedSubject :: string where
  "InviteCreatedSubject = ''lfx.invite-service.invite.created''"

definition InviteAcceptedSubject :: string where
  "InviteAcceptedSubject = ''lfx.invite.accepted''"

definition InviteServiceAcceptedSubject :: string where
  "InviteServiceAcceptedSubject = ''lfx.invite-service.invite_accepted''"

definition InviteRevokedSubject :: string where
  "InviteRevokedSubject = ''lfx.invite-service.invite.revoked''"

lemmas subject_defs =
  SendInviteSubject_def GetInviteSubject_def GetInvitesByEmailSubject_def InviteAcceptedSubject_def
  InviteServiceAcceptedSubject_def

section \<open>Messages\<close>

record ApiInviter =
  ainv_Name :: string
  ainv_Username :: string
  ainv_Email :: string
  ainv_Avatar :: string

record ApiRecipient =
  arcp_Name :: string
  arcp_Email :: string
  arcp_Username :: string
  arcp_Avatar :: string

record ApiResource =
  ares_UID :: string
  ares_Name :: string
  ares_Type :: string
  ares_ParentName :: string

record InviteData =
  dat_UID :: string
  dat_Email :: string
  dat_ExpiresAt :: time

record Invite =
  ai_UID :: string
  ai_Status :: string
  ai_Recipient :: ApiRecipient
  ai_Inviter :: ApiInviter
  ai_Resource :: ApiResource
  ai_Role :: string
  ai_OrgName :: string
  ai_ReturnURL :: string
  ai_ExpirationDays :: int
  ai_CustomClaims :: gomap
  ai_CreatedAt :: time
  ai_ExpiresAt :: time
  ai_AcceptedAt :: "time option"
  ai_AcceptedBy :: string

text \<open>\<open>api.InviteStatusPending\<close>, \<open>api.InviteStatusAccepted\<close> and the roles a client may name.\<close>

definition ApiInviteStatusPending :: string where
  "ApiInviteStatusPending = ''pending''"

definition ApiInviteStatusAccepted :: string where
  "ApiInviteStatusAccepted = ''accepted''"

definition InviteRoleManage :: string where
  "InviteRoleManage = ''Manage''"

definition InviteRoleView :: string where
  "InviteRoleView = ''View''"

definition InviteRoleMember :: string where
  "InviteRoleMember = ''Member''"

record SendInviteResponse =
  sresp_InviteData :: "InviteData option"
  sresp_Error :: string

record ApiSendInviteRequest =
  areq_Recipient :: "ApiRecipient option"
  areq_Inviter :: "ApiInviter option"
  areq_Resource :: "ApiResource option"
  areq_RecipientEmail :: string
  areq_RecipientName :: string
  areq_InviterName :: string
  areq_ResourceUID :: string
  areq_ResourceName :: string
  areq_ResourceType :: string
  areq_Role :: string
  areq_ReturnURL :: string
  areq_OrgName :: string
  areq_ExpirationDays :: int
  areq_CustomClaims :: gomap
  areq_RecipientHasAccount :: bool

record InviteAcceptedEvent =
  evt_InviteUID :: string
  evt_Username :: string
  evt_Token :: string

record GetInviteRequest =
  greq_UID :: string

record GetInviteResponse =
  gresp_Invite :: "Invite option"
  gresp_Error :: string

record GetInvitesByEmailRequest =
  ereq_Email :: string

text \<open>\<open>Invites\<close> is \<open>None\<close> for the nil slice, which JSON shows as null.\<close>

record GetInvitesByEmailResponse =
  eresp_Invites :: "Invite list option"
  eresp_Error :: string

record InviteServiceAcceptedEvent =
  acc_Invite :: Invite

text \<open>Zero values.\<close>

definition zeroApiRecipient :: ApiRecipient where
  "zeroApiRecipient = \<lparr>arcp_Name = [], arcp_Email = [], arcp_Username = [], arcp_Avatar = []\<rparr>"

definition zeroApiInviter :: ApiInviter where
  "zeroApiInviter = \<lparr>ainv_Name = [], ainv_Username = [], ainv_Email = [], ainv_Avatar = []\<rparr>"

definition zeroApiResource :: ApiResource where
  "zeroApiResource = \<lparr>ares_UID = [], ares_Name = [], ares_Type = [], ares_ParentName = []\<rparr>"

definition zeroApiSendInviteRequest :: ApiSendInviteRequest where
  "zeroApiSendInviteRequest =
     \<lparr>areq_Recipient = None, areq_Inviter = None, areq_Resource = None, areq_RecipientEmail = [],
      areq_RecipientName = [], areq_InviterName = [], areq_ResourceUID = [], areq_ResourceName = [],
      areq_ResourceType = [], areq_Role = [], areq_ReturnURL = [], areq_OrgName = [],
      areq_ExpirationDays = 0, areq_CustomClaims = [], areq_RecipientHasAccount = False\<rparr>"

definition zeroInviteAcceptedEvent :: InviteAcceptedEvent where
  "zeroInviteAcceptedEvent = \<lparr>evt_InviteUID = [], evt_Username = [], evt_Token = []\<rparr>"

definition zeroGetInviteRequest :: GetInviteRequest where
  "zeroGetInviteRequest = \<lparr>greq_UID = []\<rparr>"

definition zeroGetInvitesByEmailRequest :: GetInvitesByEmailRequest where
  "zeroGetInvitesByEmailRequest = \<lparr>ereq_Email = []\<rparr>"

end
