(* ===== verification/Go_Json.thy ===== *)
theory Go_Json
  imports Go_Time
begin

text \<open>
  Package encoding/json as the service uses it. A JSON text is read in two steps. The scanner
  (\<open>json_parse\<close>) checks the grammar and gives a tree whose string literals are kept as they
  stand between the quotes; decoding (\<open>unquote\<close>, \<open>dec_string\<close>, \<open>dec_struct\<close> and so on)
  stores the tree into a Go value. Encoding builds a tree of escaped literals
  (\<open>escape\<close>) and prints it compactly (\<open>jprint\<close>).

  A decoder takes the JSON value and the present value of its target, as Go's does: \<open>null\<close>
  leaves a string, number, struct or time unchanged, a repeated key decodes into the same field
  again, an unknown key is skipped, and a key matches a field exactly or else by case folding.
  \<open>None\<close> is an error; no caller looks at which.
\<close>

named_theorems json_simps \<open>encoders and decoders applied to constructors\<close>

datatype json =
    JNull
  | JBool bool
  | JNum string
  | JStr string
  | JArr "json list"
  | JObj "(string \<times> json) list"

section \<open>String literals\<close>

definition quoteC :: char where "quoteC = CHR 0x22"
definition slashC :: char where "slashC = CHR 0x5C"

definition hexDigit :: "nat \<Rightarrow> char" where
  "hexDigit n = (if n < 10 then chr (48 + n) else chr (87 + n))"

definition is_hex :: "char \<Rightarrow> bool" where
  "is_hex c \<longleftrightarrow> is_digit c \<or> (97 \<le> byte c \<and> byte c \<le> 102) \<or> (65 \<le> byte c \<and> byte c \<le> 70)"

definition hexVal :: "char \<Rightarrow> nat" where
  "hexVal c = (if is_digit c then byte c - 48 else if 97 \<le> byte c then byte c - 87 else byte c - 55)"

definition hex4 :: "string \<Rightarrow> nat" where
  "hex4 s = foldl (\<lambda>a c. 16 * a + hexVal c) 0 (take 4 s)"

text \<open>One ASCII byte as \<open>appendString\<close> writes it, with HTML escaping on.\<close>

definition escAscii :: "char \<Rightarrow> string" where
  "escAscii c =
     (if c = slashC \<or> c = quoteC then [slashC, c]
      else if byte c = 8 then [slashC, CHR ''b'']
      else if byte c = 12 then [slashC, CHR ''f'']
      else if byte c = 10 then [slashC, CHR ''n'']
      else if byte c = 13 then [slashC, CHR ''r'']
      else if byte c = 9 then [slashC, CHR ''t'']
      else if byte c < 32 \<or> c = CHR ''<'' \<or> c = CHR ''>'' \<or> c = CHR ''&'' then
        [slashC, CHR ''u'', CHR ''0'', CHR ''0'', hexDigit (byte c div 16), hexDigit (byte c mod 16)]
      else [c])"

definition replEsc :: string where
  "replEsc = slashC # ''ufffd''"

definition escRune :: "string \<Rightarrow> string" where
  "escRune r =
     (if r = map chr [226, 128, 168] then slashC # ''u2028''
      else if r = map chr [226, 128, 169] then slashC # ''u2029''
      else r)"

function escape :: "string \<Rightarrow> string" where
  "escape [] = []"
| "escape (c # s) =
     (if is_ascii c then escAscii c @ escape s
      else let k = runeLen (c # s) in
        if k = 0 then replEsc @ escape s
        else escRune (take k (c # s)) @ escape (drop k (c # s)))"
  by pat_completeness auto
termination
  by (relation "measure length") auto

declare escape.simps(2) [simp del]

definition simpleEsc :: "char \<Rightarrow> char option" where
  "simpleEsc e =
     (if e = quoteC \<or> e = slashC \<or> e = CHR ''/'' then Some e
      else if e = CHR ''b'' then Some (chr 8)
      else if e = CHR ''f'' then Some (chr 12)
      else if e = CHR ''n'' then Some (chr 10)
      else if e = CHR ''r'' then Some (chr 13)
      else if e = CHR ''t'' then Some (chr 9)
      else None)"

text \<open>The value of a literal that the scanner has accepted.\<close>

function unquote :: "string \<Rightarrow> string" where
  "unquote [] = []"
| "unquote (c # s) =
     (if c = slashC then
        (case s of
           [] \<Rightarrow> []
         | e # s1 \<Rightarrow>
             if e = CHR ''u'' then
               (let r = hex4 s1; s2 = drop 4 s1 in
                if 55296 \<le> r \<and> r \<le> 57343 then
                  (if take 2 s2 = [slashC, CHR ''u''] \<and> r \<le> 56319
                      \<and> 56320 \<le> hex4 (drop 2 s2) \<and> hex4 (drop 2 s2) \<le> 57343
                   then encodeRune (65536 + (r - 55296) * 1024 + (hex4 (drop 2 s2) - 56320))
                        @ unquote (drop 6 s2)
                   else encodeRune 65533 @ unquote s2)
                else encodeRune r @ unquote s2)
             else (case simpleEsc e of Some d \<Rightarrow> d # unquote s1 | None \<Rightarrow> unquote s1))
      else if is_ascii c then c # unquote s
      else let k = runeLen (c # s) in
        if k = 0 then encodeRune 65533 @ unquote s
        else take k (c # s) @ unquote (drop k (c # s)))"
  by pat_completeness auto
termination
  by (relation "measure length") auto

declare unquote.simps(2) [simp del]

text \<open>The scanner on a literal, after the opening quote.\<close>

fun scanStr :: "string \<Rightarrow> (string \<times> string) option" where
  "scanStr [] = None"
| "scanStr (c # s) =
     (if c = quoteC then Some ([], s)
      else if c = slashC then
        (case s of
           [] \<Rightarrow> None
         | e # s1 \<Rightarrow>
             if simpleEsc e \<noteq> None then map_option (apfst (\<lambda>r. c # e # r)) (scanStr s1)
             else if e = CHR ''u'' then
               (case s1 of
                  h1 # h2 # h3 # h4 # s2 \<Rightarrow>
                    if is_hex h1 \<and> is_hex h2 \<and> is_hex h3 \<and> is_hex h4
                    then map_option (apfst (\<lambda>r. c # e # h1 # h2 # h3 # h4 # r)) (scanStr s2)
                    else None
                | _ \<Rightarrow> None)
             else None)
      else if byte c < 32 then None
      else map_option (apfst (\<lambda>r. c # r)) (scanStr s))"

declare scanStr.simps(2) [simp del]

section \<open>Numbers\<close>

definition scanDigits :: "string \<Rightarrow> (string \<times> string) option" where
  "scanDigits s = (let d = takeWhile is_digit s in if d = [] then None else Some (d, drop (length d) s))"

definition scanIntPart :: "string \<Rightarrow> (string \<times> string) option" where
  "scanIntPart s =
     (case s of
        [] \<Rightarrow> None
      | c # r \<Rightarrow> if c = CHR ''0'' then Some ([c], r) else scanDigits s)"

definition scanFrac :: "string \<Rightarrow> (string \<times> string) option" where
  "scanFrac s =
     (case s of
        c # r \<Rightarrow> if c = CHR ''.'' then map_option (apfst (\<lambda>d. c # d)) (scanDigits r) else Some ([], s)
      | [] \<Rightarrow> Some ([], s))"

definition scanExp :: "string \<Rightarrow> (string \<times> string) option" where
  "scanExp s =
     (case s of
        c # r \<Rightarrow>
          if c = CHR ''e'' \<or> c = CHR ''E'' then
            (case r of
               g # r' \<Rightarrow>
                 if g = CHR ''+'' \<or> g = CHR ''-'' then map_option (apfst (\<lambda>d. c # g # d)) (scanDigits r')
                 else map_option (apfst (\<lambda>d. c # d)) (scanDigits r)
             | [] \<Rightarrow> None)
          else Some ([], s)
      | [] \<Rightarrow> Some ([], s))"

definition scanNum :: "string \<Rightarrow> (string \<times> string) option" where
  "scanNum s =
     (let (sg, s0) = (case s of c # r \<Rightarrow> if c = CHR ''-'' then ([c], r) else ([], s) | [] \<Rightarrow> ([], s))
      in case scanIntPart s0 of None \<Rightarrow> None
         | Some (i, s1) \<Rightarrow> (case scanFrac s1 of None \<Rightarrow> None
         | Some (f, s2) \<Rightarrow> (case scanExp s2 of None \<Rightarrow> None
         | Some (e, s3) \<Rightarrow> Some (sg @ i @ f @ e, s3))))"

text \<open>\<open>strconv.ParseInt(s, 10, 64)\<close> on a number literal.\<close>

definition parseInt64 :: "string \<Rightarrow> int option" where
  "parseInt64 s =
     (let (neg, d) = (case s of c # r \<Rightarrow> if c = CHR ''-'' then (True, r) else (False, s) | [] \<Rightarrow> (False, s));
          v = (if neg then - int (parseNat d) else int (parseNat d))
      in if d = [] \<or> \<not> list_all is_digit d \<or> v < - (2 ^ 63) \<or> 2 ^ 63 \<le> v then None else Some v)"

section \<open>Scanner\<close>

definition is_ws :: "char \<Rightarrow> bool" where
  "is_ws c \<longleftrightarrow> byte c = 32 \<or> byte c = 9 \<or> byte c = 10 \<or> byte c = 13"

definition skipWs :: "string \<Rightarrow> string" where
  "skipWs s = dropWhile is_ws s"

definition nextTok :: "string \<Rightarrow> (char \<times> string) option" where
  "nextTok s = (case skipWs s of [] \<Rightarrow> None | c # r \<Rightarrow> Some (c, r))"

text \<open>A value that is no array or object.\<close>

definition pscalar :: "char \<Rightarrow> string \<Rightarrow> (json \<times> string) option" where
  "pscalar c r =
     (if c = quoteC then map_option (apfst JStr) (scanStr r)
      else if prefix ''true'' (c # r) then Some (JBool True, drop 4 (c # r))
      else if prefix ''false'' (c # r) then Some (JBool False, drop 5 (c # r))
      else if prefix ''null'' (c # r) then Some (JNull, drop 4 (c # r))
      else map_option (apfst JNum) (scanNum (c # r)))"

text \<open>The key of a member and the colon.\<close>

definition pkey :: "string \<Rightarrow> (string \<times> string) option" where
  "pkey s =
     (case nextTok s of None \<Rightarrow> None
      | Some (c, r) \<Rightarrow>
          if c \<noteq> quoteC then None
          else case scanStr r of None \<Rightarrow> None
          | Some (k, r1) \<Rightarrow>
              (case nextTok r1 of None \<Rightarrow> None
               | Some (e, r2) \<Rightarrow> if e = CHR '':'' then Some (k, r2) else None))"

text \<open>
  The elements of an array and the members of an object, for a parser \<open>p\<close> of the values inside.
  The number is fuel: an element takes at least one byte, so the length of the text is enough.
\<close>

primrec pelems :: "(string \<Rightarrow> (json \<times> string) option) \<Rightarrow> nat \<Rightarrow> string \<Rightarrow> (json list \<times> string) option" where
  "pelems p 0 s = None"
| "pelems p (Suc n) s =
     (case p s of None \<Rightarrow> None
      | Some (v, r) \<Rightarrow>
          (case nextTok r of None \<Rightarrow> None
           | Some (e, t) \<Rightarrow>
               if e = CHR '','' then map_option (apfst (\<lambda>vs. v # vs)) (pelems p n t)
               else if e = CHR '']'' then Some ([v], t) else None))"

primrec pmembers :: "(string \<Rightarrow> (json \<times> string) option) \<Rightarrow> nat \<Rightarrow> string \<Rightarrow>
    ((string \<times> json) list \<times> string) option" where
  "pmembers p 0 s = None"
| "pmembers p (Suc n) s =
     (case pkey s of None \<Rightarrow> None
      | Some (k, r) \<Rightarrow>
          (case p r of None \<Rightarrow> None
           | Some (v, r1) \<Rightarrow>
               (case nextTok r1 of None \<Rightarrow> None
                | Some (e, t) \<Rightarrow>
                    if e = CHR '','' then map_option (apfst (\<lambda>ms. (k, v) # ms)) (pmembers p n t)
                    else if e = CHR ''}'' then Some ([(k, v)], t) else None)))"

text \<open>
  A value inside at most \<open>d\<close> more arrays and objects; Go's scanner stops with an error
  at nesting depth 10000.
\<close>

primrec pval :: "nat \<Rightarrow> string \<Rightarrow> (json \<times> string) option" where
  "pval 0 s =
     (case nextTok s of None \<Rightarrow> None
      | Some (c, r) \<Rightarrow> if c = CHR ''{'' \<or> c = CHR ''['' then None else pscalar c r)"
| "pval (Suc d) s =
     (case nextTok s of None \<Rightarrow> None
      | Some (c, r) \<Rightarrow>
          if c = CHR ''{'' then
            (case nextTok r of None \<Rightarrow> None
             | Some (e, t) \<Rightarrow>
                 if e = CHR ''}'' then Some (JObj [], t)
                 else map_option (apfst JObj) (pmembers (pval d) (length r) r))
          else if c = CHR ''['' then
            (case nextTok r of None \<Rightarrow> None
             | Some (e, t) \<Rightarrow>
                 if e = CHR '']'' then Some (JArr [], t)
                 else map_option (apfst JArr) (pelems (pval d) (length r) r))
          else pscalar c r)"

declare pval.simps [simp del] pelems.simps [simp del] pmembers.simps [simp del]

definition maxDepth :: nat where
  "maxDepth = 10000"

definition json_parse :: "string \<Rightarrow> json option" where
  "json_parse s =
     (case pval maxDepth s of None \<Rightarrow> None
      | Some (v, r) \<Rightarrow> if skipWs r = [] then Some v else None)"

section \<open>Printer\<close>

definition quoted :: "string \<Rightarrow> string" where
  "quoted raw = quoteC # raw @ [quoteC]"

fun joinWith :: "string \<Rightarrow> string list \<Rightarrow> string" where
  "joinWith sep [] = []"
| "joinWith sep [x] = x"
| "joinWith sep (x # y # zs) = x @ sep @ joinWith sep (y # zs)"

fun jprint :: "json \<Rightarrow> string" where
  "jprint JNull = ''null''"
| "jprint (JBool b) = (if b then ''true'' else ''false'')"
| "jprint (JNum s) = s"
| "jprint (JStr raw) = quoted raw"
| "jprint (JArr vs) = ''['' @ joinWith '','' (map jprint vs) @ '']''"
| "jprint (JObj ms) =
     ''{'' @ joinWith '','' (map (\<lambda>(k, v). quoted k @ '':'' @ jprint v) ms) @ ''}''"

section \<open>Decoders\<close>

definition dec_string :: "json \<Rightarrow> string \<Rightarrow> string option" where
  "dec_string j cur = (case j of JStr raw \<Rightarrow> Some (unquote raw) | JNull \<Rightarrow> Some cur | _ \<Rightarrow> None)"

definition dec_bool :: "json \<Rightarrow> bool \<Rightarrow> bool option" where
  "dec_bool j cur = (case j of JBool b \<Rightarrow> Some b | JNull \<Rightarrow> Some cur | _ \<Rightarrow> None)"

definition dec_int :: "json \<Rightarrow> int \<Rightarrow> int option" where
  "dec_int j cur = (case j of JNum s \<Rightarrow> parseInt64 s | JNull \<Rightarrow> Some cur | _ \<Rightarrow> None)"

definition dec_time :: "json \<Rightarrow> time \<Rightarrow> time option" where
  "dec_time j cur = (case j of JStr raw \<Rightarrow> parseTime raw | JNull \<Rightarrow> Some cur | _ \<Rightarrow> None)"

definition dec_ptr :: "(json \<Rightarrow> 'a \<Rightarrow> 'a option) \<Rightarrow> 'a \<Rightarrow> json \<Rightarrow> 'a option \<Rightarrow> 'a option option" where
  "dec_ptr dec zero j cur =
     (case j of
        JNull \<Rightarrow> Some None
      | _ \<Rightarrow> map_option Some (dec j (case cur of Some x \<Rightarrow> x | None \<Rightarrow> zero)))"

fun dec_entries :: "(string \<times> json) list \<Rightarrow> gomap \<Rightarrow> gomap option" where
  "dec_entries [] m = Some m"
| "dec_entries ((k, j) # ms) m =
     (case dec_string j [] of None \<Rightarrow> None | Some v \<Rightarrow> dec_entries ms (map_put m (unquote k) v))"

definition dec_map :: "json \<Rightarrow> gomap \<Rightarrow> gomap option" where
  "dec_map j cur = (case j of JObj ms \<Rightarrow> dec_entries ms cur | JNull \<Rightarrow> Some [] | _ \<Rightarrow> None)"

text \<open>
  \<open>foldName\<close> on a key, exact for comparison with ASCII names: lower case ASCII letters are
  raised, and the two other characters that fold to ASCII (U+017F and U+212A) are replaced.
\<close>

fun foldName :: "string \<Rightarrow> string" where
  "foldName [] = []"
| "foldName (a # s) =
     (if 97 \<le> byte a \<and> byte a \<le> 122 then chr (byte a - 32) # foldName s
      else case s of
        b # t \<Rightarrow>
          if byte a = 197 \<and> byte b = 191 then CHR ''S'' # foldName t
          else (case t of
            c # u \<Rightarrow>
              if byte a = 226 \<and> byte b = 132 \<and> byte c = 170 then CHR ''K'' # foldName u
              else a # foldName s
          | [] \<Rightarrow> a # foldName s)
      | [] \<Rightarrow> [a])"

type_synonym 's fields = "(string \<times> (json \<Rightarrow> 's \<Rightarrow> 's option)) list"

definition field_for :: "'s fields \<Rightarrow> string \<Rightarrow> (json \<Rightarrow> 's \<Rightarrow> 's option) option" where
  "field_for fs key =
     (case map_of fs key of
        Some f \<Rightarrow> Some f
      | None \<Rightarrow> map_of (map (apfst foldName) fs) (foldName key))"

fun dec_members :: "'s fields \<Rightarrow> (string \<times> json) list \<Rightarrow> 's \<Rightarrow> 's option" where
  "dec_members fs [] s = Some s"
| "dec_members fs ((k, j) # ms) s =
     (case field_for fs (unquote k) of
        None \<Rightarrow> dec_members fs ms s
      | Some f \<Rightarrow> (case f j s of None \<Rightarrow> None | Some s' \<Rightarrow> dec_members fs ms s'))"

definition dec_struct :: "'s fields \<Rightarrow> json \<Rightarrow> 's \<Rightarrow> 's option" where
  "dec_struct fs j cur = (case j of JObj ms \<Rightarrow> dec_members fs ms cur | JNull \<Rightarrow> Some cur | _ \<Rightarrow> None)"

text \<open>\<open>json.Unmarshal(data, &v)\<close> for a zero \<open>v\<close>.\<close>

definition unmarshal :: "(json \<Rightarrow> 'a \<Rightarrow> 'a option) \<Rightarrow> 'a \<Rightarrow> string \<Rightarrow> 'a option" where
  "unmarshal dec zero s = (case json_parse s of None \<Rightarrow> None | Some j \<Rightarrow> dec j zero)"

section \<open>Encoders\<close>

definition enc_string :: "string \<Rightarrow> json" where
  "enc_string s = JStr (escape s)"

definition enc_int :: "int \<Rightarrow> json" where
  "enc_int n = JNum (showInt n)"

definition enc_time :: "time \<Rightarrow> json option" where
  "enc_time t = map_option JStr (formatTime t)"

definition enc_map :: "gomap \<Rightarrow> json" where
  "enc_map m = JObj (map (\<lambda>(k, v). (escape k, enc_string v)) m)"

text \<open>Members of an object; \<open>omitempty\<close> drops zero values.\<close>

definition str_field :: "string \<Rightarrow> string \<Rightarrow> (string \<times> json) list" where
  "str_field k s = [(k, enc_string s)]"

definition str_omit :: "string \<Rightarrow> string \<Rightarrow> (string \<times> json) list" where
  "str_omit k s = (if s = [] then [] else [(k, enc_string s)])"

definition int_omit :: "string \<Rightarrow> int \<Rightarrow> (string \<times> json) list" where
  "int_omit k n = (if n = 0 then [] else [(k, enc_int n)])"

definition map_omit :: "string \<Rightarrow> gomap \<Rightarrow> (string \<times> json) list" where
  "map_omit k m = (if m = [] then [] else [(k, enc_map m)])"

end
