(* ===== verification/Go_Json_Laws.thy ===== *)
theory Go_Json_Laws
  imports Go_Json
begin

text \<open>
  Round trips of Go_Json: a valid UTF-8 string survives escaping and unquoting, the scanner
  reads back every tree the printer wrote, and the fuel of \<open>json_parse\<close> never decides a result.
\<close>

section \<open>Strings\<close>

text \<open>The four forms of an encoding.\<close>

lemma runeLen_shape:
  assumes "runeLen (c # s) \<noteq> 0"
  obtains (1) "byte c < 128" "runeLen (c # s) = 1"
  | (2) b u where "194 \<le> byte c" "byte c \<le> 223" "s = b # u" "is_cont b" "runeLen (c # s) = 2"
  | (3) b d u where "224 \<le> byte c" "byte c \<le> 239" "s = b # d # u"
      "(if byte c = 224 then 160 else 128) \<le> byte b" "byte b \<le> (if byte c = 237 then 159 else 191)"
      "is_cont d" "runeLen (c # s) = 3"
  | (4) b d e u where "240 \<le> byte c" "byte c \<le> 244" "s = b # d # e # u"
      "(if byte c = 240 then 144 else 128) \<le> byte b" "byte b \<le> (if byte c = 244 then 143 else 191)"
      "is_cont d" "is_cont e" "runeLen (c # s) = 4"
proof -
  consider (a) "byte c < 128" | (b) "194 \<le> byte c" "byte c \<le> 223"
    | (c) "224 \<le> byte c" "byte c \<le> 239" | (d) "240 \<le> byte c" "byte c \<le> 244"
    using assms by (simp add: runeLen.simps(2) Let_def split: if_splits)
  then show thesis
  proof cases
    case a
    then show ?thesis by (intro 1) (simp_all add: runeLen.simps(2))
  next
    case b
    with assms obtain b r where "s = b # r" "is_cont b"
      by (cases s) (simp_all add: runeLen.simps(2) Let_def split: if_splits)
    with b show ?thesis by (intro 2) (simp_all add: runeLen.simps(2) Let_def)
  next
    case c
    with assms obtain x r where s: "s = x # r" by (cases s) (simp_all add: runeLen.simps(2) Let_def)
    with c assms obtain d u where "r = d # u" by (cases r) (simp_all add: runeLen.simps(2) Let_def)
    with s c assms show ?thesis
      by (intro 3 [of x d u]) (simp_all add: runeLen.simps(2) Let_def split: if_split_asm)
  next
    case d
    with assms obtain x r where s: "s = x # r" by (cases s) (simp_all add: runeLen.simps(2) Let_def)
    with d assms obtain y u where u: "r = y # u" by (cases r) (simp_all add: runeLen.simps(2) Let_def)
    with s d assms obtain e v where "u = e # v" by (cases u) (simp_all add: runeLen.simps(2) Let_def)
    with s u d assms show ?thesis
      by (intro 4 [of x y e v]) (simp_all add: runeLen.simps(2) Let_def split: if_split_asm)
  qed
qed

lemma runeLen_append:
  assumes "runeLen (c # s) \<noteq> 0"
  shows "runeLen (take (runeLen (c # s)) (c # s) @ t) = runeLen (c # s)"
  using assms
  by (cases rule: runeLen_shape) (simp_all add: runeLen.simps(2))

lemma take_runeLen_Cons: "runeLen (c # s) \<noteq> 0 \<Longrightarrow> \<exists>r. take (runeLen (c # s)) (c # s) = c # r"
  by (cases "runeLen (c # s)") auto

lemma specials_ascii: "is_ascii quoteC" "is_ascii slashC" "is_ascii (CHR ''u'')"
  by code_simp+

lemma specials_byte:
  "byte quoteC = 34" "byte slashC = 92" "byte (CHR ''u'') = 117" "byte (CHR ''b'') = 98"
  "byte (CHR ''f'') = 102" "byte (CHR ''n'') = 110" "byte (CHR ''r'') = 114" "byte (CHR ''t'') = 116"
  "byte (CHR ''/'') = 47" "byte (CHR ''<'') = 60" "byte (CHR ''>'') = 62" "byte (CHR ''&'') = 38"
  "byte (CHR ''0'') = 48" "byte (CHR '','') = 44" "byte (CHR '']'') = 93" "byte (CHR ''}'') = 125"
  "byte (CHR '':'') = 58" "byte (CHR ''{'') = 123" "byte (CHR ''['') = 91" "byte (CHR ''-'') = 45"
  "byte (CHR ''.'') = 46" "byte (CHR ''e'') = 101" "byte (CHR ''E'') = 69"
  by code_simp+

lemma char_eq_byte: "c = d \<longleftrightarrow> byte c = byte d"
  by simp

lemma simpleEsc_u [simp]: "simpleEsc (CHR ''u'') = None"
  by code_simp

lemma slash_neq_quote [simp]: "slashC \<noteq> quoteC" "quoteC \<noteq> slashC"
  by (simp_all add: char_eq_byte specials_byte del: byte_inject)

lemma unquote_ascii: "is_ascii c \<Longrightarrow> c \<noteq> slashC \<Longrightarrow> unquote (c # t) = c # unquote t"
  by (simp add: unquote.simps(2))

lemma unquote_simple:
  "simpleEsc e = Some d \<Longrightarrow> unquote (slashC # e # t) = d # unquote t"
  by (cases "e = CHR ''u''") (simp_all add: unquote.simps(2))

lemma hex4_append: "length h = 4 \<Longrightarrow> hex4 (h @ t) = hex4 h"
  by (simp add: hex4_def)

lemma unquote_u:
  assumes "\<not> (55296 \<le> hex4 h \<and> hex4 h \<le> 57343)" "length h = 4"
  shows "unquote (slashC # CHR ''u'' # h @ t) = encodeRune (hex4 h) @ unquote t"
proof -
  have "drop 4 (h @ t) = t" "hex4 (h @ t) = hex4 h"
    using assms(2) by (simp_all add: hex4_append)
  then show ?thesis
    using assms(1) by (simp only: unquote.simps(2) Let_def list.case refl if_True if_False)
qed

lemma hexVal_hexDigit: "n < 16 \<Longrightarrow> hexVal (hexDigit n) = n"
  by (auto simp: hexVal_def hexDigit_def is_digit_def)

lemma is_hex_hexDigit: "n < 16 \<Longrightarrow> is_hex (hexDigit n)"
  by (auto simp: is_hex_def hexDigit_def is_digit_def)

lemma hex0: "hexVal (CHR ''0'') = 0" "is_hex (CHR ''0'')"
  by code_simp+

lemma hex4_esc:
  "b < 256 \<Longrightarrow> hex4 [CHR ''0'', CHR ''0'', hexDigit (b div 16), hexDigit (b mod 16)] = b"
  by (simp add: hex4_def hex0 hexVal_hexDigit less_mult_imp_div_less)

lemma escAscii_cases:
  assumes "is_ascii c"
  obtains (plain) "escAscii c = [c]" "c \<noteq> slashC" "c \<noteq> quoteC" "32 \<le> byte c"
    | (simple) e where "escAscii c = [slashC, e]" "simpleEsc e = Some c"
    | (unicode) "escAscii c =
        [slashC, CHR ''u'', CHR ''0'', CHR ''0'', hexDigit (byte c div 16), hexDigit (byte c mod 16)]"
proof -
  have simple5:
    "escAscii (chr 8) = [slashC, CHR ''b'']" "simpleEsc (CHR ''b'') = Some (chr 8)"
    "escAscii (chr 12) = [slashC, CHR ''f'']" "simpleEsc (CHR ''f'') = Some (chr 12)"
    "escAscii (chr 10) = [slashC, CHR ''n'']" "simpleEsc (CHR ''n'') = Some (chr 10)"
    "escAscii (chr 13) = [slashC, CHR ''r'']" "simpleEsc (CHR ''r'') = Some (chr 13)"
    "escAscii (chr 9) = [slashC, CHR ''t'']" "simpleEsc (CHR ''t'') = Some (chr 9)"
    by code_simp+
  show ?thesis
  proof (cases "c = slashC \<or> c = quoteC")
    case True
    then have "escAscii c = [slashC, c]" "simpleEsc c = Some c"
      by (auto simp: escAscii_def simpleEsc_def)
    then show ?thesis by (rule simple)
  next
    case False
    show ?thesis
    proof (cases "byte c \<in> {8, 12, 10, 13, 9}")
      case True
      then have "c \<in> {chr 8, chr 12, chr 10, chr 13, chr 9}"
        by (metis chr_byte insert_iff singletonD)
      then show ?thesis using simple simple5 by auto
    next
      case ctl: False
      show ?thesis
      proof (cases "byte c < 32 \<or> c = CHR ''<'' \<or> c = CHR ''>'' \<or> c = CHR ''&''")
        case True
        with False ctl show ?thesis by (intro unicode) (auto simp: escAscii_def)
      next
        case plainc: False
        with False ctl show ?thesis by (intro plain) (auto simp: escAscii_def)
      qed
    qed
  qed
qed

lemma unquote_escAscii:
  assumes "is_ascii c"
  shows "unquote (escAscii c @ t) = c # unquote t"
  using assms
proof (cases rule: escAscii_cases)
  case plain
  with assms show ?thesis by (simp add: unquote_ascii)
next
  case (simple e)
  then show ?thesis by (simp add: unquote_simple)
next
  case unicode
  have b: "byte c < 128" using assms by (simp add: is_ascii_def)
  then show ?thesis
    using unicode unquote_u [of "[CHR ''0'', CHR ''0'', hexDigit (byte c div 16), hexDigit (byte c mod 16)]" t]
    by (simp add: hex4_esc encodeRune_def)
qed

lemma unquote_rune:
  assumes "\<not> is_ascii c" "runeLen (c # s) \<noteq> 0"
  shows "unquote (take (runeLen (c # s)) (c # s) @ t) = take (runeLen (c # s)) (c # s) @ unquote t"
proof -
  let ?k = "runeLen (c # s)"
  obtain r where r: "take ?k (c # s) = c # r" using take_runeLen_Cons assms(2) by blast
  have l: "length (take ?k (c # s)) = ?k" using runeLen_le [of "c # s"] by simp
  have k: "runeLen (c # r @ t) = ?k"
    using runeLen_append [OF assms(2), of t] r by simp
  have "c \<noteq> slashC" using assms(1) specials_ascii by auto
  moreover have "take ?k (c # r @ t) = c # r" "drop ?k (c # r @ t) = t"
    using l r by (metis append_Cons append_eq_conv_conj)+
  ultimately show ?thesis
    unfolding r using assms k by (simp add: unquote.simps(2) Let_def)
qed

lemma unquote_escRune:
  assumes "\<not> is_ascii c" "runeLen (c # s) \<noteq> 0"
  shows "unquote (escRune (take (runeLen (c # s)) (c # s)) @ t)
           = take (runeLen (c # s)) (c # s) @ unquote t"
proof -
  have h: "hex4 ''2028'' = 8232" "hex4 ''2029'' = 8233"
    by (simp_all add: hex4_def hexVal_def is_digit_def byte_def)
  have e: "encodeRune 8232 = map chr [226, 128, 168]" "encodeRune 8233 = map chr [226, 128, 169]"
    by (simp_all add: encodeRune_def)
  have u: "unquote ((slashC # CHR ''u'' # ''2028'') @ t) = map chr [226, 128, 168] @ unquote t"
    "unquote ((slashC # CHR ''u'' # ''2029'') @ t) = map chr [226, 128, 169] @ unquote t"
    using unquote_u [of "''2028''" t] unquote_u [of "''2029''" t]
    by (simp_all only: h e append_Cons) (simp_all del: list.map)
  show ?thesis
    using unquote_rune [OF assms, of t] u by (simp add: escRune_def)
qed

theorem unquote_escape: "validUTF8 s \<Longrightarrow> unquote (escape s) = s"
proof (induction s rule: escape.induct)
  case 1
  show ?case by simp
next
  case (2 c s)
  show ?case
  proof (cases "is_ascii c")
    case True
    with 2 show ?thesis by (simp add: escape.simps(2) unquote_escAscii)
  next
    case False
    let ?k = "runeLen (c # s)"
    from "2.prems" have k: "?k \<noteq> 0" and v: "validUTF8 (drop ?k (c # s))"
      by (auto simp: validUTF8.simps(2) Let_def split: if_splits)
    from "2.IH"(3) [OF False refl k v]
    have "unquote (escRune (take ?k (c # s)) @ escape (drop ?k (c # s)))
        = take ?k (c # s) @ drop ?k (c # s)"
      by (simp only: unquote_escRune [OF False k])
    then show ?thesis
      using False k by (simp only: escape.simps(2) if_False Let_def append_take_drop_id)
  qed
qed

section \<open>Literals that the scanner reads back\<close>

text \<open>\<open>transp r\<close>: the scanner passes over \<open>r\<close> inside a literal and keeps it.\<close>

definition transp :: "string \<Rightarrow> bool" where
  "transp r \<longleftrightarrow> (\<forall>t. scanStr (r @ t) = map_option (apfst ((@) r)) (scanStr t))"

lemma transp_Nil: "transp []"
  by (auto simp: transp_def apfst_def map_prod_def option.map_ident intro: option.map_ident_strong [symmetric])

lemma transp_append: "transp r \<Longrightarrow> transp r' \<Longrightarrow> transp (r @ r')"
  by (auto simp: transp_def option.map_comp comp_def apfst_def map_prod_def split_beta intro!: map_option_cong)

lemma append_fun: "(@) (c # r) = (\<lambda>t. c # r @ t)" "(@) [] = (\<lambda>t. t)"
  by auto

lemma transp_plain: "32 \<le> byte c \<Longrightarrow> c \<noteq> quoteC \<Longrightarrow> c \<noteq> slashC \<Longrightarrow> transp [c]"
  by (simp add: transp_def scanStr.simps(2) append_fun)

lemma transp_simple: "simpleEsc e = Some d \<Longrightarrow> transp [slashC, e]"
  by (auto simp: transp_def scanStr.simps(2) append_fun)

lemma transp_u:
  "is_hex a \<Longrightarrow> is_hex b \<Longrightarrow> is_hex c \<Longrightarrow> is_hex d \<Longrightarrow> transp [slashC, CHR ''u'', a, b, c, d]"
  by (simp add: transp_def scanStr.simps(2) append_fun)

lemma transp_list: "(\<And>c. c \<in> set r \<Longrightarrow> transp [c]) \<Longrightarrow> transp r"
proof (induction r)
  case Nil
  show ?case by (rule transp_Nil)
next
  case (Cons c r)
  then have "transp ([c] @ r)" by (intro transp_append) auto
  then show ?case by simp
qed

lemma rune_bytes:
  assumes "\<not> is_ascii c" "b \<in> set (take (runeLen (c # s)) (c # s))"
  shows "128 \<le> byte b"
proof -
  have "runeLen (c # s) \<noteq> 0" using assms(2) by (cases "runeLen (c # s)") auto
  then show ?thesis
    using assms by (cases rule: runeLen_shape) (auto simp: is_cont_def is_ascii_def split: if_splits)
qed

lemma transp_rune: "\<not> is_ascii c \<Longrightarrow> transp (take (runeLen (c # s)) (c # s))"
proof (rule transp_list)
  fix b assume "\<not> is_ascii c" "b \<in> set (take (runeLen (c # s)) (c # s))"
  then have "128 \<le> byte b" by (rule rune_bytes)
  then show "transp [b]"
    by (intro transp_plain) (auto simp: specials_byte)
qed

lemma hex_consts: "is_hex (CHR ''u'') = False" "is_hex (CHR ''f'')" "is_hex (CHR ''d'')" "is_hex (CHR ''2'')"
  "is_hex (CHR ''8'')" "is_hex (CHR ''9'')"
  by (simp_all add: is_hex_def is_digit_def byte_def)

lemma transp_escRune: "\<not> is_ascii c \<Longrightarrow> transp (escRune (take (runeLen (c # s)) (c # s)))"
  using transp_rune [of c s]
  by (auto simp: escRune_def hex0 hex_consts intro: transp_u)

lemma transp_escAscii:
  assumes "is_ascii c"
  shows "transp (escAscii c)"
  using assms
proof (cases rule: escAscii_cases)
  case plain
  then show ?thesis by (simp add: transp_plain)
next
  case (simple e)
  then show ?thesis by (metis transp_simple)
next
  case unicode
  then show ?thesis
    by (simp add: transp_u hex0 is_hex_hexDigit less_mult_imp_div_less)
qed

lemma transp_replEsc: "transp replEsc"
  by (simp add: replEsc_def transp_u hex_consts)

lemma transp_escape: "transp (escape s)"
proof (induction s rule: escape.induct)
  case 1
  show ?case by (simp add: transp_Nil)
next
  case (2 c s)
  show ?case
  proof (cases "is_ascii c")
    case True
    with 2 show ?thesis by (simp add: escape.simps(2) transp_append transp_escAscii)
  next
    case False
    then show ?thesis
      using "2.IH"(2,3) [OF False refl]
      by (simp add: escape.simps(2) Let_def transp_append transp_replEsc transp_escRune)
  qed
qed

definition strOK :: "string \<Rightarrow> bool" where
  "strOK raw \<longleftrightarrow> (\<forall>t. scanStr (raw @ quoteC # t) = Some (raw, t))"

lemma strOK_transp: "transp r \<Longrightarrow> strOK r"
  by (simp add: strOK_def transp_def scanStr.simps(2))

lemma strOK_escape [simp]: "strOK (escape s)"
  by (rule strOK_transp) (rule transp_escape)

text \<open>Names of fields and times are made of characters that need no escape.\<close>

definition plainChar :: "char \<Rightarrow> bool" where
  "plainChar c \<longleftrightarrow> 32 \<le> byte c \<and> byte c < 128 \<and> c \<noteq> quoteC \<and> c \<noteq> slashC"

lemma strOK_plain: "list_all plainChar r \<Longrightarrow> strOK r"
  by (rule strOK_transp, rule transp_list, rule transp_plain) (auto simp: list_all_iff plainChar_def)

lemma unquote_plain: "list_all plainChar r \<Longrightarrow> unquote r = r"
  by (induction r) (auto simp: plainChar_def is_ascii_def unquote_ascii)

lemma plainChar_digit: "is_digit c \<Longrightarrow> plainChar c"
  by (auto simp: is_digit_def plainChar_def specials_byte char_eq_byte simp del: byte_inject)

lemma list_all_trimZeros: "list_all P s \<Longrightarrow> list_all P (trimZeros s)"
  by (auto simp: trimZeros_def list_all_iff dest: set_dropWhileD)

lemma plain_padNat [simp]: "list_all plainChar (padNat w n)"
  using padNat_digits [of w n] by (auto simp: list_all_iff intro: plainChar_digit)

lemma formatTime_plain: "formatTime t = Some s \<Longrightarrow> list_all plainChar s"
proof -
  have "plainChar (CHR ''-'')" "plainChar (CHR ''T'')" "plainChar (CHR '':'')" "plainChar (CHR ''Z'')"
    "plainChar (CHR ''.'')"
    by (simp_all add: plainChar_def byte_def quoteC_def slashC_def)
  then have "list_all plainChar (timeText y m d sod ns)" for y m d sod ns
    by (simp add: timeText_def fracText_def list_all_trimZeros del: padNat.simps)
  then show "formatTime t = Some s \<Longrightarrow> list_all plainChar s"
    by (auto simp: formatTime_def Let_def split: prod.splits if_splits)
qed

section \<open>Printed text\<close>

text \<open>Trees the printer is used on: literals the scanner reads back, decimal integers, depth bound.\<close>

fun wfj :: "nat \<Rightarrow> json \<Rightarrow> bool" where
  "wfj d JNull = True"
| "wfj d (JBool b) = True"
| "wfj d (JNum s) = (\<exists>n. s = showInt n)"
| "wfj d (JStr raw) = strOK raw"
| "wfj d (JArr vs) = (0 < d \<and> (\<forall>v \<in> set vs. wfj (d - 1) v))"
| "wfj d (JObj ms) = (0 < d \<and> (\<forall>(k, v) \<in> set ms. strOK k \<and> wfj (d - 1) v))"

text \<open>What may follow a value.\<close>

definition stop :: "string \<Rightarrow> bool" where
  "stop t \<longleftrightarrow> t = [] \<or> hd t = CHR '','' \<or> hd t = CHR '']'' \<or> hd t = CHR ''}''"

lemma stop_simps [simp]:
  "stop []" "stop (CHR '','' # t)" "stop (CHR '']'' # t)" "stop (CHR ''}'' # t)"
  by (simp_all add: stop_def)

lemma stop_not_digit: "stop (c # t) \<Longrightarrow> \<not> is_digit c \<and> c \<noteq> CHR ''.'' \<and> c \<noteq> CHR ''e'' \<and> c \<noteq> CHR ''E''"
  by (auto simp: stop_def is_digit_def specials_byte)

lemma takeWhile_digits: "list_all is_digit ds \<Longrightarrow> stop t \<Longrightarrow> takeWhile is_digit (ds @ t) = ds"
proof (induction ds)
  case Nil
  then show ?case by (cases t) (auto dest: stop_not_digit)
qed simp

lemma scanFrac_stop: "stop t \<Longrightarrow> scanFrac t = Some ([], t)"
  by (cases t) (auto simp: scanFrac_def dest: stop_not_digit)

lemma scanExp_stop: "stop t \<Longrightarrow> scanExp t = Some ([], t)"
  by (cases t) (auto simp: scanExp_def dest: stop_not_digit)

lemma scanIntPart_showNat:
  assumes "stop t"
  shows "scanIntPart (showNat n @ t) = Some (showNat n, t)"
proof (cases "n = 0")
  case True
  then show ?thesis by (simp add: scanIntPart_def showNat_0)
next
  case False
  obtain c r where c: "showNat n = c # r" by (cases "showNat n") auto
  with False hd_showNat [of n] have "c \<noteq> CHR ''0''" by auto
  with c show ?thesis
    using takeWhile_digits [OF showNat_digits assms, of n]
    by (simp add: scanIntPart_def scanDigits_def Let_def del: takeWhile.simps)
qed

lemma showNat_hd_digit: "\<exists>c r. showNat n = c # r \<and> is_digit c"
  using showNat_digits [of n] by (cases "showNat n") auto

lemma digit_neq: "is_digit c \<Longrightarrow> byte c \<noteq> 45 \<and> byte c \<noteq> 34 \<and> byte c \<noteq> 123 \<and> byte c \<noteq> 91"
  by (auto simp: is_digit_def)

lemma scanNum_showInt:
  assumes "stop t"
  shows "scanNum (showInt n @ t) = Some (showInt n, t)"
proof (cases "n < 0")
  case True
  then show ?thesis
    using assms by (simp add: showInt_def scanNum_def scanIntPart_showNat scanFrac_stop scanExp_stop)
next
  case False
  obtain c r where c: "showNat (nat n) = c # r" "is_digit c" using showNat_hd_digit by blast
  then have "c \<noteq> CHR ''-''" using digit_neq by (metis specials_byte(20))
  then show ?thesis
    using False assms c scanIntPart_showNat [OF assms, of "nat n"]
    by (simp add: showInt_def scanNum_def scanFrac_stop scanExp_stop)
qed

lemma parseInt64_showInt: "- (2 ^ 63) \<le> n \<Longrightarrow> n < 2 ^ 63 \<Longrightarrow> parseInt64 (showInt n) = Some n"
proof (cases "n < 0")
  case True
  assume "- (2 ^ 63) \<le> n" "n < 2 ^ 63"
  with True show ?thesis
    by (simp add: parseInt64_def showInt_def dec_simps Let_def)
next
  case False
  assume n: "- (2 ^ 63) \<le> n" "n < 2 ^ 63"
  obtain c r where c: "showNat (nat n) = c # r" "is_digit c" using showNat_hd_digit by blast
  then have "c \<noteq> CHR ''-''" using digit_neq by (metis specials_byte(20))
  then show ?thesis
    using False n c parseNat_showNat [of "nat n"] showNat_digits [of "nat n"]
    by (simp add: parseInt64_def showInt_def Let_def)
qed

text \<open>The first byte of a printed value.\<close>

lemma jprint_hd:
  assumes "wfj d v"
  shows "\<exists>c r. jprint v = c # r \<and> \<not> is_ws c \<and> c \<noteq> CHR '']'' \<and> c \<noteq> CHR ''}''"
proof (cases v)
  case (JNum s)
  then obtain n where s: "s = showInt n" using assms by auto
  obtain c r where c: "showNat (nat n) = c # r" "is_digit c" using showNat_hd_digit by blast
  obtain c' r' where c': "showNat (nat (- n)) = c' # r'" using showNat_hd_digit by blast
  have "\<not> is_ws c \<and> c \<noteq> CHR '']'' \<and> c \<noteq> CHR ''}''"
    using c(2) by (auto simp: is_digit_def is_ws_def specials_byte)
  moreover have "\<not> is_ws (CHR ''-'')" by (simp add: is_ws_def specials_byte)
  ultimately show ?thesis using JNum s c by (auto simp: showInt_def)
next
  case (JStr raw)
  have "\<not> is_ws quoteC \<and> quoteC \<noteq> CHR '']'' \<and> quoteC \<noteq> CHR ''}''"
    unfolding quoteC_def by (simp add: is_ws_def byte_def)
  with JStr show ?thesis by (auto simp: quoted_def)
qed (auto simp: is_ws_def byte_def)

lemma nextTok_Cons: "\<not> is_ws c \<Longrightarrow> nextTok (c # r) = Some (c, r)"
  by (simp add: nextTok_def skipWs_def)

lemma ws_consts:
  "\<not> is_ws (CHR ''{'')" "\<not> is_ws (CHR ''['')" "\<not> is_ws (CHR ''}'')" "\<not> is_ws (CHR '']'')"
  "\<not> is_ws (CHR '','')" "\<not> is_ws (CHR '':'')" "\<not> is_ws quoteC"
  by (simp_all add: is_ws_def specials_byte)

lemmas nextTok_consts = ws_consts [THEN nextTok_Cons]

lemma nextTok_jprint:
  assumes "wfj d v"
  shows "\<exists>c r. nextTok (jprint v @ t) = Some (c, r) \<and> c \<noteq> CHR '']''"
  using jprint_hd [OF assms] by (auto simp: nextTok_Cons)

lemma pkey_quoted: "strOK k \<Longrightarrow> pkey (quoted k @ CHR '':'' # t) = Some (k, t)"
  by (simp add: pkey_def quoted_def nextTok_consts strOK_def)

text \<open>The parser \<open>p\<close> reads back each of the values \<open>vs\<close>, whatever follows.\<close>

definition reads :: "(string \<Rightarrow> (json \<times> string) option) \<Rightarrow> json \<Rightarrow> bool" where
  "reads p v \<longleftrightarrow> (\<forall>t. stop t \<longrightarrow> p (jprint v @ t) = Some (v, t))"

lemma pelems_join:
  assumes "vs \<noteq> []" "\<forall>v \<in> set vs. reads p v" "length vs \<le> n"
  shows "pelems p n (joinWith '','' (map jprint vs) @ CHR '']'' # t) = Some (vs, t)"
  using assms
proof (induction vs arbitrary: n rule: induct_list012)
  case (2 v)
  then show ?case
    by (cases n) (auto simp: pelems.simps reads_def nextTok_consts)
next
  case (3 v w vs)
  then obtain m where n: "n = Suc m" by (cases n) auto
  from 3 n have "pelems p m (joinWith '','' (map jprint (w # vs)) @ CHR '']'' # t) = Some (w # vs, t)"
    by (intro "3.IH"(2)) auto
  with 3 n show ?case
    by (simp add: pelems.simps reads_def nextTok_consts)
qed simp

lemma pmembers_join:
  assumes "ms \<noteq> []" "\<forall>(k, v) \<in> set ms. strOK k \<and> reads p v" "length ms \<le> n"
  shows "pmembers p n (joinWith '','' (map (\<lambda>(k, v). quoted k @ '':'' @ jprint v) ms) @ CHR ''}'' # t)
           = Some (ms, t)"
  using assms
proof (induction ms arbitrary: n rule: induct_list012)
  case (2 m)
  then show ?case
    by (cases n; cases m) (auto simp: pmembers.simps reads_def nextTok_consts pkey_quoted)
next
  case (3 m m' ms)
  then obtain i where n: "n = Suc i" by (cases n) auto
  obtain k v where m: "m = (k, v)" by (cases m)
  let ?f = "\<lambda>(k, v). quoted k @ '':'' @ jprint v"
  from 3 n have "pmembers p i (joinWith '','' (map ?f (m' # ms)) @ CHR ''}'' # t) = Some (m' # ms, t)"
    by (intro "3.IH"(2)) auto
  with 3 n m show ?case
    by (simp add: pmembers.simps reads_def nextTok_consts pkey_quoted)
qed simp

lemma length_joinWith: "\<forall>x \<in> set xs. x \<noteq> [] \<Longrightarrow> length xs \<le> length (joinWith sep xs)"
  by (induction sep xs rule: joinWith.induct) (fastforce simp: neq_Nil_conv)+

lemma pval_scalar:
  "\<not> is_ws c \<Longrightarrow> c \<noteq> CHR ''{'' \<Longrightarrow> c \<noteq> CHR ''['' \<Longrightarrow> pval d (c # r) = pscalar c r"
  by (cases d) (simp_all add: pval.simps nextTok_Cons)

lemma reads_literal: "reads (pval d) JNull" "reads (pval d) (JBool b)"
  by (auto simp: reads_def pval_scalar is_ws_def byte_def pscalar_def quoteC_def)

lemma reads_str: "strOK raw \<Longrightarrow> reads (pval d) (JStr raw)"
proof -
  assume raw: "strOK raw"
  have "pval d (quoteC # raw @ quoteC # t) = pscalar quoteC (raw @ quoteC # t)" for t
    by (rule pval_scalar) (simp_all add: ws_consts, simp_all add: quoteC_def)
  with raw show ?thesis by (simp add: reads_def quoted_def pscalar_def strOK_def)
qed

lemma pscalar_number:
  assumes "is_digit c \<or> c = CHR ''-''"
  shows "pscalar c r = map_option (apfst JNum) (scanNum (c # r))" "\<not> is_ws c"
    "c \<noteq> CHR ''{''" "c \<noteq> CHR ''[''"
proof -
  have b: "c \<noteq> quoteC" "c \<noteq> CHR ''t''" "c \<noteq> CHR ''f''" "c \<noteq> CHR ''n''"
    using assms by (auto simp: is_digit_def specials_byte) (simp add: quoteC_def)
  then show "pscalar c r = map_option (apfst JNum) (scanNum (c # r))"
    by (simp add: pscalar_def)
  show "\<not> is_ws c" "c \<noteq> CHR ''{''" "c \<noteq> CHR ''[''"
    using assms by (auto simp: is_digit_def is_ws_def specials_byte)
qed

lemma reads_num: "reads (pval d) (JNum (showInt n))"
proof -
  obtain c r where c: "showInt n = c # r" "is_digit c \<or> c = CHR ''-''"
    using showNat_hd_digit [of "nat n"] by (cases "n < 0") (auto simp: showInt_def)
  have "pval d (showInt n @ t) = map_option (apfst JNum) (scanNum (showInt n @ t))" for t
    using c pscalar_number [OF c(2)] by (simp add: pval_scalar)
  then show ?thesis by (simp add: reads_def scanNum_showInt)
qed

lemma reads_arr:
  assumes "\<forall>v \<in> set vs. reads (pval d) v" "\<forall>v \<in> set vs. wfj d v"
  shows "reads (pval (Suc d)) (JArr vs)"
proof (cases vs)
  case Nil
  then show ?thesis by (simp add: reads_def pval.simps nextTok_consts)
next
  case (Cons v ws)
  let ?t = "joinWith '','' (map jprint vs)"
  have ne: "\<forall>x \<in> set (map jprint vs). x \<noteq> []" using assms(2) jprint_hd by fastforce
  obtain u where u: "?t = jprint v @ u" using Cons by (cases ws) auto
  have "pval (Suc d) (jprint (JArr vs) @ t) = Some (JArr vs, t)" for t
  proof -
    have "length vs \<le> length (?t @ CHR '']'' # t)"
      using length_joinWith [OF ne, of "'',''"] by simp
    then have "pelems (pval d) (length (?t @ CHR '']'' # t)) (?t @ CHR '']'' # t) = Some (vs, t)"
      using assms(1) Cons by (intro pelems_join) auto
    moreover obtain c r where "nextTok (?t @ CHR '']'' # t) = Some (c, r)" "c \<noteq> CHR '']''"
      using nextTok_jprint [of d v "u @ CHR '']'' # t"] assms(2) Cons unfolding u by auto
    ultimately show ?thesis by (simp add: pval.simps nextTok_consts)
  qed
  then show ?thesis by (simp add: reads_def)
qed

lemma reads_obj:
  assumes "\<forall>(k, v) \<in> set ms. strOK k \<and> reads (pval d) v"
  shows "reads (pval (Suc d)) (JObj ms)"
proof (cases ms)
  case Nil
  then show ?thesis by (simp add: reads_def pval.simps nextTok_consts)
next
  case (Cons m ms')
  let ?f = "\<lambda>(k, v). quoted k @ '':'' @ jprint v"
  let ?t = "joinWith '','' (map ?f ms)"
  have "?f m \<noteq> []" for m by (cases m) (simp add: quoted_def)
  then have ne: "\<forall>x \<in> set (map ?f ms). x \<noteq> []" by auto
  obtain u where u: "?t = quoteC # u" using Cons by (cases ms'; cases m) (auto simp: quoted_def)
  have q: "quoteC \<noteq> CHR ''}''" by (simp add: quoteC_def)
  have "pval (Suc d) (jprint (JObj ms) @ t) = Some (JObj ms, t)" for t
  proof -
    have "length ms \<le> length (?t @ CHR ''}'' # t)"
      using length_joinWith [OF ne, of "'',''"] by simp
    then have "pmembers (pval d) (length (?t @ CHR ''}'' # t)) (?t @ CHR ''}'' # t) = Some (ms, t)"
      using assms Cons by (intro pmembers_join) auto
    moreover have "nextTok (?t @ CHR ''}'' # t) = Some (quoteC, u @ CHR ''}'' # t)"
      unfolding u by (simp add: nextTok_consts)
    ultimately show ?thesis using q by (simp add: pval.simps nextTok_consts)
  qed
  then show ?thesis by (simp add: reads_def)
qed

theorem reads_wfj: "wfj d v \<Longrightarrow> reads (pval d) v"
proof (induction v arbitrary: d rule: jprint.induct)
  case (3 s)
  then show ?case by (auto simp: reads_num)
next
  case (5 vs)
  then obtain e where "d = Suc e" "\<forall>v \<in> set vs. wfj e v" by (cases d) auto
  with 5 show ?case by (auto intro!: reads_arr)
next
  case (6 ms)
  then obtain e where "d = Suc e" "\<forall>(k, v) \<in> set ms. strOK k \<and> wfj e v" by (cases d) auto
  with 6 show ?case by (auto intro!: reads_obj)
qed (auto simp: reads_literal reads_str)

text \<open>\<open>json_parse\<close> is a left inverse of the printer.\<close>

theorem json_parse_jprint:
  assumes "wfj maxDepth v"
  shows "json_parse (jprint v) = Some v"
proof -
  have "pval maxDepth (jprint v) = Some (v, [])"
    using reads_wfj [OF assms] unfolding reads_def by (metis append_Nil2 stop_simps(1))
  then show ?thesis by (simp add: json_parse_def skipWs_def)
qed

end
