(* ===== verification/Record_Json.thy ===== *)
theory Record_Json
  imports Api_Types Go_Json_Laws
begin

text \<open>
  The JSON form of the records, from the struct tags of internal/domain/model and pkg/api:
  field names, field order and omitempty on encoding; the same names on decoding. An encoder
  is partial because a time outside the years 0 to 9999 cannot be written.
\<close>

section \<open>Fields\<close>

text \<open>One field of a struct decoder: its value is decoded on top of the present one.\<close>

definition fld :: "(json \<Rightarrow> 'a \<Rightarrow> 'a option) \<Rightarrow> ('s \<Rightarrow> 'a) \<Rightarrow> (('a \<Rightarrow> 'a) \<Rightarrow> 's \<Rightarrow> 's) \<Rightarrow>
    json \<Rightarrow> 's \<Rightarrow> 's option" where
  "fld dec get upd j s = map_option (\<lambda>v. upd (\<lambda>_. v) s) (dec j (get s))"

fun time_members :: "(string \<times> time) list \<Rightarrow> (string \<times> json) list option" where
  "time_members [] = Some []"
| "time_members ((k, t) # ts) =
     (case enc_time t of None \<Rightarrow> None
      | Some j \<Rightarrow> map_option (\<lambda>ms. (k, j) # ms) (time_members ts))"

section \<open>model.InviteRecord\<close>

definition enc_Recipient :: "Recipient \<Rightarrow> json" where
  "enc_Recipient p =
     JObj (str_omit ''name'' (rcp_Name p) @ str_omit ''email'' (rcp_Email p)
           @ str_omit ''username'' (rcp_Username p) @ str_omit ''avatar'' (rcp_Avatar p))"

definition enc_Inviter :: "Inviter \<Rightarrow> json" where
  "enc_Inviter p =
     JObj (str_omit ''name'' (inv_Name p) @ str_omit ''username'' (inv_Username p)
           @ str_omit ''email'' (inv_Email p) @ str_omit ''avatar'' (inv_Avatar p))"

definition enc_Resource :: "InviteResource \<Rightarrow> json" where
  "enc_Resource p =
     JObj (str_omit ''uid'' (res_UID p) @ str_omit ''name'' (res_Name p)
           @ str_omit ''type'' (res_Type p) @ str_omit ''parent_name'' (res_ParentName p))"

definition enc_InviteRecord :: "InviteRecord \<Rightarrow> json option" where
  "enc_InviteRecord r =
     (case time_members ([(''created_at'', rec_CreatedAt r), (''expires_at'', rec_ExpiresAt r)]
            @ (case rec_AcceptedAt r of None \<Rightarrow> [] | Some t \<Rightarrow> [(''accepted_at'', t)])) of
        None \<Rightarrow> None
      | Some ts \<Rightarrow> Some (JObj
          (str_field ''uid'' (rec_UID r) @ str_field ''status'' (rec_Status r)
           @ [(''recipient'', enc_Recipient (rec_Recipient r)), (''inviter'', enc_Inviter (rec_Inviter r)),
              (''resource'', enc_Resource (rec_Resource r))]
           @ str_field ''role'' (rec_Role r) @ str_omit ''org_name'' (rec_OrgName r)
           @ str_omit ''return_url'' (rec_ReturnURL r)
           @ int_omit ''expiration_days'' (rec_ExpirationDays r)
           @ map_omit ''custom_claims'' (rec_CustomClaims r) @ ts
           @ str_omit ''accepted_by'' (rec_AcceptedBy r))))"

definition recipient_fields :: "Recipient fields" where
  "recipient_fields =
     [(''name'', fld dec_string rcp_Name rcp_Name_update), (''email'', fld dec_string rcp_Email rcp_Email_update),
      (''username'', fld dec_string rcp_Username rcp_Username_update),
      (''avatar'', fld dec_string rcp_Avatar rcp_Avatar_update)]"

definition inviter_fields :: "Inviter fields" where
  "inviter_fields =
     [(''name'', fld dec_string inv_Name inv_Name_update),
      (''username'', fld dec_string inv_Username inv_Username_update),
      (''email'', fld dec_string inv_Email inv_Email_update),
      (''avatar'', fld dec_string inv_Avatar inv_Avatar_update)]"

definition resource_fields :: "InviteResource fields" where
  "resource_fields =
     [(''uid'', fld dec_string res_UID res_UID_update), (''name'', fld dec_string res_Name res_Name_update),
      (''type'', fld dec_string res_Type res_Type_update),
      (''parent_name'', fld dec_string res_ParentName res_ParentName_update)]"

definition record_fields :: "InviteRecord fields" where
  "record_fields =
     [(''uid'', fld dec_string rec_UID rec_UID_update),
      (''status'', fld dec_string rec_Status rec_Status_update),
      (''recipient'', fld (dec_struct recipient_fields) rec_Recipient rec_Recipient_update),
      (''inviter'', fld (dec_struct inviter_fields) rec_Inviter rec_Inviter_update),
      (''resource'', fld (dec_struct resource_fields) rec_Resource rec_Resource_update),
      (''role'', fld dec_string rec_Role rec_Role_update),
      (''org_name'', fld dec_string rec_OrgName rec_OrgName_update),
      (''return_url'', fld dec_string rec_ReturnURL rec_ReturnURL_update),
      (''expiration_days'', fld dec_int rec_ExpirationDays rec_ExpirationDays_update),
      (''custom_claims'', fld dec_map rec_CustomClaims rec_CustomClaims_update),
      (''created_at'', fld dec_time rec_CreatedAt rec_CreatedAt_update),
      (''expires_at'', fld dec_time rec_ExpiresAt rec_ExpiresAt_update),
      (''accepted_at'', fld (dec_ptr dec_time zeroTime) rec_AcceptedAt rec_AcceptedAt_update),
      (''accepted_by'', fld dec_string rec_AcceptedBy rec_AcceptedBy_update)]"

definition marshalInviteRecord :: "InviteRecord \<Rightarrow> string option" where
  "marshalInviteRecord r = map_option jprint (enc_InviteRecord r)"

definition unmarshalInviteRecord :: "string \<Rightarrow> InviteRecord option" where
  "unmarshalInviteRecord s = unmarshal (dec_struct record_fields) zeroInviteRecord s"

section \<open>Requests and events of pkg/api\<close>

definition api_recipient_fields :: "ApiRecipient fields" where
  "api_recipient_fields =
     [(''name'', fld dec_string arcp_Name arcp_Name_update), (''email'', fld dec_string arcp_Email arcp_Email_update),
      (''username'', fld dec_string arcp_Username arcp_Username_update),
      (''avatar'', fld dec_string arcp_Avatar arcp_Avatar_update)]"

definition api_inviter_fields :: "ApiInviter fields" where
  "api_inviter_fields =
     [(''name'', fld dec_string ainv_Name ainv_Name_update),
      (''username'', fld dec_string ainv_Username ainv_Username_update),
      (''email'', fld dec_string ainv_Email ainv_Email_update),
      (''avatar'', fld dec_string ainv_Avatar ainv_Avatar_update)]"

definition api_resource_fields :: "ApiResource fields" where
  "api_resource_fields =
     [(''uid'', fld dec_string ares_UID ares_UID_update), (''name'', fld dec_string ares_Name ares_Name_update),
      (''type'', fld dec_string ares_Type ares_Type_update),
      (''parent_name'', fld dec_string ares_ParentName ares_ParentName_update)]"

definition send_request_fields :: "ApiSendInviteRequest fields" where
  "send_request_fields =
     [(''recipient'', fld (dec_ptr (dec_struct api_recipient_fields) zeroApiRecipient) areq_Recipient areq_Recipient_update),
      (''inviter'', fld (dec_ptr (dec_struct api_inviter_fields) zeroApiInviter) areq_Inviter areq_Inviter_update),
      (''resource'', fld (dec_ptr (dec_struct api_resource_fields) zeroApiResource) areq_Resource areq_Resource_update),
      (''recipient_email'', fld dec_string areq_RecipientEmail areq_RecipientEmail_update),
      (''recipient_name'', fld dec_string areq_RecipientName areq_RecipientName_update),
      (''inviter_name'', fld dec_string areq_InviterName areq_InviterName_update),
      (''resource_uid'', fld dec_string areq_ResourceUID areq_ResourceUID_update),
      (''resource_name'', fld dec_string areq_ResourceName areq_ResourceName_update),
      (''resource_type'', fld dec_string areq_ResourceType areq_ResourceType_update),
      (''role'', fld dec_string areq_Role areq_Role_update),
      (''return_url'', fld dec_string areq_ReturnURL areq_ReturnURL_update),
      (''org_name'', fld dec_string areq_OrgName areq_OrgName_update),
      (''expiration_days'', fld dec_int areq_ExpirationDays areq_ExpirationDays_update),
      (''custom_claims'', fld dec_map areq_CustomClaims areq_CustomClaims_update),
      (''recipient_has_account'', fld dec_bool areq_RecipientHasAccount areq_RecipientHasAccount_update)]"

definition unmarshalSendInviteRequest :: "string \<Rightarrow> ApiSendInviteRequest option" where
  "unmarshalSendInviteRequest s = unmarshal (dec_struct send_request_fields) zeroApiSendInviteRequest s"

definition unmarshalInviteAcceptedEvent :: "string \<Rightarrow> InviteAcceptedEvent option" where
  "unmarshalInviteAcceptedEvent s =
     unmarshal (dec_struct
       [(''invite_uid'', fld dec_string evt_InviteUID evt_InviteUID_update),
        (''username'', fld dec_string evt_Username evt_Username_update),
        (''token'', fld dec_string evt_Token evt_Token_update)]) zeroInviteAcceptedEvent s"

definition unmarshalGetInviteRequest :: "string \<Rightarrow> GetInviteRequest option" where
  "unmarshalGetInviteRequest s =
     unmarshal (dec_struct [(''uid'', fld dec_string greq_UID greq_UID_update)]) zeroGetInviteRequest s"

definition unmarshalGetInvitesByEmailRequest :: "string \<Rightarrow> GetInvitesByEmailRequest option" where
  "unmarshalGetInvitesByEmailRequest s =
     unmarshal (dec_struct [(''email'', fld dec_string ereq_Email ereq_Email_update)]) zeroGetInvitesByEmailRequest s"

section \<open>Responses and events of pkg/api\<close>

definition enc_ApiRecipient :: "ApiRecipient \<Rightarrow> json" where
  "enc_ApiRecipient p =
     JObj (str_omit ''name'' (arcp_Name p) @ str_omit ''email'' (arcp_Email p)
           @ str_omit ''username'' (arcp_Username p) @ str_omit ''avatar'' (arcp_Avatar p))"

definition enc_ApiInviter :: "ApiInviter \<Rightarrow> json" where
  "enc_ApiInviter p =
     JObj (str_omit ''name'' (ainv_Name p) @ str_omit ''username'' (ainv_Username p)
           @ str_omit ''email'' (ainv_Email p) @ str_omit ''avatar'' (ainv_Avatar p))"

definition enc_ApiResource :: "ApiResource \<Rightarrow> json" where
  "enc_ApiResource p =
     JObj (str_omit ''uid'' (ares_UID p) @ str_omit ''name'' (ares_Name p)
           @ str_omit ''type'' (ares_Type p) @ str_omit ''parent_name'' (ares_ParentName p))"

definition invite_members :: "Invite \<Rightarrow> (string \<times> json) list option" where
  "invite_members r =
     (case time_members ([(''created_at'', ai_CreatedAt r), (''expires_at'', ai_ExpiresAt r)]
            @ (case ai_AcceptedAt r of None \<Rightarrow> [] | Some t \<Rightarrow> [(''accepted_at'', t)])) of
        None \<Rightarrow> None
      | Some ts \<Rightarrow> Some
          (str_field ''uid'' (ai_UID r) @ str_field ''status'' (ai_Status r)
           @ [(''recipient'', enc_ApiRecipient (ai_Recipient r)), (''inviter'', enc_ApiInviter (ai_Inviter r)),
              (''resource'', enc_ApiResource (ai_Resource r))]
           @ str_field ''role'' (ai_Role r) @ str_omit ''org_name'' (ai_OrgName r)
           @ str_omit ''return_url'' (ai_ReturnURL r)
           @ int_omit ''expiration_days'' (ai_ExpirationDays r)
           @ map_omit ''custom_claims'' (ai_CustomClaims r) @ ts
           @ str_omit ''accepted_by'' (ai_AcceptedBy r)))"

definition marshalInviteServiceAcceptedEvent :: "InviteServiceAcceptedEvent \<Rightarrow> string option" where
  "marshalInviteServiceAcceptedEvent e = map_option (jprint \<circ> JObj) (invite_members (acc_Invite e))"

definition marshalSendInviteResponse :: "SendInviteResponse \<Rightarrow> string option" where
  "marshalSendInviteResponse r =
     map_option (\<lambda>ms. jprint (JObj (ms @ str_omit ''error'' (sresp_Error r))))
       (case sresp_InviteData r of
          None \<Rightarrow> Some []
        | Some d \<Rightarrow> map_option (\<lambda>ts. str_field ''uid'' (dat_UID d) @ str_field ''email'' (dat_Email d) @ ts)
                      (time_members [(''expires_at'', dat_ExpiresAt d)]))"

definition marshalGetInviteResponse :: "GetInviteResponse \<Rightarrow> string option" where
  "marshalGetInviteResponse r =
     map_option (\<lambda>ms. jprint (JObj (ms @ str_omit ''error'' (gresp_Error r))))
       (case gresp_Invite r of None \<Rightarrow> Some [] | Some i \<Rightarrow> invite_members i)"

fun enc_Invites :: "Invite list \<Rightarrow> json list option" where
  "enc_Invites [] = Some []"
| "enc_Invites (i # is) =
     (case invite_members i of None \<Rightarrow> None
      | Some ms \<Rightarrow> map_option (\<lambda>js. JObj ms # js) (enc_Invites is))"

definition marshalGetInvitesByEmailResponse :: "GetInvitesByEmailResponse \<Rightarrow> string option" where
  "marshalGetInvitesByEmailResponse r =
     map_option (\<lambda>j. jprint (JObj ((''invites'', j) # str_omit ''error'' (eresp_Error r))))
       (case eresp_Invites r of None \<Rightarrow> Some JNull | Some is \<Rightarrow> map_option JArr (enc_Invites is))"

section \<open>Decoding what was encoded\<close>

lemma dec_string_enc [json_simps]: "validUTF8 v \<Longrightarrow> dec_string (enc_string v) cur = Some v"
  by (simp add: dec_string_def enc_string_def unquote_escape)

lemma dec_int_enc [json_simps]:
  "- (2 ^ 63) \<le> n \<Longrightarrow> n < 2 ^ 63 \<Longrightarrow> dec_int (enc_int n) cur = Some n"
  by (simp add: dec_int_def enc_int_def parseInt64_showInt)

lemma dec_time_enc [json_simps]: "enc_time t = Some j \<Longrightarrow> dec_time j cur = Some t"
  by (auto simp: dec_time_def enc_time_def parseTime_formatTime)

lemma map_put_last: "\<forall>e \<in> set m. fst e < k \<Longrightarrow> map_put m k v = m @ [(k, v)]"
  by (induction m) auto

lemma dec_entries_enc:
  assumes "wf_map (acc @ m)" "\<forall>(k, v) \<in> set m. validUTF8 k \<and> validUTF8 v"
  shows "dec_entries (map (\<lambda>(k, v). (escape k, enc_string v)) m) acc = Some (acc @ m)"
  using assms
proof (induction m arbitrary: acc)
  case Nil
  then show ?case by simp
next
  case (Cons e m)
  obtain k v where e: "e = (k, v)" by (cases e)
  from Cons.prems have "\<forall>x \<in> set acc. fst x < k"
    by (auto simp: wf_map_def sorted_wrt_append e)
  then have "map_put acc k v = acc @ [(k, v)]" by (rule map_put_last)
  with Cons e show ?case by (simp add: json_simps unquote_escape)
qed

lemma dec_map_enc [json_simps]:
  "wf_map m \<Longrightarrow> \<forall>(k, v) \<in> set m. validUTF8 k \<and> validUTF8 v \<Longrightarrow> dec_map (enc_map m) [] = Some m"
  using dec_entries_enc [of "[]" m] by (simp add: dec_map_def enc_map_def)

lemma dec_members_append [json_simps]:
  "dec_members fs (ms @ ns) s
     = (case dec_members fs ms s of None \<Rightarrow> None | Some s' \<Rightarrow> dec_members fs ns s')"
  by (induction fs ms s rule: dec_members.induct) (auto split: option.splits)

definition plainKey :: "'s fields \<Rightarrow> string \<Rightarrow> (json \<Rightarrow> 's \<Rightarrow> 's option) \<Rightarrow> bool" where
  "plainKey fs k f \<longleftrightarrow> list_all plainChar k \<and> field_for fs k = Some f"

lemma dec_member:
  "plainKey fs k f \<Longrightarrow>
   dec_members fs ((k, j) # ms) s = (case f j s of None \<Rightarrow> None | Some s' \<Rightarrow> dec_members fs ms s')"
  by (simp add: plainKey_def unquote_plain dec_members.simps(2))

declare dec_members.simps(2) [simp del]

lemma dec_str_field:
  "plainKey fs k (fld dec_string g u) \<Longrightarrow> validUTF8 v \<Longrightarrow>
   dec_members fs (str_field k v) s = Some (u (\<lambda>_. v) s)"
  by (simp add: str_field_def dec_member [where f = "fld dec_string g u"] fld_def dec_string_enc)

lemma dec_str_omit:
  "plainKey fs k (fld dec_string g u) \<Longrightarrow> validUTF8 v \<Longrightarrow> u (\<lambda>_. []) s = s \<Longrightarrow>
   dec_members fs (str_omit k v) s = Some (u (\<lambda>_. v) s)"
  by (simp add: str_omit_def dec_member [where f = "fld dec_string g u"] fld_def dec_string_enc)

lemma dec_int_omit:
  "plainKey fs k (fld dec_int g u) \<Longrightarrow> - (2 ^ 63) \<le> n \<Longrightarrow> n < 2 ^ 63 \<Longrightarrow> u (\<lambda>_. 0) s = s \<Longrightarrow>
   dec_members fs (int_omit k n) s = Some (u (\<lambda>_. n) s)"
  by (simp add: int_omit_def dec_member [where f = "fld dec_int g u"] fld_def dec_int_enc)

lemma dec_map_omit:
  "plainKey fs k (fld dec_map g u) \<Longrightarrow> wf_map m \<Longrightarrow> \<forall>(k, v) \<in> set m. validUTF8 k \<and> validUTF8 v \<Longrightarrow>
   g s = [] \<Longrightarrow> u (\<lambda>_. []) s = s \<Longrightarrow> dec_members fs (map_omit k m) s = Some (u (\<lambda>_. m) s)"
  by (simp add: map_omit_def dec_member [where f = "fld dec_map g u"] fld_def dec_map_enc)

section \<open>Round trip of invite records\<close>

text \<open>
  The records that survive: strings in UTF-8 (every string that came from a JSON request is),
  an expiration in the range of int64, claims with distinct keys, and times that can be printed.
\<close>

definition validStrings :: "string list \<Rightarrow> bool" where
  "validStrings ss \<longleftrightarrow> list_all validUTF8 ss"

definition validClaims :: "gomap \<Rightarrow> bool" where
  "validClaims m \<longleftrightarrow> wf_map m \<and> list_all (\<lambda>(k, v). validUTF8 k \<and> validUTF8 v) m"

definition validTime :: "time \<Rightarrow> bool" where
  "validTime t \<longleftrightarrow> formatTime t \<noteq> None"

definition validRecipient :: "Recipient \<Rightarrow> bool" where
  "validRecipient p \<longleftrightarrow> validStrings [rcp_Name p, rcp_Email p, rcp_Username p, rcp_Avatar p]"

definition validInviter :: "Inviter \<Rightarrow> bool" where
  "validInviter p \<longleftrightarrow> validStrings [inv_Name p, inv_Username p, inv_Email p, inv_Avatar p]"

definition validResource :: "InviteResource \<Rightarrow> bool" where
  "validResource p \<longleftrightarrow> validStrings [res_UID p, res_Name p, res_Type p, res_ParentName p]"

definition validRecord :: "InviteRecord \<Rightarrow> bool" where
  "validRecord r \<longleftrightarrow>
     validStrings [rec_UID r, rec_Status r, rec_Role r, rec_OrgName r, rec_ReturnURL r, rec_AcceptedBy r]
     \<and> validRecipient (rec_Recipient r) \<and> validInviter (rec_Inviter r) \<and> validResource (rec_Resource r)
     \<and> - (2 ^ 63) \<le> rec_ExpirationDays r \<and> rec_ExpirationDays r < 2 ^ 63
     \<and> validClaims (rec_CustomClaims r) \<and> validTime (rec_CreatedAt r) \<and> validTime (rec_ExpiresAt r)
     \<and> (case rec_AcceptedAt r of None \<Rightarrow> True | Some t \<Rightarrow> validTime t)"

lemmas valid_defs = validStrings_def validRecipient_def validInviter_def validResource_def

lemma recipient_keys:
  "plainKey recipient_fields ''name'' (fld dec_string rcp_Name rcp_Name_update)"
  "plainKey recipient_fields ''email'' (fld dec_string rcp_Email rcp_Email_update)"
  "plainKey recipient_fields ''username'' (fld dec_string rcp_Username rcp_Username_update)"
  "plainKey recipient_fields ''avatar'' (fld dec_string rcp_Avatar rcp_Avatar_update)"
  by (simp_all add: plainKey_def recipient_fields_def field_for_def plainChar_def byte_def quoteC_def slashC_def)

lemma inviter_keys:
  "plainKey inviter_fields ''name'' (fld dec_string inv_Name inv_Name_update)"
  "plainKey inviter_fields ''email'' (fld dec_string inv_Email inv_Email_update)"
  "plainKey inviter_fields ''username'' (fld dec_string inv_Username inv_Username_update)"
  "plainKey inviter_fields ''avatar'' (fld dec_string inv_Avatar inv_Avatar_update)"
  by (simp_all add: plainKey_def inviter_fields_def field_for_def plainChar_def byte_def quoteC_def slashC_def)

lemma resource_keys:
  "plainKey resource_fields ''uid'' (fld dec_string res_UID res_UID_update)"
  "plainKey resource_fields ''name'' (fld dec_string res_Name res_Name_update)"
  "plainKey resource_fields ''type'' (fld dec_string res_Type res_Type_update)"
  "plainKey resource_fields ''parent_name'' (fld dec_string res_ParentName res_ParentName_update)"
  by (simp_all add: plainKey_def resource_fields_def field_for_def plainChar_def byte_def quoteC_def slashC_def)

lemma record_keys:
  "plainKey record_fields ''uid'' (fld dec_string rec_UID rec_UID_update)"
  "plainKey record_fields ''status'' (fld dec_string rec_Status rec_Status_update)"
  "plainKey record_fields ''recipient'' (fld (dec_struct recipient_fields) rec_Recipient rec_Recipient_update)"
  "plainKey record_fields ''inviter'' (fld (dec_struct inviter_fields) rec_Inviter rec_Inviter_update)"
  "plainKey record_fields ''resource'' (fld (dec_struct resource_fields) rec_Resource rec_Resource_update)"
  "plainKey record_fields ''role'' (fld dec_string rec_Role rec_Role_update)"
  "plainKey record_fields ''org_name'' (fld dec_string rec_OrgName rec_OrgName_update)"
  "plainKey record_fields ''return_url'' (fld dec_string rec_ReturnURL rec_ReturnURL_update)"
  "plainKey record_fields ''expiration_days'' (fld dec_int rec_ExpirationDays rec_ExpirationDays_update)"
  "plainKey record_fields ''custom_claims'' (fld dec_map rec_CustomClaims rec_CustomClaims_update)"
  "plainKey record_fields ''created_at'' (fld dec_time rec_CreatedAt rec_CreatedAt_update)"
  "plainKey record_fields ''expires_at'' (fld dec_time rec_ExpiresAt rec_ExpiresAt_update)"
  "plainKey record_fields ''accepted_at'' (fld (dec_ptr dec_time zeroTime) rec_AcceptedAt rec_AcceptedAt_update)"
  "plainKey record_fields ''accepted_by'' (fld dec_string rec_AcceptedBy rec_AcceptedBy_update)"
  by (simp_all add: plainKey_def record_fields_def field_for_def plainChar_def byte_def quoteC_def slashC_def)

lemmas [json_simps] =
  recipient_keys [THEN dec_str_omit] inviter_keys [THEN dec_str_omit] resource_keys [THEN dec_str_omit]
  record_keys(1,2,6) [THEN dec_str_field] record_keys(7,8,14) [THEN dec_str_omit]
  record_keys(9) [THEN dec_int_omit] record_keys(10) [THEN dec_map_omit]
  record_keys(3,4,5,11,12,13) [THEN dec_member]

lemma dec_enc_Recipient [json_simps]:
  "validRecipient p \<Longrightarrow> dec_struct recipient_fields (enc_Recipient p) zeroRecipient = Some p"
  by (simp add: valid_defs dec_struct_def enc_Recipient_def json_simps zeroRecipient_def)

lemma dec_enc_Inviter [json_simps]:
  "validInviter p \<Longrightarrow> dec_struct inviter_fields (enc_Inviter p) zeroInviter = Some p"
  by (simp add: valid_defs dec_struct_def enc_Inviter_def json_simps zeroInviter_def)

lemma dec_enc_Resource [json_simps]:
  "validResource p \<Longrightarrow> dec_struct resource_fields (enc_Resource p) zeroResource = Some p"
  by (simp add: valid_defs dec_struct_def enc_Resource_def json_simps zeroResource_def)

lemma validTime_enc: "validTime t \<Longrightarrow> \<exists>j. enc_time t = Some j"
  by (auto simp: validTime_def enc_time_def)

lemma dec_struct_JObj: "dec_struct fs (JObj ms) s = dec_members fs ms s"
  by (simp add: dec_struct_def)

theorem dec_enc_InviteRecord:
  assumes "validRecord r" "enc_InviteRecord r = Some j"
  shows "dec_struct record_fields j zeroInviteRecord = Some r"
proof -
  obtain c e where ce: "enc_time (rec_CreatedAt r) = Some c" "enc_time (rec_ExpiresAt r) = Some e"
    using assms(1) validTime_enc unfolding validRecord_def by metis
  note d = ce [THEN dec_time_enc]
  have v: "validStrings [rec_UID r, rec_Status r, rec_Role r, rec_OrgName r, rec_ReturnURL r, rec_AcceptedBy r]"
    "validRecipient (rec_Recipient r)" "validInviter (rec_Inviter r)" "validResource (rec_Resource r)"
    "- (2 ^ 63) \<le> rec_ExpirationDays r" "rec_ExpirationDays r < 2 ^ 63" "wf_map (rec_CustomClaims r)"
    "\<forall>(k, v) \<in> set (rec_CustomClaims r). validUTF8 k \<and> validUTF8 v"
    using assms(1) by (auto simp: validRecord_def validClaims_def list_all_iff)
  show ?thesis
  proof (cases "rec_AcceptedAt r")
    case None
    with assms(2) ce v d show ?thesis
      by (auto simp: enc_InviteRecord_def dec_struct_JObj json_simps fld_def zeroInviteRecord_def validStrings_def)
  next
    case (Some a)
    then obtain ja where ja: "enc_time a = Some ja"
      using assms(1) validTime_enc by (auto simp: validRecord_def)
    then have p: "dec_ptr dec_time zeroTime ja None = Some (Some a)"
      using dec_time_enc [OF ja, of zeroTime] by (auto simp: dec_ptr_def enc_time_def)
    from Some assms(2) ce v d ja p show ?thesis
      by (auto simp: enc_InviteRecord_def dec_struct_JObj json_simps fld_def zeroInviteRecord_def validStrings_def)
  qed
qed

lemma wfj_simps [json_simps]:
  "wfj d (enc_string s)" "wfj d (enc_int n)"
  "enc_time t = Some j \<Longrightarrow> wfj d j" "0 < d \<Longrightarrow> wfj d (enc_map m)"
proof -
  show "enc_time t = Some j \<Longrightarrow> wfj d j"
    by (metis enc_time_def formatTime_plain map_option_eq_Some strOK_plain wfj.simps(4))
qed (auto simp: enc_string_def enc_int_def enc_map_def)

text \<open>Names of fields are literals the scanner reads back.\<close>

definition wfms :: "nat \<Rightarrow> (string \<times> json) list \<Rightarrow> bool" where
  "wfms d ms \<longleftrightarrow> (\<forall>(k, v) \<in> set ms. strOK k \<and> wfj d v)"

lemma wfms_simps [json_simps]:
  "wfms d []" "wfms d (ms @ ns) \<longleftrightarrow> wfms d ms \<and> wfms d ns"
  "wfms d ((k, v) # ms) \<longleftrightarrow> strOK k \<and> wfj d v \<and> wfms d ms"
  "strOK k \<Longrightarrow> wfms d (str_field k s)" "strOK k \<Longrightarrow> wfms d (str_omit k s)"
  "strOK k \<Longrightarrow> wfms d (int_omit k n)" "strOK k \<Longrightarrow> 0 < d \<Longrightarrow> wfms d (map_omit k m)"
  by (auto simp: wfms_def str_field_def str_omit_def int_omit_def map_omit_def json_simps)

lemma wfj_JObj [json_simps]: "wfj d (JObj ms) \<longleftrightarrow> 0 < d \<and> wfms (d - 1) ms"
  by (simp add: wfms_def)

lemma strOK_names [json_simps]:
  "strOK ''uid''" "strOK ''status''" "strOK ''recipient''" "strOK ''inviter''" "strOK ''resource''"
  "strOK ''role''" "strOK ''org_name''" "strOK ''return_url''" "strOK ''expiration_days''"
  "strOK ''custom_claims''" "strOK ''created_at''" "strOK ''expires_at''" "strOK ''accepted_at''"
  "strOK ''accepted_by''" "strOK ''name''" "strOK ''email''" "strOK ''username''" "strOK ''avatar''"
  "strOK ''type''" "strOK ''parent_name''" "strOK ''error''" "strOK ''invites''"
  by (rule strOK_plain, simp add: plainChar_def byte_def quoteC_def slashC_def)+

lemma wfms_time_members:
  "time_members ts = Some ms \<Longrightarrow> (\<forall>k \<in> fst ` set ts. strOK k) \<Longrightarrow> wfms d ms"
  by (induction ts arbitrary: ms rule: time_members.induct)
     (auto simp: json_simps split: option.splits)

lemma wfj_InviteRecord:
  assumes "enc_InviteRecord r = Some j"
  shows "wfj maxDepth j"
proof -
  have "wfj 9999 (enc_Recipient p)" "wfj 9999 (enc_Inviter q)" "wfj 9999 (enc_Resource s)" for p q s
    by (simp_all add: enc_Recipient_def enc_Inviter_def enc_Resource_def json_simps del: wfj.simps)
  moreover obtain ts where
    "time_members ([(''created_at'', rec_CreatedAt r), (''expires_at'', rec_ExpiresAt r)]
       @ (case rec_AcceptedAt r of None \<Rightarrow> [] | Some t \<Rightarrow> [(''accepted_at'', t)])) = Some ts"
    using assms by (auto simp: enc_InviteRecord_def split: option.splits)
  moreover from this have "wfms 9999 ts"
    by (rule wfms_time_members) (auto simp: json_simps split: option.splits)
  ultimately show ?thesis
    using assms by (auto simp: enc_InviteRecord_def maxDepth_def json_simps simp del: wfj.simps)
qed

theorem unmarshal_marshal_InviteRecord:
  assumes "validRecord r" "marshalInviteRecord r = Some s"
  shows "unmarshalInviteRecord s = Some r"
proof -
  obtain j where j: "enc_InviteRecord r = Some j" "s = jprint j"
    using assms(2) by (auto simp: marshalInviteRecord_def)
  then have "json_parse s = Some j"
    using wfj_InviteRecord json_parse_jprint by blast
  with j show ?thesis
    using dec_enc_InviteRecord [OF assms(1)] by (simp add: unmarshalInviteRecord_def unmarshal_def)
qed

lemma marshal_validRecord: "validRecord r \<Longrightarrow> \<exists>s. marshalInviteRecord r = Some s"
proof -
  assume v: "validRecord r"
  then obtain c e where "enc_time (rec_CreatedAt r) = Some c" "enc_time (rec_ExpiresAt r) = Some e"
    using validTime_enc unfolding validRecord_def by metis
  moreover have "\<exists>j. enc_time a = Some j" if "rec_AcceptedAt r = Some a" for a
    using v that validTime_enc by (simp add: validRecord_def)
  ultimately show ?thesis
    by (cases "rec_AcceptedAt r") (auto simp: marshalInviteRecord_def enc_InviteRecord_def)
qed

end
