(* ===== verification/Json_Decoded.thy ===== *)
theory Json_Decoded
  imports Record_Json
begin

text \<open>
  What a decoded record is known to satisfy, whatever text it was read from: its strings are
  UTF-8, its expiration fits in an int64, its claims have distinct keys. So a record that was
  read and can be written is read back unchanged.
\<close>

section \<open>Strings\<close>

lemma arith_div_mod: "(a::nat) div 64 mod 64 < 64" "a mod 64 < 64" "a div 4096 mod 64 < 64"
  by simp_all

lemma is_cont_chr: "n < 64 \<Longrightarrow> is_cont (chr (128 + n))"
  by (simp add: is_cont_def)

lemma shift_mod: "(r::nat) div (k * 64) = c \<Longrightarrow> r div k mod 64 = r div k - 64 * c"
  by (metis div_mult2_eq minus_mult_div_eq_mod)

lemma mid3:
  assumes "r div 4096 = c" "c * 4096 + l * 64 \<le> r" "r < c * 4096 + (h + 1) * (64::nat)"
  shows "l \<le> r div 64 mod 64 \<and> r div 64 mod 64 \<le> h"
proof -
  have "r div 64 mod 64 = r div 64 - 64 * c" using shift_mod [of r 64 c] assms(1) by simp
  moreover have "c * 64 + l \<le> r div 64" using assms(2) by linarith
  moreover have "r div 64 < c * 64 + h + 1"
    using assms(3) by (intro less_mult_imp_div_less) (simp add: algebra_simps)
  ultimately show ?thesis by linarith
qed

lemma mid4:
  assumes "r div 262144 = c" "c * 262144 + l * 4096 \<le> r" "r < c * 262144 + (h + 1) * (4096::nat)"
  shows "l \<le> r div 4096 mod 64 \<and> r div 4096 mod 64 \<le> h"
proof -
  have "r div 4096 mod 64 = r div 4096 - 64 * c" using shift_mod [of r 4096 c] assms(1) by simp
  moreover have "c * 64 + l \<le> r div 4096" using assms(2) by linarith
  moreover have "r div 4096 < c * 64 + h + 1"
    using assms(3) by (intro less_mult_imp_div_less) (simp add: algebra_simps)
  ultimately show ?thesis by linarith
qed

lemma mod64: "(n::nat) mod 64 \<le> 63"
  by (simp add: less_Suc_eq_le [symmetric])

lemma runeLen_encodeRune: "runeLen (encodeRune r @ t) = length (encodeRune r)"
proof -
  consider "r < 128" | "128 \<le> r" "r < 2048" | "55296 \<le> r \<and> r \<le> 57343 \<or> 1114111 < r"
    | "2048 \<le> r" "r < 65536" "\<not> (55296 \<le> r \<and> r \<le> 57343)" | "65536 \<le> r" "r \<le> 1114111"
    by linarith
  then show ?thesis
  proof cases
    case 1
    then show ?thesis by (simp add: encodeRune_def is_ascii_def)
  next
    case 2
    then have "r div 64 < 32" "2 \<le> r div 64" by linarith+
    with 2 show ?thesis by (simp add: encodeRune_def runeLen.simps(2) is_cont_chr)
  next
    case 3
    then show ?thesis by (auto simp: encodeRune_def runeLen.simps(2) is_cont_def)
  next
    case 4
    then have b: "r div 4096 < 16" by linarith
    have "32 \<le> r div 64 mod 64" if "r div 4096 = 0" using 4 that mid3 [of r 0 32 63] by simp
    moreover have "r div 64 mod 64 \<le> 31" if "r div 4096 = 13"
    proof -
      have "r < 55296" using 4 that by linarith
      with that show ?thesis using mid3 [of r 13 0 31] by simp
    qed
    ultimately show ?thesis
      using 4 b mod64 [of "r div 64"]
      by (simp add: encodeRune_def runeLen.simps(2) is_cont_chr)
  next
    case 5
    then have b: "r div 262144 < 5" by linarith
    have "16 \<le> r div 4096 mod 64" if "r div 262144 = 0" using 5 that mid4 [of r 0 16 63] by simp
    moreover have "r div 4096 mod 64 \<le> 15" if "r div 262144 = 4" using 5 that mid4 [of r 4 0 15] by simp
    ultimately show ?thesis
      using 5 b mod64 [of "r div 4096"]
      by (simp add: encodeRune_def runeLen.simps(2) is_cont_chr)
  qed
qed

lemma validUTF8_rune:
  assumes "runeLen (p @ t) = length p" "p \<noteq> []"
  shows "validUTF8 (p @ t) = validUTF8 t"
proof -
  obtain c r where "p = c # r" using assms(2) by (cases p) auto
  with assms(1) show ?thesis by (simp add: validUTF8.simps(2))
qed

lemma validUTF8_encodeRune [simp]: "validUTF8 (encodeRune r @ t) = validUTF8 t"
  by (rule validUTF8_rune [OF runeLen_encodeRune]) (simp add: encodeRune_def)

lemma validUTF8_take:
  assumes "runeLen (c # s) \<noteq> 0"
  shows "validUTF8 (take (runeLen (c # s)) (c # s) @ t) = validUTF8 t"
proof (rule validUTF8_rune)
  show "runeLen (take (runeLen (c # s)) (c # s) @ t) = length (take (runeLen (c # s)) (c # s))"
    using runeLen_append [OF assms] runeLen_le [of "c # s"] by simp
qed (use assms in simp)

lemma simpleEsc_ascii: "simpleEsc e = Some d \<Longrightarrow> is_ascii d"
  by (auto simp: simpleEsc_def is_ascii_def byte_def quoteC_def slashC_def chr_def split: if_splits)

theorem unquote_valid: "validUTF8 (unquote s)"
proof (induction s rule: unquote.induct)
  case 1
  then show ?case by simp
next
  case (2 c s)
  show ?case
  proof (cases "c = slashC")
    case False
    then show ?thesis
      using 2 by (auto simp: unquote.simps(2) Let_def validUTF8_take)
  next
    case True
    then show ?thesis
      using 2 by (auto simp: unquote.simps(2) Let_def simpleEsc_ascii split: list.splits option.splits)
  qed
qed

section \<open>Values\<close>

lemma dec_string_valid: "dec_string j cur = Some v \<Longrightarrow> validUTF8 cur \<Longrightarrow> validUTF8 v"
  by (auto simp: dec_string_def unquote_valid split: json.splits)

lemma parseInt64_range: "parseInt64 s = Some n \<Longrightarrow> - (2 ^ 63) \<le> n \<and> n < 2 ^ 63"
  by (auto simp: parseInt64_def Let_def not_less not_le split: list.splits if_splits)

lemma dec_int_range:
  "dec_int j cur = Some n \<Longrightarrow> - (2 ^ 63) \<le> cur \<and> cur < 2 ^ 63 \<Longrightarrow> - (2 ^ 63) \<le> n \<and> n < 2 ^ 63"
  unfolding dec_int_def by (cases j) (auto dest: parseInt64_range)

lemma set_map_put: "x \<in> set (map_put m k v) \<Longrightarrow> x = (k, v) \<or> x \<in> set m"
  by (induction m) (auto split: if_splits)

lemma validClaims_put:
  "validClaims m \<Longrightarrow> validUTF8 k \<Longrightarrow> validUTF8 v \<Longrightarrow> validClaims (map_put m k v)"
  by (auto simp: validClaims_def list_all_iff dest: set_map_put)

lemma dec_entries_valid: "dec_entries ms m = Some m' \<Longrightarrow> validClaims m \<Longrightarrow> validClaims m'"
proof (induction ms m rule: dec_entries.induct)
  case (2 k j ms m)
  then show ?case
    by (auto split: option.splits dest!: dec_string_valid simp: unquote_valid validClaims_put)
qed simp

lemma dec_map_valid: "dec_map j cur = Some m \<Longrightarrow> validClaims cur \<Longrightarrow> validClaims m"
  unfolding dec_map_def
  by (cases j) (auto dest: dec_entries_valid simp: validClaims_def wf_map_def)

section \<open>Structs\<close>

text \<open>A field decoder that keeps an invariant of the struct.\<close>

definition keeps :: "('s \<Rightarrow> bool) \<Rightarrow> (json \<Rightarrow> 's \<Rightarrow> 's option) \<Rightarrow> bool" where
  "keeps P f \<longleftrightarrow> (\<forall>j s s'. P s \<longrightarrow> f j s = Some s' \<longrightarrow> P s')"

lemma keeps_fld:
  assumes "\<And>j v s. P s \<Longrightarrow> dec j (g s) = Some v \<Longrightarrow> P (u (\<lambda>_. v) s)"
  shows "keeps P (fld dec g u)"
  using assms by (auto simp: keeps_def fld_def)

lemma field_for_in: "field_for fs k = Some f \<Longrightarrow> f \<in> snd ` set fs"
  unfolding field_for_def
  by (auto split: option.splits dest!: map_of_SomeD) force+

lemma dec_members_keeps:
  "\<forall>f \<in> snd ` set fs. keeps P f \<Longrightarrow> P s \<Longrightarrow> dec_members fs ms s = Some s' \<Longrightarrow> P s'"
proof (induction fs ms s rule: dec_members.induct)
  case (2 fs k j ms s)
  then show ?case
    by (auto simp: dec_members.simps(2) split: option.splits dest!: field_for_in)
       (metis imageI keeps_def snd_conv)+
qed simp

lemma keeps_struct:
  "\<forall>f \<in> snd ` set fs. keeps P f \<Longrightarrow> keeps P (dec_struct fs)"
  unfolding keeps_def [of P "dec_struct fs"] dec_struct_def
  using dec_members_keeps [of fs P] by (auto split: json.splits)

lemma keeps_recipient: "keeps validRecipient (dec_struct recipient_fields)"
  by (rule keeps_struct) (auto simp: recipient_fields_def valid_defs intro!: keeps_fld dest: dec_string_valid)

lemma keeps_inviter: "keeps validInviter (dec_struct inviter_fields)"
  by (rule keeps_struct) (auto simp: inviter_fields_def valid_defs intro!: keeps_fld dest: dec_string_valid)

lemma keeps_resource: "keeps validResource (dec_struct resource_fields)"
  by (rule keeps_struct) (auto simp: resource_fields_def valid_defs intro!: keeps_fld dest: dec_string_valid)

text \<open>The part of \<open>validRecord\<close> that decoding gives; the rest is that the times can be written.\<close>

definition decodedRecord :: "InviteRecord \<Rightarrow> bool" where
  "decodedRecord r \<longleftrightarrow>
     validStrings [rec_UID r, rec_Status r, rec_Role r, rec_OrgName r, rec_ReturnURL r, rec_AcceptedBy r]
     \<and> validRecipient (rec_Recipient r) \<and> validInviter (rec_Inviter r) \<and> validResource (rec_Resource r)
     \<and> - (2 ^ 63) \<le> rec_ExpirationDays r \<and> rec_ExpirationDays r < 2 ^ 63 \<and> validClaims (rec_CustomClaims r)"

lemma keeps_record: "keeps decodedRecord (dec_struct record_fields)"
proof (rule keeps_struct)
  note keeps_rules = keeps_recipient [unfolded keeps_def, rule_format] keeps_inviter [unfolded keeps_def, rule_format]
    keeps_resource [unfolded keeps_def, rule_format] dec_string_valid dec_map_valid
  show "\<forall>f \<in> snd ` set record_fields. keeps decodedRecord f"
    by (auto simp: record_fields_def decodedRecord_def validStrings_def intro!: keeps_fld
        dest: keeps_rules dest!: dec_int_range)
qed

lemma decoded_zero: "decodedRecord zeroInviteRecord"
  by (simp add: decodedRecord_def zeroInviteRecord_def valid_defs zeroRecipient_def zeroInviter_def
      zeroResource_def validClaims_def wf_map_def)

theorem unmarshal_decoded: "unmarshalInviteRecord s = Some r \<Longrightarrow> decodedRecord r"
  using keeps_record decoded_zero
  unfolding keeps_def unmarshalInviteRecord_def unmarshal_def
  by (simp split: option.splits)

lemma enc_time_valid: "enc_time t = Some j \<Longrightarrow> validTime t"
  by (auto simp: enc_time_def validTime_def)

lemma marshal_times:
  "marshalInviteRecord r = Some s \<Longrightarrow>
   validTime (rec_CreatedAt r) \<and> validTime (rec_ExpiresAt r)
   \<and> (case rec_AcceptedAt r of None \<Rightarrow> True | Some t \<Rightarrow> validTime t)"
  by (auto simp: marshalInviteRecord_def enc_InviteRecord_def dest: enc_time_valid split: option.splits)

text \<open>A record of decoded parts that can be written is read back as it is.\<close>

theorem reread: "decodedRecord r \<Longrightarrow> marshalInviteRecord r = Some s \<Longrightarrow> unmarshalInviteRecord s = Some r"
  using marshal_times by (intro unmarshal_marshal_InviteRecord) (auto simp: validRecord_def decodedRecord_def)

end
