(* ===== verification/Effects.thy ===== *)
theory Effects
  imports Domain_Model "HOL-Library.Multiset"
begin

text \<open>
  What the code does to the world, as a value. A handler is a program: a tree of the calls it
  makes, each with a continuation for every answer. Calls are those whose answer the code under
  src/ does not determine: the clock, uuid.NewString, the context's error, the JetStream
  key-value bucket, NATS request, publish and reply, the audit log line, and the order in which
  Go ranges over a map.

  A program is read in two ways. \<open>exec p tr a\<close> says that p can perform the calls and receive the
  answers of tr, and then returns a: nothing is assumed of the answers, so what holds of every
  execution holds whatever NATS does. \<open>run e p s\<close> runs p against an environment, a record of
  response functions on some state, and is executable.
\<close>

named_theorems prog_simps \<open>executions and runs of programs\<close>

section \<open>Programs\<close>

datatype 'a prog =
    Return 'a
  | Now "time \<Rightarrow> 'a prog"
  | NewUUID "string \<Rightarrow> 'a prog"
  | CtxErr "liberr option \<Rightarrow> 'a prog"
  | RangeMap gomap "gomap \<Rightarrow> 'a prog"
  | KvGet string "liberr + (string \<times> nat) \<Rightarrow> 'a prog"
  | KvPut string string "liberr + nat \<Rightarrow> 'a prog"
  | KvUpdate string string nat "liberr + nat \<Rightarrow> 'a prog"
  | KvDelete string "liberr option \<Rightarrow> 'a prog"
  | KvListKeys "liberr + string list \<Rightarrow> 'a prog"
  | NatsRequest string string "liberr + string \<Rightarrow> 'a prog"
  | NatsPublish string string "liberr option \<Rightarrow> 'a prog"
  | MsgReply string "liberr option \<Rightarrow> 'a prog"
  | Audit NotificationAuditEntry "'a prog"

primrec bind :: "'a prog \<Rightarrow> ('a \<Rightarrow> 'b prog) \<Rightarrow> 'b prog" where
  "bind (Return a) g = g a"
| "bind (Now f) g = Now (\<lambda>x. bind (f x) g)"
| "bind (NewUUID f) g = NewUUID (\<lambda>x. bind (f x) g)"
| "bind (CtxErr f) g = CtxErr (\<lambda>x. bind (f x) g)"
| "bind (RangeMap m f) g = RangeMap m (\<lambda>x. bind (f x) g)"
| "bind (KvGet k f) g = KvGet k (\<lambda>x. bind (f x) g)"
| "bind (KvPut k v f) g = KvPut k v (\<lambda>x. bind (f x) g)"
| "bind (KvUpdate k v r f) g = KvUpdate k v r (\<lambda>x. bind (f x) g)"
| "bind (KvDelete k f) g = KvDelete k (\<lambda>x. bind (f x) g)"
| "bind (KvListKeys f) g = KvListKeys (\<lambda>x. bind (f x) g)"
| "bind (NatsRequest c d f) g = NatsRequest c d (\<lambda>x. bind (f x) g)"
| "bind (NatsPublish c d f) g = NatsPublish c d (\<lambda>x. bind (f x) g)"
| "bind (MsgReply d f) g = MsgReply d (\<lambda>x. bind (f x) g)"
| "bind (Audit e p) g = Audit e (bind p g)"

lemma bind_Return [simp]: "bind p Return = p"
  by (induction p) auto

lemma bind_assoc: "bind (bind p f) g = bind p (\<lambda>x. bind (f x) g)"
  by (induction p) auto

section \<open>Executions\<close>

datatype event =
    ENow time
  | EUUID string
  | ECtxErr "liberr option"
  | ERange gomap gomap
  | EGet string "liberr + (string \<times> nat)"
  | EPut string string "liberr + nat"
  | EUpdate string string nat "liberr + nat"
  | EDelete string "liberr option"
  | EListKeys "liberr + string list"
  | ERequest string string "liberr + string"
  | EPublish string string "liberr option"
  | EReply string "liberr option"
  | EAudit NotificationAuditEntry

inductive exec :: "'a prog \<Rightarrow> event list \<Rightarrow> 'a \<Rightarrow> bool" where
  exec_Return: "exec (Return a) [] a"
| exec_Now: "exec (f x) tr a \<Longrightarrow> exec (Now f) (ENow x # tr) a"
| exec_NewUUID: "exec (f x) tr a \<Longrightarrow> exec (NewUUID f) (EUUID x # tr) a"
| exec_CtxErr: "exec (f x) tr a \<Longrightarrow> exec (CtxErr f) (ECtxErr x # tr) a"
| exec_RangeMap: "mset x = mset m \<Longrightarrow> exec (f x) tr a \<Longrightarrow> exec (RangeMap m f) (ERange m x # tr) a"
| exec_KvGet: "exec (f x) tr a \<Longrightarrow> exec (KvGet k f) (EGet k x # tr) a"
| exec_KvPut: "exec (f x) tr a \<Longrightarrow> exec (KvPut k v f) (EPut k v x # tr) a"
| exec_KvUpdate: "exec (f x) tr a \<Longrightarrow> exec (KvUpdate k v r f) (EUpdate k v r x # tr) a"
| exec_KvDelete: "exec (f x) tr a \<Longrightarrow> exec (KvDelete k f) (EDelete k x # tr) a"
| exec_KvListKeys: "exec (f x) tr a \<Longrightarrow> exec (KvListKeys f) (EListKeys x # tr) a"
| exec_NatsRequest: "exec (f x) tr a \<Longrightarrow> exec (NatsRequest c d f) (ERequest c d x # tr) a"
| exec_NatsPublish: "exec (f x) tr a \<Longrightarrow> exec (NatsPublish c d f) (EPublish c d x # tr) a"
| exec_MsgReply: "exec (f x) tr a \<Longrightarrow> exec (MsgReply d f) (EReply d x # tr) a"
| exec_Audit: "exec p tr a \<Longrightarrow> exec (Audit e p) (EAudit e # tr) a"

inductive_simps exec_simps [prog_simps]:
  "exec (Return a) tr b"
  "exec (Now f) tr b"
  "exec (NewUUID f) tr b"
  "exec (CtxErr f) tr b"
  "exec (RangeMap m f) tr b"
  "exec (KvGet k f) tr b"
  "exec (KvPut k v f) tr b"
  "exec (KvUpdate k v r f) tr b"
  "exec (KvDelete k f) tr b"
  "exec (KvListKeys f) tr b"
  "exec (NatsRequest c d f) tr b"
  "exec (NatsPublish c d f) tr b"
  "exec (MsgReply d f) tr b"
  "exec (Audit e p) tr b"

text \<open>A choice between programs, resolved to the branch that was taken.\<close>

lemma exec_choice [prog_simps]:
  "exec (case_sum f g s) tr b \<longleftrightarrow> (\<exists>x. s = Inl x \<and> exec (f x) tr b) \<or> (\<exists>y. s = Inr y \<and> exec (g y) tr b)"
  "exec (case_option p h m) tr b \<longleftrightarrow> m = None \<and> exec p tr b \<or> (\<exists>x. m = Some x \<and> exec (h x) tr b)"
  "exec (case_prod k v) tr b \<longleftrightarrow> (\<exists>x y. v = (x, y) \<and> exec (k x y) tr b)"
  "exec (if c then p else q) tr b \<longleftrightarrow> c \<and> exec p tr b \<or> \<not> c \<and> exec q tr b"
  by (auto split: sum.splits option.splits prod.splits)

lemma exec_bindI:
  "exec p tr a \<Longrightarrow> exec (g a) tr' b \<Longrightarrow> exec (bind p g) (tr @ tr') b"
  by (induction rule: exec.induct) (auto intro: exec.intros)

text \<open>An execution of a sequence splits into executions of its two parts.\<close>

definition splits :: "'a prog \<Rightarrow> ('a \<Rightarrow> 'b prog) \<Rightarrow> event list \<Rightarrow> 'b \<Rightarrow> bool" where
  "splits p g tr b \<longleftrightarrow> (\<exists>tr1 a tr2. tr = tr1 @ tr2 \<and> exec p tr1 a \<and> exec (g a) tr2 b)"

lemma splits_step:
  assumes "splits p g tr b" "\<And>tr a. exec p tr a \<Longrightarrow> exec p' (e # tr) a"
  shows "splits p' g (e # tr) b"
proof -
  obtain tr1 a tr2 where "tr = tr1 @ tr2" "exec p tr1 a" "exec (g a) tr2 b"
    using assms(1) unfolding splits_def by blast
  then have "e # tr = (e # tr1) @ tr2" "exec p' (e # tr1) a" "exec (g a) tr2 b"
    using assms(2) by auto
  then show ?thesis unfolding splits_def by blast
qed

lemma exec_bind_splits: "exec (bind p g) tr b \<Longrightarrow> splits p g tr b"
proof (induction p arbitrary: tr)
  case (Return a)
  then have "tr = [] @ tr \<and> exec (Return a) [] a \<and> exec (g a) tr b"
    by (simp add: exec_Return)
  then show ?case unfolding splits_def by blast
qed (simp_all add: prog_simps, (blast intro: splits_step exec.intros)+)

lemma exec_bind:
  "exec (bind p g) tr b \<longleftrightarrow> (\<exists>tr1 a tr2. tr = tr1 @ tr2 \<and> exec p tr1 a \<and> exec (g a) tr2 b)"
  unfolding splits_def [symmetric]
proof
  assume "splits p g tr b"
  then show "exec (bind p g) tr b" unfolding splits_def using exec_bindI by metis
qed (rule exec_bind_splits)

lemma exec_bindE:
  assumes "exec (bind p g) tr b"
  obtains tr1 a tr2 where "tr = tr1 @ tr2" "exec p tr1 a" "exec (g a) tr2 b"
  using assms unfolding exec_bind by blast

text \<open>Every program returns: some execution exists, whatever the answers are.\<close>

lemma exec_exists: "\<exists>tr a. exec p tr a"
proof (induction p)
  case (Return a)
  then show ?case by (blast intro: exec_Return)
qed (simp_all add: prog_simps, blast+)

section \<open>Kinds of calls\<close>

text \<open>A write is a call that can change the bucket; an effect is a write or a message out.\<close>

fun isWrite :: "event \<Rightarrow> bool" where
  "isWrite (EPut k v r) = True"
| "isWrite (EUpdate k v n r) = True"
| "isWrite (EDelete k r) = True"
| "isWrite _ = False"

fun isSend :: "event \<Rightarrow> bool" where
  "isSend (ERequest c d r) = True"
| "isSend (EPublish c d r) = True"
| "isSend _ = False"

fun isReply :: "event \<Rightarrow> bool" where
  "isReply (EReply d r) = True"
| "isReply _ = False"

definition noEffect :: "event list \<Rightarrow> bool" where
  "noEffect tr \<longleftrightarrow> list_all (\<lambda>e. \<not> isWrite e \<and> \<not> isSend e) tr"

definition noWrite :: "event list \<Rightarrow> bool" where
  "noWrite tr \<longleftrightarrow> list_all (\<lambda>e. \<not> isWrite e) tr"

definition noSend :: "event list \<Rightarrow> bool" where
  "noSend tr \<longleftrightarrow> list_all (\<lambda>e. \<not> isSend e) tr"

definition noReply :: "event list \<Rightarrow> bool" where
  "noReply tr \<longleftrightarrow> list_all (\<lambda>e. \<not> isReply e) tr"

lemma noEffect_iff: "noEffect tr \<longleftrightarrow> noWrite tr \<and> noSend tr"
  by (auto simp: noEffect_def noWrite_def noSend_def list_all_iff)

lemma no_simps [simp]:
  "noWrite []" "noSend []" "noReply []"
  "noWrite (e # tr) \<longleftrightarrow> \<not> isWrite e \<and> noWrite tr"
  "noSend (e # tr) \<longleftrightarrow> \<not> isSend e \<and> noSend tr"
  "noReply (e # tr) \<longleftrightarrow> \<not> isReply e \<and> noReply tr"
  "noWrite (tr @ tr') \<longleftrightarrow> noWrite tr \<and> noWrite tr'"
  "noSend (tr @ tr') \<longleftrightarrow> noSend tr \<and> noSend tr'"
  "noReply (tr @ tr') \<longleftrightarrow> noReply tr \<and> noReply tr'"
  by (auto simp: noWrite_def noSend_def noReply_def)

section \<open>Environments\<close>

record 's env =
  env_now :: "'s \<Rightarrow> time \<times> 's"
  env_uuid :: "'s \<Rightarrow> string \<times> 's"
  env_ctxErr :: "'s \<Rightarrow> liberr option \<times> 's"
  env_range :: "gomap \<Rightarrow> 's \<Rightarrow> gomap \<times> 's"
  env_get :: "string \<Rightarrow> 's \<Rightarrow> (liberr + (string \<times> nat)) \<times> 's"
  env_put :: "string \<Rightarrow> string \<Rightarrow> 's \<Rightarrow> (liberr + nat) \<times> 's"
  env_update :: "string \<Rightarrow> string \<Rightarrow> nat \<Rightarrow> 's \<Rightarrow> (liberr + nat) \<times> 's"
  env_delete :: "string \<Rightarrow> 's \<Rightarrow> liberr option \<times> 's"
  env_keys :: "'s \<Rightarrow> (liberr + string list) \<times> 's"
  env_request :: "string \<Rightarrow> string \<Rightarrow> 's \<Rightarrow> (liberr + string) \<times> 's"
  env_publish :: "string \<Rightarrow> string \<Rightarrow> 's \<Rightarrow> liberr option \<times> 's"
  env_reply :: "string \<Rightarrow> 's \<Rightarrow> liberr option \<times> 's"
  env_audit :: "NotificationAuditEntry \<Rightarrow> 's \<Rightarrow> 's"

text \<open>Go ranges over a map in some order: an answer that is no reordering counts as the map itself.\<close>

definition asOrder :: "gomap \<Rightarrow> gomap \<Rightarrow> gomap" where
  "asOrder m x = (if mset x = mset m then x else m)"

lemma mset_asOrder [simp]: "mset (asOrder m x) = mset m"
  by (simp add: asOrder_def)

primrec run :: "'s env \<Rightarrow> 'a prog \<Rightarrow> 's \<Rightarrow> 'a \<times> 's" where
  "run e (Return a) s = (a, s)"
| "run e (Now f) s = (case env_now e s of (x, s') \<Rightarrow> run e (f x) s')"
| "run e (NewUUID f) s = (case env_uuid e s of (x, s') \<Rightarrow> run e (f x) s')"
| "run e (CtxErr f) s = (case env_ctxErr e s of (x, s') \<Rightarrow> run e (f x) s')"
| "run e (RangeMap m f) s = (case env_range e m s of (x, s') \<Rightarrow> run e (f (asOrder m x)) s')"
| "run e (KvGet k f) s = (case env_get e k s of (x, s') \<Rightarrow> run e (f x) s')"
| "run e (KvPut k v f) s = (case env_put e k v s of (x, s') \<Rightarrow> run e (f x) s')"
| "run e (KvUpdate k v r f) s = (case env_update e k v r s of (x, s') \<Rightarrow> run e (f x) s')"
| "run e (KvDelete k f) s = (case env_delete e k s of (x, s') \<Rightarrow> run e (f x) s')"
| "run e (KvListKeys f) s = (case env_keys e s of (x, s') \<Rightarrow> run e (f x) s')"
| "run e (NatsRequest c d f) s = (case env_request e c d s of (x, s') \<Rightarrow> run e (f x) s')"
| "run e (NatsPublish c d f) s = (case env_publish e c d s of (x, s') \<Rightarrow> run e (f x) s')"
| "run e (MsgReply d f) s = (case env_reply e d s of (x, s') \<Rightarrow> run e (f x) s')"
| "run e (Audit a p) s = run e p (env_audit e a s)"

lemma run_bind [prog_simps]:
  "run e (bind p g) s = (case run e p s of (a, s') \<Rightarrow> run e (g a) s')"
  by (induction p arbitrary: s) (auto split: prod.splits)

text \<open>What a run does is an execution.\<close>

lemma run_exec:
  "run e p s = (a, s') \<Longrightarrow> \<exists>tr. exec p tr a"
proof (induction p arbitrary: s)
  case (RangeMap m f)
  then obtain x s1 where "run e (f (asOrder m x)) s1 = (a, s')"
    by (auto split: prod.splits)
  with RangeMap.IH obtain tr where "exec (f (asOrder m x)) tr a" by blast
  then show ?case using exec_RangeMap [of "asOrder m x" m f tr a] by auto
qed (auto simp: prog_simps split: prod.splits, blast+)

end
