(* ===== verification/Ports.thy ===== *)
theory Ports
  imports Json_Decoded Effects
begin

text \<open>
  internal/domain/port: the interfaces between the services and the infrastructure, as records of
  programs, and what the services may rely on of the invite store, as a locale. The repository
  of internal/infrastructure/nats provides it (\<open>Invite_Repository\<close>).
\<close>

section \<open>Interfaces\<close>

record InviteStore =
  st_Create :: "InviteRecord \<Rightarrow> goerr option prog"
  st_GetByUID :: "string \<Rightarrow> (goerr + InviteRecord) prog"
  st_GetByEmail :: "string \<Rightarrow> (goerr + InviteRecord list) prog"
  st_MarkAccepted :: "string \<Rightarrow> string \<Rightarrow> time \<Rightarrow> goerr option prog"
  st_Delete :: "string \<Rightarrow> goerr option prog"

record InviteTokenClaims =
  tc_InviteUID :: string
  tc_Email :: string

record LinkPayload =
  lp_RecipientEmail :: string
  lp_DestinationURL :: string
  lp_ResourceUID :: string
  lp_ResourceType :: string
  lp_Role :: string
  lp_ExpirationDays :: int
  lp_CustomClaims :: gomap

text \<open>What \<open>Generate\<close> returns when it succeeds.\<close>

record GeneratedLink =
  gl_Link :: string
  gl_InviteUID :: string
  gl_ExpiresAt :: time
  gl_AcceptedClaims :: gomap

type_synonym EmailSender = "InviteEmailPayload \<Rightarrow> goerr option prog"
type_synonym EventPublisher = "string \<Rightarrow> string \<Rightarrow> goerr option prog"
type_synonym InviteTokenVerifier = "string \<Rightarrow> (goerr + InviteTokenClaims) prog"
type_synonym LinkGenerator = "LinkPayload \<Rightarrow> (goerr + GeneratedLink) prog"

section \<open>The invite store's contract\<close>

text \<open>
  Keys of the secondary index live in the same bucket as the records, under a prefix that no
  invite UID has.
\<close>

definition emailIndexPrefix :: string where
  "emailIndexPrefix = ''index/email/''"

definition isUid :: "string \<Rightarrow> bool" where
  "isUid uid \<longleftrightarrow> \<not> hasPrefix uid emailIndexPrefix"

definition acceptRecord :: "InviteRecord \<Rightarrow> string \<Rightarrow> time \<Rightarrow> InviteRecord" where
  "acceptRecord r username at =
     r\<lparr>rec_Status := InviteStatusAccepted, rec_AcceptedAt := Some at, rec_AcceptedBy := username\<rparr>"

text \<open>The one change \<open>MarkAccepted\<close> can make to the records.\<close>

definition accepts :: "(string \<Rightarrow> InviteRecord option) \<Rightarrow> string \<Rightarrow> string \<Rightarrow> time \<Rightarrow> (string \<Rightarrow> InviteRecord option) \<Rightarrow> bool" where
  "accepts R uid username at R' \<longleftrightarrow>
     (\<exists>r. R uid = Some r \<and> rec_Status r \<noteq> InviteStatusAccepted \<and> before at (rec_ExpiresAt r)
        \<and> R' = R(uid := Some (acceptRecord r username at)))"

text \<open>
  \<open>recs s\<close> are the records of a state by UID and \<open>indexed s email uid\<close> says that the index lists
  uid under email. An operation that reports failure may still have been applied.
\<close>

locale invite_store =
  fixes store :: InviteStore and env :: "'s env"
    and recs :: "'s \<Rightarrow> string \<Rightarrow> InviteRecord option" and indexed :: "'s \<Rightarrow> string \<Rightarrow> string \<Rightarrow> bool"
  assumes getByUID_frame: "run env (st_GetByUID store uid) s = (x, s') \<Longrightarrow> recs s' = recs s"
    and getByUID_ok: "run env (st_GetByUID store uid) s = (Inr r, s') \<Longrightarrow> recs s uid = Some r"
    and getByUID_notFound: "run env (st_GetByUID store uid) s = (Inl e, s') \<Longrightarrow>
          errors_Is e ErrInviteNotFound \<Longrightarrow> recs s uid = None"
    and getByEmail_frame: "run env (st_GetByEmail store email) s = (y, s') \<Longrightarrow> recs s' = recs s"
    and getByEmail_ok: "run env (st_GetByEmail store email) s = (Inr rs, s') \<Longrightarrow>
          set rs = {r. \<exists>uid. indexed s email uid \<and> recs s uid = Some r}"
    and markAccepted_ok: "validUTF8 username \<Longrightarrow> run env (st_MarkAccepted store uid username at) s = (None, s') \<Longrightarrow>
          accepts (recs s) uid username at (recs s')"
    and markAccepted_err: "validUTF8 username \<Longrightarrow> run env (st_MarkAccepted store uid username at) s = (Some e, s') \<Longrightarrow>
          recs s' = recs s \<or> noSentinel e \<and> accepts (recs s) uid username at (recs s')"
    and create_ok: "isUid (rec_UID r) \<Longrightarrow> decodedRecord r \<Longrightarrow> run env (st_Create store r) s = (None, s') \<Longrightarrow>
          isUid u \<Longrightarrow> recs s' u = ((recs s)(rec_UID r := Some r)) u"
    and create_indexed: "isUid (rec_UID r) \<Longrightarrow> run env (st_Create store r) s = (None, s') \<Longrightarrow>
          indexed s' (rcp_Email (rec_Recipient r)) (rec_UID r)"
    and create_err: "isUid u \<Longrightarrow> u \<noteq> rec_UID r \<Longrightarrow> run env (st_Create store r) s = (ce, s') \<Longrightarrow> recs s' u = recs s u"
    and delete_ok: "isUid uid \<Longrightarrow> run env (st_Delete store uid) s = (None, s') \<Longrightarrow>
          isUid u \<Longrightarrow> recs s' u = ((recs s)(uid := None)) u"
    and delete_err: "isUid u \<Longrightarrow> u \<noteq> uid \<Longrightarrow> run env (st_Delete store uid) s = (de, s') \<Longrightarrow> recs s' u = recs s u"

end
