(* ===== verification/Email_Templates.thy ===== *)
theory Email_Templates
  imports Domain_Model
begin

text \<open>
  internal/infrastructure/smtp: the data of the invite email, the sanitizing of single lines, the
  fallback texts, and the templates of the subject and the plain text, which are written out in a
  small language of literals, fields and conditionals.
\<close>

section \<open>Template data (templates.go)\<close>

record inviteEmailData =
  ted_RecipientFirstName :: string
  ted_InviterFirstName :: string
  ted_InviterFullName :: string
  ted_ResourceName :: string
  ted_ResourceType :: string
  ted_ParentResourceName :: string
  ted_Role :: string
  ted_ReturnURL :: string
  ted_OrgName :: string
  ted_HasInviter :: bool
  ted_HasParentResource :: bool
  ted_RecipientHasAccount :: bool

text \<open>\<open>strings.Index(fullName, " ") > 0\<close>: a leading space is no separator.\<close>

definition firstName :: "string \<Rightarrow> string" where
  "firstName fullName =
     (case indexByte fullName (CHR '' '') of
        None \<Rightarrow> fullName
      | Some idx \<Rightarrow> if idx > 0 then take idx fullName else fullName)"

definition buildTemplateData :: "InviteEmailPayload \<Rightarrow> inviteEmailData" where
  "buildTemplateData payload =
     \<lparr>ted_RecipientFirstName = firstName (pay_RecipientName payload),
      ted_InviterFirstName = firstName (pay_InviterName payload),
      ted_InviterFullName = pay_InviterName payload,
      ted_ResourceName = pay_ResourceName payload,
      ted_ResourceType = pay_ResourceType payload,
      ted_ParentResourceName = pay_ParentResourceName payload,
      ted_Role = pay_Role payload,
      ted_ReturnURL = pay_InviteLink payload,
      ted_OrgName = (if pay_OrgName payload = [] then ''LFX'' else pay_OrgName payload),
      ted_HasInviter = (pay_InviterName payload \<noteq> []),
      ted_HasParentResource = (pay_ParentResourceName payload \<noteq> []),
      ted_RecipientHasAccount = pay_RecipientHasAccount payload\<rparr>"

section \<open>Sanitizing\<close>

text \<open>\<open>strings.NewReplacer("\r", " ", "\n", " ", "\x00", "")\<close>\<close>

definition replaceControls :: "string \<Rightarrow> string" where
  "replaceControls s =
     concat (map (\<lambda>c. if byte c = 13 \<or> byte c = 10 then '' '' else if byte c = 0 then [] else [c]) s)"

definition sanitizeSingleLine :: "string \<Rightarrow> string" where
  "sanitizeSingleLine s = (let s' = replaceControls s in if length s' > 256 then take 256 s' else s')"

definition sanitizedResourceSuffix :: "string \<Rightarrow> string" where
  "sanitizedResourceSuffix resourceType =
     (if resourceType = [] then [] else '' '' @ sanitizeSingleLine resourceType)"

text \<open>\<open>template.HTMLEscapeString\<close>\<close>

definition htmlEscapeByte :: "char \<Rightarrow> string" where
  "htmlEscapeByte c =
     (if byte c = 34 then ''&#34;'' else if byte c = 39 then ''&#39;'' else if byte c = 38 then ''&amp;''
      else if byte c = 60 then ''&lt;'' else if byte c = 62 then ''&gt;''
      else if byte c = 0 then encodeRune 65533 else [c])"

definition htmlEscape :: "string \<Rightarrow> string" where
  "htmlEscape s = concat (map htmlEscapeByte s)"

section \<open>Fallbacks\<close>

definition fallbackInviteSubject :: "inviteEmailData \<Rightarrow> string" where
  "fallbackInviteSubject data =
     (let suff = sanitizedResourceSuffix (ted_ResourceType data); name = sanitizeSingleLine (ted_ResourceName data) in
      if ted_HasInviter data
      then sanitizeSingleLine (sanitizeSingleLine (ted_InviterFirstName data) @ '' invited you to join '' @ name @ suff)
      else sanitizeSingleLine (''You've been invited to join '' @ name @ suff))"

definition fallbackInviteHTML :: "inviteEmailData \<Rightarrow> string" where
  "fallbackInviteHTML data =
     (let suff = (if ted_ResourceType data \<noteq> [] then '' '' @ htmlEscape (ted_ResourceType data) else [])
      in ''<p>You have been invited to join '' @ htmlEscape (ted_ResourceName data) @ suff @ ''.</p>'')"

definition NL :: string where "NL = [chr 10]"

definition fallbackInvitePlain :: "inviteEmailData \<Rightarrow> string" where
  "fallbackInvitePlain data =
     ''You have been invited to join '' @ sanitizeSingleLine (ted_ResourceName data)
     @ sanitizedResourceSuffix (ted_ResourceType data) @ ''.'' @ NL @ NL @ sanitizeSingleLine (ted_ReturnURL data)"

section \<open>The templates\<close>

datatype node =
    TText string
  | TField "inviteEmailData \<Rightarrow> string"
  | TIf "inviteEmailData \<Rightarrow> bool" "node list" "node list"

fun execNode :: "inviteEmailData \<Rightarrow> node \<Rightarrow> string" where
  "execNode d (TText t) = t"
| "execNode d (TField f) = f d"
| "execNode d (TIf b ts es) = (if b d then concat (map (execNode d) ts) else concat (map (execNode d) es))"

definition execTemplate :: "node list \<Rightarrow> inviteEmailData \<Rightarrow> string" where
  "execTemplate ns d = concat (map (execNode d) ns)"

text \<open>\<open>{{.ResourceName}}{{if .ResourceType}} {{.ResourceType}}{{end}}\<close> and the clause of the parent.\<close>

definition resourceNodes :: "node list" where
  "resourceNodes =
     [TField ted_ResourceName,
      TIf (\<lambda>d. ted_ResourceType d \<noteq> []) [TText '' '', TField ted_ResourceType] []]"

definition parentNodes :: "node list" where
  "parentNodes =
     [TIf ted_HasParentResource [TText '' (part of '', TField ted_ParentResourceName, TText '')''] []]"

definition subjectTmpl :: "node list" where
  "subjectTmpl =
     [TIf ted_HasInviter
        ([TField ted_InviterFirstName, TText '' invited you to join ''] @ resourceNodes)
        ([TText ''You've been invited to join ''] @ resourceNodes),
      TText NL]"

definition plainTmpl :: "node list" where
  "plainTmpl =
     [TText ''Hi'', TIf (\<lambda>d. ted_RecipientFirstName d \<noteq> []) [TText '' '', TField ted_RecipientFirstName] [],
      TText ('','' @ NL @ NL),
      TIf ted_HasInviter
        ([TField ted_InviterFullName, TText '' invited you to join the ''] @ resourceNodes @ parentNodes
         @ [TText '' on LFX with the '', TField ted_Role, TText '' role.''])
        ([TText ''You have been invited to join the ''] @ resourceNodes @ parentNodes
         @ [TText '' on LFX with the '', TField ted_Role, TText '' role.'']),
      TText (NL @ NL),
      TIf (\<lambda>d. \<not> ted_RecipientHasAccount d)
        ([TText (''You'll need an LFX account to get started.'' @ NL @ NL
                 @ ''Getting started takes about a minute:'' @ NL
                 @ ''  1. Click the link below to accept the invitation'' @ NL
                 @ ''  2. Create your LFX account (or sign in if you have a Linux Foundation ID)'' @ NL
                 @ ''  3. You'll be taken straight to the '')] @ resourceNodes @ parentNodes
         @ [TText ('' dashboard'' @ NL @ NL @ ''Accept invitation & create account:'' @ NL)])
        [TText (''Accept invitation:'' @ NL)],
      TField ted_ReturnURL,
      TText (NL @ NL @ ''Thanks,'' @ NL),
      TField ted_OrgName,
      TText ('' Team'' @ NL @ NL @ ''If you did not expect this email, you can safely ignore it.'' @ NL)]"

section \<open>Properties of single lines\<close>

definition isControl :: "char \<Rightarrow> bool" where
  "isControl c \<longleftrightarrow> byte c = 13 \<or> byte c = 10 \<or> byte c = 0"

lemma replaceControls_clean: "\<forall>c \<in> set (replaceControls s). \<not> isControl c"
proof -
  have "byte (CHR '' '') = 32" by (simp add: byte_def)
  then show ?thesis by (auto simp: replaceControls_def isControl_def split: if_splits)
qed

lemma replaceControls_id: "\<forall>c \<in> set s. \<not> isControl c \<Longrightarrow> replaceControls s = s"
  by (induction s) (auto simp: replaceControls_def isControl_def)

lemma sanitize_clean: "\<forall>c \<in> set (sanitizeSingleLine s). \<not> isControl c"
  using replaceControls_clean by (auto simp: sanitizeSingleLine_def Let_def dest: in_set_takeD)

lemma sanitize_length: "length (sanitizeSingleLine s) \<le> 256"
  by (simp add: sanitizeSingleLine_def Let_def)

lemma sanitize_id: "\<forall>c \<in> set s. \<not> isControl c \<Longrightarrow> length s \<le> 256 \<Longrightarrow> sanitizeSingleLine s = s"
  by (simp add: sanitizeSingleLine_def replaceControls_id)

text \<open>Bytes that can leave the text of an element or a quoted attribute.\<close>

definition isMarkup :: "char \<Rightarrow> bool" where
  "isMarkup c \<longleftrightarrow> byte c = 60 \<or> byte c = 62 \<or> byte c = 34 \<or> byte c = 39"

lemma htmlEscape_inert: "\<forall>c \<in> set (htmlEscape s). \<not> isMarkup c"
proof -
  have "\<forall>c \<in> set ''&#34;''. \<not> isMarkup c" "\<forall>c \<in> set ''&#39;''. \<not> isMarkup c" "\<forall>c \<in> set ''&amp;''. \<not> isMarkup c"
    "\<forall>c \<in> set ''&lt;''. \<not> isMarkup c" "\<forall>c \<in> set ''&gt;''. \<not> isMarkup c" "\<forall>c \<in> set (encodeRune 65533). \<not> isMarkup c"
    by (simp_all add: isMarkup_def byte_def encodeRune_def chr_def)
  then have "\<forall>c \<in> set (htmlEscapeByte x). \<not> isMarkup c" for x
    unfolding htmlEscapeByte_def by (simp only: split: if_split) (simp add: isMarkup_def)
  then show ?thesis by (auto simp: htmlEscape_def)
qed

end
