(* ===== verification/Html_Escape.thy ===== *)
theory Html_Escape
  imports Email_Templates
begin

text \<open>
  The escapers that Go's html/template puts behind a field: one for the text of an element (and of a
  title), and a chain of three for an href in double quotes, which refuses schemes other than http,
  https and mailto, percent-encodes what a URL may not contain, and escapes the result for the
  attribute.
\<close>

section \<open>Text and attribute values\<close>

text \<open>\<open>htmlReplacementTable\<close>; bytes of other runes are left alone.\<close>

definition htmlTextByte :: "char \<Rightarrow> string" where
  "htmlTextByte c =
     (if byte c = 0 then encodeRune 65533 else if byte c = 34 then ''&#34;'' else if byte c = 38 then ''&amp;''
      else if byte c = 39 then ''&#39;'' else if byte c = 43 then ''&#43;'' else if byte c = 60 then ''&lt;''
      else if byte c = 62 then ''&gt;'' else [c])"

definition htmlText :: "string \<Rightarrow> string" where
  "htmlText s = concat (map htmlTextByte s)"

section \<open>URLs\<close>

text \<open>
  \<open>strings.EqualFold\<close> against a lower case ASCII text: besides the two cases of a letter, the long
  s (U+017F) folds to s.
\<close>

definition lowerByte :: "char \<Rightarrow> char" where
  "lowerByte c = (if 65 \<le> byte c \<and> byte c \<le> 90 then chr (byte c + 32) else c)"

fun foldsTo :: "string \<Rightarrow> string \<Rightarrow> bool" where
  "foldsTo [] ts = (ts = [])"
| "foldsTo (c # s) [] = False"
| "foldsTo (c # s) (t # ts) =
     (if lowerByte c = t then foldsTo s ts
      else (case s of
              d # s' \<Rightarrow> byte c = 197 \<and> byte d = 191 \<and> t = CHR ''s'' \<and> foldsTo s' ts
            | [] \<Rightarrow> False))"

definition isSafeURL :: "string \<Rightarrow> bool" where
  "isSafeURL s =
     (case indexByte s (CHR '':'') of
        None \<Rightarrow> True
      | Some i \<Rightarrow>
          let protocol = take i s
          in CHR ''/'' \<in> set protocol \<or> foldsTo protocol ''http'' \<or> foldsTo protocol ''https''
             \<or> foldsTo protocol ''mailto'')"

definition urlFilter :: "string \<Rightarrow> string" where
  "urlFilter s = (if isSafeURL s then s else ''#ZgotmplZ'')"

definition isHexDigit :: "char \<Rightarrow> bool" where
  "isHexDigit c \<longleftrightarrow> is_digit c \<or> 97 \<le> byte c \<and> byte c \<le> 102 \<or> 65 \<le> byte c \<and> byte c \<le> 70"

text \<open>
  The bytes that \<open>processURLOnto\<close> leaves alone when it normalizes: letters, digits, the punctuation
  \<open>! # $ & * + , / : ; = ? @ [ ]\<close> and the unreserved \<open>- . _ ~\<close>.
\<close>

definition urlKeeps :: "char \<Rightarrow> bool" where
  "urlKeeps c \<longleftrightarrow> is_digit c \<or> 97 \<le> byte c \<and> byte c \<le> 122 \<or> 65 \<le> byte c \<and> byte c \<le> 90
     \<or> byte c \<in> {33, 35, 36, 38, 42, 43, 44, 47, 58, 59, 61, 63, 64, 91, 93, 45, 46, 95, 126}"

definition percentByte :: "char \<Rightarrow> string" where
  "percentByte c = [CHR ''%'', ''0123456789abcdef'' ! (byte c div 16), ''0123456789abcdef'' ! (byte c mod 16)]"

fun urlNormalize :: "string \<Rightarrow> string" where
  "urlNormalize [] = []"
| "urlNormalize (c # s) =
     (if urlKeeps c
         \<or> c = CHR ''%'' \<and> (case s of a # b # _ \<Rightarrow> isHexDigit a \<and> isHexDigit b | _ \<Rightarrow> False)
      then c # urlNormalize s else percentByte c @ urlNormalize s)"

definition hrefValue :: "string \<Rightarrow> string" where
  "hrefValue s = htmlText (urlNormalize (urlFilter s))"

section \<open>What the escapers promise\<close>

lemma htmlText_inert: "\<forall>c \<in> set (htmlText s). \<not> isMarkup c"
proof -
  have "\<forall>c \<in> set ''&#34;''. \<not> isMarkup c" "\<forall>c \<in> set ''&#39;''. \<not> isMarkup c" "\<forall>c \<in> set ''&amp;''. \<not> isMarkup c"
    "\<forall>c \<in> set ''&#43;''. \<not> isMarkup c" "\<forall>c \<in> set ''&lt;''. \<not> isMarkup c" "\<forall>c \<in> set ''&gt;''. \<not> isMarkup c"
    "\<forall>c \<in> set (encodeRune 65533). \<not> isMarkup c"
    by (simp_all add: isMarkup_def byte_def encodeRune_def chr_def)
  then have "\<forall>c \<in> set (htmlTextByte x). \<not> isMarkup c" for x
    unfolding htmlTextByte_def by (simp only: split: if_split) (simp add: isMarkup_def)
  then show ?thesis by (auto simp: htmlText_def)
qed

lemma hrefValue_inert: "\<forall>c \<in> set (hrefValue s). \<not> isMarkup c"
  unfolding hrefValue_def by (rule htmlText_inert)

text \<open>The bytes of a URL that no escaper changes.\<close>

definition plainURLByte :: "char \<Rightarrow> bool" where
  "plainURLByte c \<longleftrightarrow> urlKeeps c \<and> byte c \<noteq> 38 \<and> byte c \<noteq> 43"

lemma htmlText_plain: "list_all plainURLByte s \<Longrightarrow> htmlText s = s"
proof (induction s)
  case (Cons c s)
  have "byte c \<notin> {0, 34, 38, 39, 43, 60, 62}"
    using Cons.prems by (auto simp: plainURLByte_def urlKeeps_def is_digit_def)
  then have "htmlTextByte c = [c]" by (simp add: htmlTextByte_def)
  with Cons show ?case by (simp add: htmlText_def)
qed (simp add: htmlText_def)

lemma urlNormalize_kept: "list_all urlKeeps s \<Longrightarrow> urlNormalize s = s"
  by (induction s rule: urlNormalize.induct) simp_all

lemma hrefValue_plain: "list_all plainURLByte s \<Longrightarrow> isSafeURL s \<Longrightarrow> hrefValue s = s"
  using htmlText_plain [of s] urlNormalize_kept [of s]
  by (simp add: hrefValue_def urlFilter_def plainURLByte_def list_all_iff)

lemma hrefValue_unsafe: "\<not> isSafeURL s \<Longrightarrow> hrefValue s = ''#ZgotmplZ''"
proof -
  have plain: "list_all plainURLByte ''#ZgotmplZ''"
    by (simp add: plainURLByte_def urlKeeps_def is_digit_def byte_def)
  then have "list_all urlKeeps ''#ZgotmplZ''" by (simp add: plainURLByte_def list_all_iff)
  with plain show "\<not> isSafeURL s \<Longrightarrow> hrefValue s = ''#ZgotmplZ''"
    using htmlText_plain urlNormalize_kept by (simp add: hrefValue_def urlFilter_def)
qed

end
