(* ===== verification/Email_Html.thy ===== *)
theory Email_Html
  imports Html_Escape
begin

text \<open>
  internal/infrastructure/smtp/templates/invite\_body.gohtml as html/template executes it: comments are
  dropped, and every field stands behind the escaper of its place. Lines of the file are lines here.
\<close>

section \<open>Fields\<close>

text \<open>A field in the text of an element, and in an href.\<close>

definition HtmlField :: "(inviteEmailData \<Rightarrow> string) \<Rightarrow> node" where
  "HtmlField f = TField (\<lambda>d. htmlText (f d))"

definition HrefField :: "(inviteEmailData \<Rightarrow> string) \<Rightarrow> node" where
  "HrefField f = TField (\<lambda>d. hrefValue (f d))"

section \<open>Parts\<close>

definition htmlHead :: string where
  \<open>htmlHead =
     (NL @ NL @ ''<!DOCTYPE html>'' @ NL @ ''<html lang="en">'' @ NL @ ''<head>'' @ NL
        @ ''    <meta charset="UTF-8">'' @ NL
        @ ''    <meta name="viewport" content="width=device-width, initial-scale=1.0">'' @ NL
        @ ''    <title>You've been invited to join '')\<close>

definition htmlStyle :: string where
  \<open>htmlStyle =
     (''</title>'' @ NL @ ''    <style>'' @ NL
        @ ''        body { margin: 0; padding: 0; background-color: #ffffff; font-family: Inter, Arial, sans-serif; color: #111827; }''
        @ NL @ ''        .wrapper { max-width: 600px; margin: 0 auto; padding: 32px 40px; }'' @ NL
        @ ''        .logo { margin-bottom: 24px; }'' @ NL
        @ ''        .logo img { height: 32px; width: auto; display: block; }'' @ NL
        @ ''        hr { border: none; border-top: 1px solid #e5e7eb; margin: 0 0 32px 0; }'' @ NL
        @ ''        p { font-size: 16px; color: #374151; line-height: 1.6; margin: 0 0 16px 0; }'' @ NL
        @ ''        .greeting { font-size: 15px; color: #374151; margin: 0 0 8px 0; }'' @ NL
        @ ''        ol { font-size: 16px; color: #374151; line-height: 1.8; margin: 0 0 16px 0; padding-left: 20px; }''
        @ NL
        @ ''        .btn { display: inline-block; background-color: #009AFF; color: #ffffff !important; text-decoration: none; font-size: 15px; font-weight: 600; padding: 12px 24px; border-radius: 8px; margin-bottom: 12px; }''
        @ NL @ ''        .btn-note { font-size: 13px; color: #6b7280; margin: 0 0 28px 0; }'' @ NL
        @ ''        .btn-note a { color: #009AFF; text-decoration: none; }'' @ NL
        @ ''        .signoff { font-size: 15px; color: #374151; margin: 0 0 32px 0; line-height: 1.7; }'' @ NL
        @ ''        .footer-hr { border: none; border-top: 1px solid #e5e7eb; margin: 0 0 24px 0; }'' @ NL
        @ ''        .footer { font-size: 12px; color: #9ca3af; line-height: 1.6; margin: 0; }'' @ NL
        @ ''        .footer a { color: #9ca3af; }'' @ NL @ ''        @media only screen and (max-width: 620px) {''
        @ NL @ ''            .wrapper { padding: 24px 20px; }'' @ NL @ ''        }'' @ NL @ ''    </style>'' @ NL
        @ ''</head>'' @ NL @ ''<body>'' @ NL @ ''<div class="wrapper">'' @ NL @ NL @ ''    <div class="logo">'' @ NL
        @ ''        <img src="https://itx-project-logos-png-prod.s3.us-west-2.amazonaws.com/lfx-logo-color.png" alt="LFX" width="120" height="32">''
        @ NL @ ''    </div>'' @ NL @ ''    <hr>'' @ NL @ NL @ ''    <p class="greeting">Hi'')\<close>

text \<open>\<open>{{if .ResourceType}} {{.ResourceType}}{{end}}\<close>\<close>

definition htmlTypeNodes :: "node list" where
  "htmlTypeNodes = [TIf (\<lambda>d. ted_ResourceType d \<noteq> []) [TText '' '', HtmlField ted_ResourceType] []]"

text \<open>The resource in bold with its type and its parent.\<close>

definition htmlResourceNodes :: "node list" where
  "htmlResourceNodes =
     [HtmlField ted_ResourceName, TText ''</strong>''] @ htmlTypeNodes
     @ [TIf ted_HasParentResource
          [TText '' (part of <strong>'', HtmlField ted_ParentResourceName, TText ''</strong>)''] []]"

definition htmlRoleNodes :: "node list" where
  "htmlRoleNodes = [TText '' on LFX with the <strong>'', HtmlField ted_Role, TText (''</strong> role.</p>'' @ NL @ ''    '')]"

definition htmlInvitation :: node where
  "htmlInvitation =
     TIf ted_HasInviter
       ([TText (NL @ ''    <p><strong>''), HtmlField ted_InviterFullName,
         TText ''</strong> has invited you to join the <strong>''] @ htmlResourceNodes @ htmlRoleNodes)
       ([TText (NL @ ''    <p>You have been invited to join the <strong>'')] @ htmlResourceNodes @ htmlRoleNodes)"

definition htmlGettingStarted :: node where
  "htmlGettingStarted =
     TIf (\<lambda>d. \<not> ted_RecipientHasAccount d)
       ([TText (NL @ ''    <p>You&#39;ll need an LFX account to get started.</p>'' @ NL
        @ ''    <p>Getting started takes about a minute:</p>'' @ NL @ ''    <ol>'' @ NL
        @ ''        <li>Click the button below to accept the invitation</li>'' @ NL
        @ ''        <li>Create your LFX account (or sign in if you have a Linux Foundation ID)</li>'' @ NL
        @ ''        <li>You&#39;ll be taken straight to the <strong>'')]
        @ htmlResourceNodes @ [TText ('' dashboard</li>'' @ NL @ ''    </ol>'' @ NL @ ''    '')])
       []"

definition htmlButton :: "string \<Rightarrow> node list" where
  \<open>htmlButton label =
     [TText ''<a href="'', HrefField ted_ReturnURL,
      TText (''" class="btn" style="color:#ffffff!important;">'' @ label @ ''</a>'')]\<close>

definition htmlFooter :: string where
  \<open>htmlFooter =
     ('' Team</strong></p>'' @ NL @ NL @ ''    <hr class="footer-hr">'' @ NL @ ''    <p class="footer">Copyright ''
        @ [CHR 0xC2, CHR 0xA9] @ '' 2026 The Linux Foundation '' @ [CHR 0xC2, CHR 0xAE]
        @ ''. All rights reserved. The Linux Foundation has registered trademarks and uses trademarks. For a list of trademarks of The Linux Foundation, please see our <a href="https://www.linuxfoundation.org/trademark-usage">Trademark Usage</a> page. Linux is a registered trademark of Linus Torvalds.</p>''
        @ NL @ NL @ ''</div>'' @ NL @ ''</body>'' @ NL @ ''</html>'' @ NL)\<close>

section \<open>The template\<close>

definition htmlTmpl :: "node list" where
  \<open>htmlTmpl =
     [TText htmlHead, HtmlField ted_ResourceName] @ htmlTypeNodes @ [TText htmlStyle,
      TIf (\<lambda>d. ted_RecipientFirstName d \<noteq> []) [TText '' '', HtmlField ted_RecipientFirstName] [],
      TText ('',</p>'' @ NL @ NL @ ''    ''), htmlInvitation, TText (NL @ ''    ''), htmlGettingStarted,
      TText (NL @ NL @ ''    ''),
      TIf ted_RecipientHasAccount (htmlButton ''Accept invitation'')
        (htmlButton ''Accept invitation &amp; create account''),
      TText (NL @ ''    <p class="btn-note">If the button above doesn't work, <a href="''),
      HrefField ted_ReturnURL,
      TText (''">click here to accept your invitation</a>.</p>'' @ NL @ NL
             @ ''    <p class="signoff">Thanks,<br><strong>''),
      HtmlField ted_OrgName, TText htmlFooter]\<close>

end
