(* ===== verification/Email_Render.thy ===== *)
theory Email_Render
  imports Email_Html
begin

text \<open>
  internal/infrastructure/smtp/templates.go: rendering of the three parts of the invite email, each
  with its fallback.
\<close>

section \<open>RenderInviteEmail\<close>

record RenderedInviteEmail =
  ren_Subject :: string
  ren_HTML :: string
  ren_Plain :: string

text \<open>\<open>None\<close> is a failed execution.\<close>

definition renderPart :: "(inviteEmailData \<Rightarrow> string option) \<Rightarrow> inviteEmailData \<Rightarrow> (inviteEmailData \<Rightarrow> string) \<Rightarrow> string" where
  "renderPart tmpl data fallback = (case tmpl data of None \<Rightarrow> fallback data | Some s \<Rightarrow> s)"

definition RenderInviteEmail :: "InviteEmailPayload \<Rightarrow> RenderedInviteEmail" where
  "RenderInviteEmail payload =
     (let data = buildTemplateData payload in
      \<lparr>ren_Subject = sanitizeSingleLine (renderPart (Some \<circ> execTemplate subjectTmpl) data fallbackInviteSubject),
       ren_HTML = renderPart (Some \<circ> execTemplate htmlTmpl) data fallbackInviteHTML,
       ren_Plain = renderPart (Some \<circ> execTemplate plainTmpl) data fallbackInvitePlain\<rparr>)"

end
