(* ===== verification/Notification.thy ===== *)
theory Notification
  imports Ports Go_Strconv
begin

text \<open>
  internal/service/notification.go: the send-invite use case. The functions of the standard
  library that read an address or a URL are arguments (\<open>golib\<close>), so what is shown holds whatever
  they answer. Log lines other than the audit entry are left out.
\<close>

named_theorems notif_defs \<open>definitions of the notification service\<close>

section \<open>Standard library\<close>

text \<open>
  \<open>unicode.ToLower\<close>; \<open>mail.ParseAddress\<close>, of which the code uses the error and the address;
  \<open>url.Parse\<close>, of which it uses the error, the scheme and \<open>Hostname()\<close>.
\<close>

record golib =
  lib_lower :: "nat \<Rightarrow> nat"
  lib_ParseAddress :: "string \<Rightarrow> liberr + string"
  lib_ParseURL :: "string \<Rightarrow> liberr + (string \<times> string)"

section \<open>Helpers\<close>

definition redactEmail :: "string \<Rightarrow> string" where
  "redactEmail email =
     (case indexByte email (CHR ''@'') of
        None \<Rightarrow> ''***''
      | Some at \<Rightarrow> if at = 0 then ''***'' else take 1 email @ ''***'' @ drop at email)"

definition matchHost :: "string \<Rightarrow> string \<Rightarrow> bool" where
  "matchHost host pattern \<longleftrightarrow>
     (if hasPrefix pattern ''*.'' then hasSuffix host (drop 1 pattern) else host = pattern)"

definition validateReturnURL :: "golib \<Rightarrow> string \<Rightarrow> string list \<Rightarrow> goerr option" where
  "validateReturnURL lib rawURL allowedHosts =
     (if allowedHosts = [] then None
      else case lib_ParseURL lib rawURL of
        Inl err \<Rightarrow> Some (Errorf [T ''invalid return_url '', Q rawURL, T '': '', W (LibErr err)])
      | Inr (scheme, host) \<Rightarrow>
          if scheme \<noteq> ''https'' then Some (Errorf [T ''return_url must use https scheme, got '', Q scheme])
          else if list_ex (matchHost host) allowedHosts then None
          else Some (Errorf [T ''return_url host '', Q host, T '' is not in the allowed list'']))"

fun firstNonEmpty :: "string list \<Rightarrow> string" where
  "firstNonEmpty [] = []"
| "firstNonEmpty (v # vs) = (if v \<noteq> [] then v else firstNonEmpty vs)"

text \<open>The audit log line: the entry with its recipient redacted.\<close>

definition auditNotification :: "NotificationAuditEntry \<Rightarrow> 'a prog \<Rightarrow> 'a prog" where
  "auditNotification entry p = Audit (entry\<lparr>aud_RecipientEmail := redactEmail (aud_RecipientEmail entry)\<rparr>) p"

section \<open>The record of an invite\<close>

definition inviteRecordAt :: "time \<Rightarrow> string \<Rightarrow> SendInviteRequest \<Rightarrow> string \<Rightarrow> string \<Rightarrow> string \<Rightarrow> time \<Rightarrow> gomap \<Rightarrow>
    InviteRecord" where
  "inviteRecordAt now inviteUID req canonicalEmail destURL role expiresAt acceptedClaims =
     (let inviterName = ResolvedInviterName req;
          inviter =
            (case req_Inviter req of
               Some i \<Rightarrow> \<lparr>inv_Name = firstNonEmpty [inv_Name i, inviterName], inv_Username = inv_Username i,
                          inv_Email = inv_Email i, inv_Avatar = inv_Avatar i\<rparr>
             | None \<Rightarrow> zeroInviter\<lparr>inv_Name := inviterName\<rparr>);
          recipientName = ResolvedRecipientName req;
          recipient =
            (case req_Recipient req of
               Some r \<Rightarrow> \<lparr>rcp_Name = firstNonEmpty [rcp_Name r, recipientName], rcp_Email = canonicalEmail,
                          rcp_Username = rcp_Username r, rcp_Avatar = rcp_Avatar r\<rparr>
             | None \<Rightarrow> zeroRecipient\<lparr>rcp_Name := recipientName, rcp_Email := canonicalEmail\<rparr>)
      in \<lparr>rec_UID = inviteUID, rec_Status = InviteStatusPending, rec_Recipient = recipient, rec_Inviter = inviter,
          rec_Resource = \<lparr>res_UID = ResolvedResourceUID req, res_Name = ResolvedResourceName req,
                          res_Type = ResolvedResourceType req, res_ParentName = ResolvedParentResourceName req\<rparr>,
          rec_Role = role, rec_OrgName = req_OrgName req, rec_ReturnURL = destURL,
          rec_ExpirationDays = req_ExpirationDays req, rec_CustomClaims = acceptedClaims,
          rec_CreatedAt = now, rec_ExpiresAt = expiresAt, rec_AcceptedAt = None, rec_AcceptedBy = []\<rparr>)"

definition buildInviteRecord :: "string \<Rightarrow> SendInviteRequest \<Rightarrow> string \<Rightarrow> string \<Rightarrow> string \<Rightarrow> time \<Rightarrow> gomap \<Rightarrow>
    InviteRecord prog" where
  "buildInviteRecord inviteUID req canonicalEmail destURL role expiresAt acceptedClaims =
     Now (\<lambda>now. Return (inviteRecordAt now inviteUID req canonicalEmail destURL role expiresAt acceptedClaims))"

section \<open>HandleSendInvite\<close>

record NotificationConfig =
  cfg_DefaultReturnURL :: string
  cfg_AllowedReturnURLHosts :: "string list"

record SendInviteResult =
  sir_InviteUID :: string
  sir_RecipientEmail :: string
  sir_ExpiresAt :: time

record NotificationService =
  ns_emailSender :: EmailSender
  ns_linkGenerator :: LinkGenerator
  ns_inviteStore :: "InviteStore option"
  ns_config :: NotificationConfig

definition NewNotificationService :: "EmailSender \<Rightarrow> LinkGenerator \<Rightarrow> InviteStore option \<Rightarrow> NotificationConfig \<Rightarrow>
    NotificationService" where
  "NewNotificationService email linkGen store cfg =
     \<lparr>ns_emailSender = email, ns_linkGenerator = linkGen, ns_inviteStore = store, ns_config = cfg\<rparr>"

text \<open>The checks of the request: the canonical address and the trimmed role.\<close>

definition validateSend :: "golib \<Rightarrow> NotificationConfig \<Rightarrow> SendInviteRequest \<Rightarrow> goerr + (string \<times> string)" where
  "validateSend lib cfg req =
     (let rawEmail = ResolvedRecipientEmail req; resourceUID = ResolvedResourceUID req in
      if rawEmail = [] then
        Inl (Errorf [W (Sentinel ErrInvalidRequest), T '': no recipient email for resource '', S resourceUID])
      else case lib_ParseAddress lib rawEmail of
        Inl mailErr \<Rightarrow>
          Inl (Errorf [W (Sentinel ErrInvalidRequest), T '': invalid recipient_email '', Q rawEmail, T '': '',
                       W (LibErr mailErr)])
      | Inr canonicalEmail \<Rightarrow>
          let roleStr = trimSpace (req_Role req) in
          if roleStr = [] then
            Inl (Errorf [W (Sentinel ErrInvalidRequest), T '': role must not be empty for resource '', S resourceUID])
          else case (if req_ReturnURL req \<noteq> []
                     then validateReturnURL lib (req_ReturnURL req) (cfg_AllowedReturnURLHosts cfg) else None) of
            Some err \<Rightarrow> Inl (Errorf [W (Sentinel ErrInvalidRequest), T '': '', W err])
          | None \<Rightarrow> Inr (canonicalEmail, roleStr))"

definition destinationURL :: "NotificationConfig \<Rightarrow> SendInviteRequest \<Rightarrow> string" where
  "destinationURL cfg req =
     (if req_ReturnURL req = [] \<and> cfg_DefaultReturnURL cfg \<noteq> [] then cfg_DefaultReturnURL cfg
      else req_ReturnURL req)"

definition linkPayload :: "SendInviteRequest \<Rightarrow> string \<Rightarrow> string \<Rightarrow> string \<Rightarrow> LinkPayload" where
  "linkPayload req canonicalEmail destURL roleStr =
     \<lparr>lp_RecipientEmail = canonicalEmail, lp_DestinationURL = destURL, lp_ResourceUID = ResolvedResourceUID req,
      lp_ResourceType = ResolvedResourceType req, lp_Role = roleStr, lp_ExpirationDays = req_ExpirationDays req,
      lp_CustomClaims = req_CustomClaims req\<rparr>"

definition emailPayload :: "SendInviteRequest \<Rightarrow> string \<Rightarrow> string \<Rightarrow> string \<Rightarrow> InviteEmailPayload" where
  "emailPayload req canonicalEmail roleStr inviteLink =
     \<lparr>pay_RecipientEmail = canonicalEmail, pay_RecipientName = ResolvedRecipientName req,
      pay_InviterName = ResolvedInviterName req, pay_ResourceName = ResolvedResourceName req,
      pay_ResourceType = ResolvedResourceType req, pay_ParentResourceName = ResolvedParentResourceName req,
      pay_ResourceUID = ResolvedResourceUID req, pay_Role = roleStr, pay_OrgName = req_OrgName req,
      pay_InviteLink = inviteLink, pay_RecipientHasAccount = req_RecipientHasAccount req\<rparr>"

text \<open>Email dispatch failed: the audit entry, then a best-effort rollback of the record.\<close>

definition auditEntry :: "SendInviteRequest \<Rightarrow> string \<Rightarrow> string \<Rightarrow> DeliveryState \<Rightarrow> goerr option \<Rightarrow> NotificationAuditEntry" where
  "auditEntry req canonicalEmail roleStr state err =
     \<lparr>aud_ResourceUID = ResolvedResourceUID req, aud_RecipientLFID = [], aud_RecipientEmail = canonicalEmail,
      aud_Role = roleStr, aud_DeliveryState = state, aud_ErrorMessage = err\<rparr>"

definition dispatchError :: "SendInviteRequest \<Rightarrow> goerr \<Rightarrow> goerr" where
  "dispatchError req err =
     Errorf [W (Sentinel ErrEmailDispatchFailed), T '': send invite notification for resource '',
             S (ResolvedResourceUID req), T '': '', W err]"

definition emailFailed :: "NotificationService \<Rightarrow> SendInviteRequest \<Rightarrow> string \<Rightarrow> string \<Rightarrow> GeneratedLink \<Rightarrow> goerr \<Rightarrow>
    (goerr + SendInviteResult) prog" where
  "emailFailed svc req canonicalEmail roleStr g err =
     auditNotification (auditEntry req canonicalEmail roleStr DeliveryStateFailed (Some err))
       (case ns_inviteStore svc of
          Some store \<Rightarrow>
            bind (st_Delete store (gl_InviteUID g)) (\<lambda>deleteErr. Return (Inl (dispatchError req err)))
        | None \<Rightarrow> Return (Inl (dispatchError req err)))"

definition emailSent :: "SendInviteRequest \<Rightarrow> string \<Rightarrow> string \<Rightarrow> GeneratedLink \<Rightarrow> (goerr + SendInviteResult) prog" where
  "emailSent req canonicalEmail roleStr g =
     auditNotification (auditEntry req canonicalEmail roleStr DeliveryStateSent None)
       (Return (Inr \<lparr>sir_InviteUID = gl_InviteUID g, sir_RecipientEmail = canonicalEmail,
                     sir_ExpiresAt = gl_ExpiresAt g\<rparr>))"

definition dispatchInvite :: "NotificationService \<Rightarrow> SendInviteRequest \<Rightarrow> string \<Rightarrow> string \<Rightarrow> GeneratedLink \<Rightarrow>
    (goerr + SendInviteResult) prog" where
  "dispatchInvite svc req canonicalEmail roleStr g =
     bind (ns_emailSender svc (emailPayload req canonicalEmail roleStr (gl_Link g))) (\<lambda>r. case r of
       Some err \<Rightarrow> emailFailed svc req canonicalEmail roleStr g err
     | None \<Rightarrow> emailSent req canonicalEmail roleStr g)"

text \<open>The link is signed: persist the record, then send; nothing is sent when the store fails.\<close>

definition persistInvite :: "NotificationService \<Rightarrow> SendInviteRequest \<Rightarrow> string \<Rightarrow> string \<Rightarrow> string \<Rightarrow> GeneratedLink \<Rightarrow>
    (goerr + SendInviteResult) prog" where
  "persistInvite svc req canonicalEmail destURL roleStr g =
     (case ns_inviteStore svc of
        Some store \<Rightarrow>
          bind (buildInviteRecord (gl_InviteUID g) req canonicalEmail destURL roleStr (gl_ExpiresAt g)
                 (gl_AcceptedClaims g)) (\<lambda>record.
          bind (st_Create store record) (\<lambda>storeErr. case storeErr of
            Some err \<Rightarrow>
              Return (Inl (Errorf [T ''persist invite record for resource '', S (ResolvedResourceUID req),
                                   T '': '', W err]))
          | None \<Rightarrow> dispatchInvite svc req canonicalEmail roleStr g))
      | None \<Rightarrow> dispatchInvite svc req canonicalEmail roleStr g)"

definition linkError :: "SendInviteRequest \<Rightarrow> goerr \<Rightarrow> goerr" where
  "linkError req linkErr =
     (if errors_Is linkErr ErrInvalidCustomClaims
      then Errorf [W (Sentinel ErrInvalidRequest), T '': '', W linkErr]
      else Errorf [T ''generate invite link for resource '', S (ResolvedResourceUID req), T '': '', W linkErr])"

definition HandleSendInvite :: "golib \<Rightarrow> NotificationService \<Rightarrow> SendInviteRequest \<Rightarrow>
    (goerr + SendInviteResult) prog" where
  "HandleSendInvite lib svc req =
     (case validateSend lib (ns_config svc) req of
        Inl err \<Rightarrow> Return (Inl err)
      | Inr (canonicalEmail, roleStr) \<Rightarrow>
          let destURL = destinationURL (ns_config svc) req in
          bind (ns_linkGenerator svc (linkPayload req canonicalEmail destURL roleStr)) (\<lambda>r. case r of
            Inl linkErr \<Rightarrow> Return (Inl (linkError req linkErr))
          | Inr g \<Rightarrow> persistInvite svc req canonicalEmail destURL roleStr g))"

end
