(* ===== verification/Nats_Client.thy ===== *)
theory Nats_Client
  imports Ports Email_Render Notification
begin

text \<open>
  internal/infrastructure/nats apart from the repository: the client's request and publish, the
  inbound message, the header carrier of trace contexts and the email sender. Connection and
  spans are left out. The email service's message types (a third party package) are the argument
  \<open>emaillib\<close>: encoding of an envelope and decoding of an error reply.
\<close>

section \<open>Client (client.go)\<close>

definition Request :: "string \<Rightarrow> string \<Rightarrow> (goerr + string) prog" where
  "Request subject data =
     NatsRequest subject data (\<lambda>r. case r of
       Inl err \<Rightarrow> Return (Inl (newServiceUnavailable ''NATS request failed'' (Some (LibErr err))))
     | Inr reply \<Rightarrow> Return (Inr reply))"

definition Publish :: EventPublisher where
  "Publish subject data =
     NatsPublish subject data (\<lambda>r. case r of
       Some err \<Rightarrow> Return (Some (newServiceUnavailable ''NATS publish failed'' (Some (LibErr err))))
     | None \<Rightarrow> Return None)"

text \<open>\<open>IsReady\<close> of a connection: whether there is one, whether it is connected, whether it drains.\<close>

record natsConn =
  conn_IsConnected :: bool
  conn_IsDraining :: bool

definition IsReady :: "natsConn option \<Rightarrow> goerr option" where
  "IsReady c =
     (case c of
        None \<Rightarrow> Some (newServiceUnavailable ''NATS client is not ready'' None)
      | Some conn \<Rightarrow>
          if \<not> conn_IsConnected conn \<or> conn_IsDraining conn
          then Some (newServiceUnavailable ''NATS client is not ready'' None) else None)"

section \<open>Inbound messages (inbound\_message.go)\<close>

record natsMsg =
  msg_Data :: string
  msg_Subject :: string
  msg_ReplyTo :: string

definition Reply :: "natsMsg \<Rightarrow> string \<Rightarrow> goerr option prog" where
  "Reply m data =
     (if msg_ReplyTo m = [] then Return None
      else MsgReply data (\<lambda>r. Return (map_option LibErr r)))"

section \<open>Trace headers (tracing.go)\<close>

text \<open>A \<open>nats.Header\<close>: \<open>None\<close> is the nil map.\<close>

type_synonym natsHeader = "(string \<times> string list) list option"

definition carrierGet :: "natsHeader \<Rightarrow> string \<Rightarrow> string" where
  "carrierGet c key =
     (case c of
        None \<Rightarrow> []
      | Some h \<Rightarrow> (case map_of h key of Some (v # vs) \<Rightarrow> v | _ \<Rightarrow> []))"

definition carrierSet :: "natsHeader \<Rightarrow> string \<Rightarrow> string \<Rightarrow> natsHeader" where
  "carrierSet c key value = map_option (\<lambda>h. map_put h key [value]) c"

definition carrierKeys :: "natsHeader \<Rightarrow> string list" where
  "carrierKeys c = (case c of None \<Rightarrow> [] | Some h \<Rightarrow> map fst h)"

lemma carrier_get_set:
  "wf_map h \<Longrightarrow> carrierGet (carrierSet (Some h) k v) k' = (if k' = k then v else carrierGet (Some h) k')"
  by (simp add: carrierGet_def carrierSet_def map_of_map_put)

lemma carrier_keys_set:
  "set (carrierKeys (carrierSet (Some h) k v)) = insert k (set (carrierKeys (Some h)))"
  by (simp add: carrierKeys_def carrierSet_def set_fst_map_put)

section \<open>Email sender (email\_sender.go)\<close>

record emailEnvelope =
  eml_To :: string
  eml_Subject :: string
  eml_HTML :: string
  eml_Text :: string

text \<open>
  \<open>eml_marshal\<close>: json.Marshal of a \<open>SendEmailRequest\<close>; \<open>eml_error\<close>: the \<open>Error\<close> field of a
  decoded \<open>SendEmailErrorResponse\<close>.
\<close>

record emaillib =
  eml_marshal :: "emailEnvelope \<Rightarrow> liberr + string"
  eml_error :: "string \<Rightarrow> liberr + string"

definition emailEnvelopeOf :: "emaillib \<Rightarrow> InviteEmailPayload \<Rightarrow> emailEnvelope" where
  "emailEnvelopeOf elib payload =
     (let rendered = RenderInviteEmail payload in
      \<lparr>eml_To = pay_RecipientEmail payload, eml_Subject = ren_Subject rendered,
       eml_HTML = ren_HTML rendered, eml_Text = ren_Plain rendered\<rparr>)"

definition SendNotification :: "emaillib \<Rightarrow> string \<Rightarrow> EmailSender" where
  "SendNotification elib subject payload =
     (case eml_marshal elib (emailEnvelopeOf elib payload) of
        Inl err \<Rightarrow> Return (Some (newUnexpected ''failed to marshal email request'' (Some (LibErr err))))
      | Inr data \<Rightarrow>
          bind (Request subject data) (\<lambda>r. case r of
            Inl err \<Rightarrow> Return (Some err)
          | Inr reply \<Rightarrow>
              if reply = [] then Return None
              else case eml_error elib reply of
                Inl jsonErr \<Rightarrow> Return (Some (newUnexpected ''malformed email-service reply'' (Some (LibErr jsonErr))))
              | Inr e \<Rightarrow>
                  if e \<noteq> []
                  then Return (Some (newServiceUnavailable ''email service returned error''
                         (Some (Errorf [T e]))))
                  else Return None))"

definition NewNATSEmailSender :: "emaillib \<Rightarrow> string \<Rightarrow> EmailSender" where
  "NewNATSEmailSender elib subject = SendNotification elib subject"

text \<open>The package has its own \<open>redactEmail\<close>, for log lines.\<close>

definition redactEmail_sender :: "string \<Rightarrow> string" where
  "redactEmail_sender email =
     (case indexByte email (CHR ''@'') of
        None \<Rightarrow> ''***''
      | Some at \<Rightarrow> if at = 0 then ''***'' else take 1 email @ ''***'' @ drop at email)"

lemma redactEmail_sender: "redactEmail_sender = redactEmail"
  by (simp add: fun_eq_iff redactEmail_sender_def redactEmail_def)

section \<open>Properties\<close>

text \<open>The email is accepted exactly when the reply is empty or decodes to an empty error.\<close>

definition acceptedReply :: "emaillib \<Rightarrow> liberr + string \<Rightarrow> bool" where
  "acceptedReply elib r \<longleftrightarrow> (\<exists>reply. r = Inr reply \<and> (reply = [] \<or> eml_error elib reply = Inr []))"

lemma SendNotification_exec:
  "exec (SendNotification elib subject payload) tr x \<Longrightarrow>
   (\<exists>err. eml_marshal elib (emailEnvelopeOf elib payload) = Inl err \<and> tr = [] \<and> x \<noteq> None)
   \<or> (\<exists>data r. eml_marshal elib (emailEnvelopeOf elib payload) = Inr data
        \<and> tr = [ERequest subject data r] \<and> (x = None \<longleftrightarrow> acceptedReply elib r))"
  unfolding SendNotification_def Request_def
  by (auto simp: prog_simps exec_bind acceptedReply_def)

lemma SendNotification_noSentinel:
  "exec (SendNotification elib subject payload) tr (Some err) \<Longrightarrow> noSentinel err"
  unfolding SendNotification_def Request_def
  by (auto simp: prog_simps exec_bind noSentinel_def err_simps)

end
