(* ===== verification/Process_Events.thy ===== *)
theory Process_Events
  imports Complex_Main Ports
begin

text \<open>
  What the process does to the outside while it starts and stops, as events: what it acquires and
  gives back (the providers of the OpenTelemetry pipeline, the NATS connection, the subscriptions),
  and the choices it makes from the environment.
\<close>

section \<open>Choices\<close>

text \<open>A float64 as far as the range check sees it: comparisons with NaN are false.\<close>

datatype gofloat = NaN | Finite rat | PosInf | NegInf

datatype sampler =
    AlwaysOn
  | AlwaysOff
  | TraceIDRatio gofloat
  | ParentBased sampler

datatype logLevel = LevelDebug | LevelInfo | LevelWarn

text \<open>
  A slog handler: JSON lines to standard error from a level on, the handler of slog-otel around
  another, and the handler that adds the attributes of the context.
\<close>

datatype logHandler =
    JSONHandler logLevel
  | OtelHandler logHandler
  | ContextHandler logHandler

section \<open>Events\<close>

datatype provider = TracerProvider | MeterProvider | LoggerProvider

datatype resource =
    Conn string
  | Subscription string string
  | Provider provider

text \<open>
  \<open>Bind\<close> is the bucket bound on the connection, \<open>Describe\<close> the name and version of the service in
  the telemetry, \<open>SetTextMapPropagator\<close> and \<open>Install\<close> the global propagator and providers,
  \<open>SetLogger\<close> and \<open>SetLogOutput\<close> the default loggers of slog and log, and \<open>AwaitSignal\<close> the wait
  for SIGINT or SIGTERM.
\<close>

datatype lifeEvent =
    Acquire resource
  | Release resource
  | Bind string
  | SetEnv string string
  | Describe string string
  | UseSampler sampler
  | SetTextMapPropagator
  | Install provider
  | SetLogger logHandler
  | SetLogOutput
  | AwaitSignal

end
