(* ===== verification/Nats_Connection.thy ===== *)
theory Nats_Connection
  imports Process_Events
begin

text \<open>
  internal/infrastructure/nats/client.go: connecting, draining, binding of a bucket, queue
  subscriptions and JetStream consumers. What nats.go answers to each call is the argument
  \<open>natslib\<close>; what the process does to the outside is written down as a list of events.
\<close>

section \<open>The connection\<close>

text \<open>
  The options of \<open>nats.Connect\<close>, the wait in nanoseconds; the two callbacks of the source only log.
\<close>

record connectOptions =
  co_RetryOnFailedConnect :: bool
  co_MaxReconnects :: int
  co_ReconnectWait :: int

definition connectOptions :: connectOptions where
  "connectOptions =
     \<lparr>co_RetryOnFailedConnect = True, co_MaxReconnects = - 1, co_ReconnectWait = 2 * nsPerSecond\<rparr>"

text \<open>
  The answers of \<open>nats.Connect\<close>, \<open>Conn.QueueSubscribe\<close>, \<open>jetstream.New\<close>,
  \<open>JetStream.KeyValue\<close>, \<open>JetStream.CreateOrUpdateConsumer\<close> and \<open>Consumer.Consume\<close>: an error or nothing.
\<close>

record natslib =
  nats_Connect :: "string \<Rightarrow> connectOptions \<Rightarrow> liberr option"
  nats_QueueSubscribe :: "string \<Rightarrow> string \<Rightarrow> liberr option"
  js_New :: "liberr option"
  js_KeyValue :: "string \<Rightarrow> liberr option"
  js_CreateOrUpdateConsumer :: "string \<Rightarrow> liberr option"
  js_Consume :: "string \<Rightarrow> liberr option"

text \<open>The client is known by the URL of its connection; \<open>None\<close> is a nil connection.\<close>

record Client =
  cl_conn :: "string option"

definition New :: "natslib \<Rightarrow> string \<Rightarrow> (goerr + Client) \<times> lifeEvent list" where
  "New nl url =
     (case nats_Connect nl url connectOptions of
        Some err \<Rightarrow> (Inl (newServiceUnavailable ''failed to connect to NATS'' (Some (LibErr err))), [])
      | None \<Rightarrow> (Inr \<lparr>cl_conn = Some url\<rparr>, [Acquire (Conn url)]))"

definition Close :: "Client \<Rightarrow> lifeEvent list" where
  "Close c = (case cl_conn c of Some url \<Rightarrow> [Release (Conn url)] | None \<Rightarrow> [])"

text \<open>The result is \<open>None\<close> for the bucket.\<close>

definition KeyValue :: "natslib \<Rightarrow> string \<Rightarrow> goerr option \<times> lifeEvent list" where
  "KeyValue nl bucket =
     (case js_New nl of
        Some err \<Rightarrow> (Some (newServiceUnavailable ''failed to create JetStream client'' (Some (LibErr err))), [])
      | None \<Rightarrow>
          (case js_KeyValue nl bucket of
             Some err \<Rightarrow> (Some (newServiceUnavailable (''failed to bind to KV bucket '' @ bucket) (Some (LibErr err))), [])
           | None \<Rightarrow> (None, [Bind bucket])))"

section \<open>Subscriptions\<close>

text \<open>
  port.Subscriber: an error, or the function that stops the subscription, which is the list of what
  it does when it is called. The handler is the one that \<open>dispatchMsg\<close> runs for the subject.
\<close>

type_synonym stopFunc = "lifeEvent list"
type_synonym Subscriber = "string \<Rightarrow> string \<Rightarrow> (goerr + stopFunc) \<times> lifeEvent list"

definition QueueSubscribe :: "natslib \<Rightarrow> Subscriber" where
  "QueueSubscribe nl subject queue =
     (case nats_QueueSubscribe nl subject queue of
        Some err \<Rightarrow> (Inl (newServiceUnavailable (''failed to subscribe to '' @ subject) (Some (LibErr err))), [])
      | None \<Rightarrow> (Inr [Release (Subscription subject queue)], [Acquire (Subscription subject queue)]))"

section \<open>JetStream consumers\<close>

text \<open>What the consumer answers the server for a message: the handler's error decides.\<close>

datatype settlement = Ack | Nak

definition consumeMessage :: "(string \<Rightarrow> string \<Rightarrow> goerr option prog) \<Rightarrow> string \<Rightarrow> string \<Rightarrow> settlement prog" where
  "consumeMessage handler subject data =
     bind (handler subject data) (\<lambda>handlerErr. case handlerErr of
       Some err \<Rightarrow> Return Nak
     | None \<Rightarrow> Return Ack)"

definition ConsumeWithJetStream ::
  "natslib \<Rightarrow> string \<Rightarrow> (string \<Rightarrow> string \<Rightarrow> goerr option prog) \<Rightarrow> goerr + (string \<Rightarrow> string \<Rightarrow> settlement prog)" where
  "ConsumeWithJetStream nl streamName handler =
     (case js_New nl of
        Some err \<Rightarrow> Inl (newServiceUnavailable ''failed to create JetStream client'' (Some (LibErr err)))
      | None \<Rightarrow>
          (case js_CreateOrUpdateConsumer nl streamName of
             Some err \<Rightarrow> Inl (newServiceUnavailable ''failed to create JetStream consumer'' (Some (LibErr err)))
           | None \<Rightarrow>
               (case js_Consume nl streamName of
                  Some err \<Rightarrow> Inl (newServiceUnavailable ''failed to start JetStream consume loop'' (Some (LibErr err)))
                | None \<Rightarrow> Inr (consumeMessage handler))))"

lemma consumeMessage_exec:
  "exec (consumeMessage handler subject data) tr x \<longleftrightarrow>
   (\<exists>e. exec (handler subject data) tr e \<and> x = (if e = None then Ack else Nak))"
proof -
  have "exec (case e of Some err \<Rightarrow> Return Nak | None \<Rightarrow> Return Ack) t y \<longleftrightarrow> t = [] \<and> y = (if e = None then Ack else Nak)" for e t y
    by (cases e) (auto simp: prog_simps)
  note * = this
  show ?thesis unfolding consumeMessage_def exec_bind * by auto
qed

end
