(* ===== verification/Invite_Read.thy ===== *)
theory Invite_Read
  imports Notification Api_Types
begin

text \<open>internal/service/invite\_read.go: queries over the invite store, and the public view of a record.\<close>

definition NewInviteReadService :: "InviteStore \<Rightarrow> InviteStore" where
  "NewInviteReadService store = store"

definition domainToAPIInvite :: "InviteRecord \<Rightarrow> Invite" where
  "domainToAPIInvite r =
     \<lparr>ai_UID = rec_UID r, ai_Status = rec_Status r,
      ai_Recipient =
        \<lparr>arcp_Name = rcp_Name (rec_Recipient r), arcp_Email = rcp_Email (rec_Recipient r),
         arcp_Username = rcp_Username (rec_Recipient r), arcp_Avatar = rcp_Avatar (rec_Recipient r)\<rparr>,
      ai_Inviter =
        \<lparr>ainv_Name = inv_Name (rec_Inviter r), ainv_Username = inv_Username (rec_Inviter r),
         ainv_Email = inv_Email (rec_Inviter r), ainv_Avatar = inv_Avatar (rec_Inviter r)\<rparr>,
      ai_Resource =
        \<lparr>ares_UID = res_UID (rec_Resource r), ares_Name = res_Name (rec_Resource r),
         ares_Type = res_Type (rec_Resource r), ares_ParentName = res_ParentName (rec_Resource r)\<rparr>,
      ai_Role = rec_Role r, ai_OrgName = rec_OrgName r, ai_ReturnURL = rec_ReturnURL r,
      ai_ExpirationDays = rec_ExpirationDays r, ai_CustomClaims = rec_CustomClaims r,
      ai_CreatedAt = rec_CreatedAt r, ai_ExpiresAt = rec_ExpiresAt r, ai_AcceptedAt = rec_AcceptedAt r,
      ai_AcceptedBy = rec_AcceptedBy r\<rparr>"

definition GetInvite :: "InviteStore \<Rightarrow> string \<Rightarrow> (goerr + Invite) prog" where
  "GetInvite store uid =
     (if uid = [] then Return (Inl (Errorf [W (Sentinel ErrInvalidRequest), T '': uid must not be empty'']))
      else bind (st_GetByUID store uid) (\<lambda>r. case r of
        Inl err \<Rightarrow> Return (Inl err)
      | Inr record \<Rightarrow> Return (Inr (domainToAPIInvite record))))"

definition GetInvitesByEmail :: "golib \<Rightarrow> InviteStore \<Rightarrow> string \<Rightarrow> (goerr + Invite list) prog" where
  "GetInvitesByEmail lib store email =
     (if email = [] then Return (Inl (Errorf [W (Sentinel ErrInvalidRequest), T '': email must not be empty'']))
      else
        bind (st_GetByEmail store (case lib_ParseAddress lib email of Inr address \<Rightarrow> address | Inl err \<Rightarrow> email))
          (\<lambda>r. case r of
             Inl err \<Rightarrow> Return (Inl err)
           | Inr records \<Rightarrow> Return (Inr (map domainToAPIInvite records))))"

end
