(* ===== verification/Acceptance.thy ===== *)
theory Acceptance
  imports Invite_Read
begin

text \<open>
  internal/service/acceptance.go: the acceptance use case. An event is honoured only with the
  signed token of the invite; every failure is silent (the handler returns nothing).
\<close>

record AcceptanceService =
  as_inviteStore :: InviteStore
  as_publisher :: EventPublisher
  as_tokenVerifier :: InviteTokenVerifier

definition NewAcceptanceService :: "InviteStore \<Rightarrow> EventPublisher \<Rightarrow> InviteTokenVerifier \<Rightarrow> AcceptanceService" where
  "NewAcceptanceService store publisher verifier =
     \<lparr>as_inviteStore = store, as_publisher = publisher, as_tokenVerifier = verifier\<rparr>"

section \<open>verifyAcceptance\<close>

definition rejected :: "string \<Rightarrow> goerr" where
  "rejected reason = Errorf [W (Sentinel ErrAcceptanceRejected), T '': '', T reason]"

definition verifyAcceptance :: "AcceptanceService \<Rightarrow> InviteAcceptedEvent \<Rightarrow> InviteRecord \<Rightarrow> time \<Rightarrow> goerr option prog" where
  "verifyAcceptance svc evt record now =
     (if evt_Token evt = [] then Return (Some (rejected ''event carries no invite token''))
      else if \<not> before now (rec_ExpiresAt record) then Return (Some (Sentinel ErrInviteExpired))
      else bind (as_tokenVerifier svc (evt_Token evt)) (\<lambda>r. case r of
        Inl err \<Rightarrow> Return (Some err)
      | Inr claims \<Rightarrow>
          if tc_InviteUID claims \<noteq> rec_UID record then
            Return (Some (rejected ''token invite_uid does not match invite record''))
          else if tc_Email claims \<noteq> rcp_Email (rec_Recipient record) then
            Return (Some (rejected ''token email does not match invite recipient''))
          else if rcp_Username (rec_Recipient record) \<noteq> []
                  \<and> evt_Username evt \<noteq> rcp_Username (rec_Recipient record) then
            Return (Some (rejected ''username does not match invite recipient username''))
          else Return None))"

section \<open>publishAccepted\<close>

definition publishAccepted :: "AcceptanceService \<Rightarrow> string \<Rightarrow> unit prog" where
  "publishAccepted svc inviteUID =
     bind (st_GetByUID (as_inviteStore svc) inviteUID) (\<lambda>r. case r of
       Inl err \<Rightarrow> Return ()
     | Inr record \<Rightarrow>
         let inv = (domainToAPIInvite record)\<lparr>ai_Status := ApiInviteStatusAccepted\<rparr> in
         (case marshalInviteServiceAcceptedEvent \<lparr>acc_Invite = inv\<rparr> of
            None \<Rightarrow> Return ()
          | Some data \<Rightarrow>
              bind (as_publisher svc InviteServiceAcceptedSubject data) (\<lambda>err. Return ())))"

section \<open>HandleInviteAccepted\<close>

definition HandleInviteAccepted :: "AcceptanceService \<Rightarrow> InviteAcceptedEvent \<Rightarrow> unit prog" where
  "HandleInviteAccepted svc evt =
     (if evt_InviteUID evt = [] \<or> evt_Username evt = [] then Return ()
      else bind (st_GetByUID (as_inviteStore svc) (evt_InviteUID evt)) (\<lambda>r. case r of
        Inl err \<Rightarrow> Return ()
      | Inr record \<Rightarrow>
          if rec_Status record = InviteStatusAccepted then Return ()
          else Now (\<lambda>now.
            bind (verifyAcceptance svc evt record now) (\<lambda>r. case r of
              Some err \<Rightarrow> Return ()
            | None \<Rightarrow>
                bind (st_MarkAccepted (as_inviteStore svc) (evt_InviteUID evt) (evt_Username evt) now) (\<lambda>r. case r of
                  Some err \<Rightarrow> Return ()
                | None \<Rightarrow> publishAccepted svc (evt_InviteUID evt))))))"

end
