(* ===== verification/Subscriptions.thy ===== *)
theory Subscriptions
  imports Nats_Client Nats_Connection Acceptance
begin

text \<open>
  cmd/invite-api/service: the conversion of requests, the handlers of the four subscriptions, and
  \<open>Start\<close>, which binds them or none. Deadlines of the handlers' contexts show only in the errors
  that the calls below them answer.
\<close>

section \<open>Conversion of requests (request\_mapping.go)\<close>

definition apiToModelRequest :: "ApiSendInviteRequest \<Rightarrow> SendInviteRequest" where
  "apiToModelRequest r =
     \<lparr>req_Recipient = map_option (\<lambda>p. \<lparr>rcp_Name = arcp_Name p, rcp_Email = arcp_Email p,
                                      rcp_Username = arcp_Username p, rcp_Avatar = arcp_Avatar p\<rparr>) (areq_Recipient r),
      req_Inviter = map_option (\<lambda>p. \<lparr>inv_Name = ainv_Name p, inv_Username = ainv_Username p,
                                    inv_Email = ainv_Email p, inv_Avatar = ainv_Avatar p\<rparr>) (areq_Inviter r),
      req_Resource = map_option (\<lambda>p. \<lparr>res_UID = ares_UID p, res_Name = ares_Name p,
                                     res_Type = ares_Type p, res_ParentName = ares_ParentName p\<rparr>) (areq_Resource r),
      req_RecipientEmail = areq_RecipientEmail r, req_RecipientName = areq_RecipientName r,
      req_InviterName = areq_InviterName r, req_ResourceUID = areq_ResourceUID r,
      req_ResourceName = areq_ResourceName r, req_ResourceType = areq_ResourceType r,
      req_Role = areq_Role r, req_ReturnURL = areq_ReturnURL r, req_OrgName = areq_OrgName r,
      req_ExpirationDays = areq_ExpirationDays r, req_CustomClaims = areq_CustomClaims r,
      req_RecipientHasAccount = areq_RecipientHasAccount r\<rparr>"

section \<open>Error codes and replies (subscriptions.go)\<close>

definition sendInviteErrorCode :: "goerr \<Rightarrow> string" where
  "sendInviteErrorCode err =
     (if errors_Is err ErrInvalidRequest then ''invalid_request''
      else if errors_Is err ErrEmailDispatchFailed then ''email_dispatch_failed''
      else ''internal_error'')"

text \<open>\<open>data, _ := json.Marshal(...)\<close>: the data of a failed encoding is nil.\<close>

definition orNil :: "string option \<Rightarrow> string" where
  "orNil d = (case d of Some s \<Rightarrow> s | None \<Rightarrow> [])"

definition replyError :: "natsMsg \<Rightarrow> string \<Rightarrow> unit prog" where
  "replyError m code =
     bind (Reply m (orNil (marshalSendInviteResponse \<lparr>sresp_InviteData = None, sresp_Error = code\<rparr>)))
       (\<lambda>err. Return ())"

definition replyGetInviteError :: "natsMsg \<Rightarrow> string \<Rightarrow> unit prog" where
  "replyGetInviteError m code =
     bind (Reply m (orNil (marshalGetInviteResponse \<lparr>gresp_Invite = None, gresp_Error = code\<rparr>)))
       (\<lambda>err. Return ())"

definition replyGetByEmailError :: "natsMsg \<Rightarrow> string \<Rightarrow> unit prog" where
  "replyGetByEmailError m code =
     bind (Reply m (orNil (marshalGetInvitesByEmailResponse \<lparr>eresp_Invites = None, eresp_Error = code\<rparr>)))
       (\<lambda>err. Return ())"

section \<open>Handlers (subscriptions.go)\<close>

record Server =
  srv_subscriber :: Subscriber
  srv_closeFn :: "lifeEvent list"
  srv_notifSvc :: NotificationService
  srv_acceptSvc :: AcceptanceService
  srv_readStore :: InviteStore

definition handleSendInvite :: "golib \<Rightarrow> Server \<Rightarrow> natsMsg \<Rightarrow> unit prog" where
  "handleSendInvite lib srv m =
     (case unmarshalSendInviteRequest (msg_Data m) of
        None \<Rightarrow> replyError m ''malformed_request''
      | Some apiReq \<Rightarrow>
          bind (HandleSendInvite lib (srv_notifSvc srv) (apiToModelRequest apiReq)) (\<lambda>r.
            let resp =
              (case r of
                 Inl handlerErr \<Rightarrow> \<lparr>sresp_InviteData = None, sresp_Error = sendInviteErrorCode handlerErr\<rparr>
               | Inr result \<Rightarrow>
                   \<lparr>sresp_InviteData = Some \<lparr>dat_UID = sir_InviteUID result, dat_Email = sir_RecipientEmail result,
                                            dat_ExpiresAt = sir_ExpiresAt result\<rparr>,
                    sresp_Error = []\<rparr>)
            in case marshalSendInviteResponse resp of
                 None \<Rightarrow> replyError m ''internal_error''
               | Some data \<Rightarrow> bind (Reply m data) (\<lambda>replyErr. Return ())))"

definition handleInviteAccepted :: "Server \<Rightarrow> natsMsg \<Rightarrow> unit prog" where
  "handleInviteAccepted srv m =
     (case unmarshalInviteAcceptedEvent (msg_Data m) of
        None \<Rightarrow> Return ()
      | Some evt \<Rightarrow> HandleInviteAccepted (srv_acceptSvc srv) evt)"

definition handleGetInvite :: "Server \<Rightarrow> natsMsg \<Rightarrow> unit prog" where
  "handleGetInvite srv m =
     (case unmarshalGetInviteRequest (msg_Data m) of
        None \<Rightarrow> replyGetInviteError m ''malformed_request''
      | Some req \<Rightarrow>
          bind (GetInvite (srv_readStore srv) (greq_UID req)) (\<lambda>r.
            let resp =
              (case r of
                 Inl err \<Rightarrow>
                   \<lparr>gresp_Invite = None,
                    gresp_Error = (if errors_Is err ErrInviteNotFound then ''not_found''
                                   else if errors_Is err ErrInvalidRequest then ''invalid_request''
                                   else ''internal_error'')\<rparr>
               | Inr invite \<Rightarrow> \<lparr>gresp_Invite = Some invite, gresp_Error = []\<rparr>)
            in case marshalGetInviteResponse resp of
                 None \<Rightarrow> replyGetInviteError m ''internal_error''
               | Some data \<Rightarrow> bind (Reply m data) (\<lambda>replyErr. Return ())))"

definition handleGetInvitesByEmail :: "golib \<Rightarrow> Server \<Rightarrow> natsMsg \<Rightarrow> unit prog" where
  "handleGetInvitesByEmail lib srv m =
     (case unmarshalGetInvitesByEmailRequest (msg_Data m) of
        None \<Rightarrow> replyGetByEmailError m ''malformed_request''
      | Some req \<Rightarrow>
          bind (GetInvitesByEmail lib (srv_readStore srv) (ereq_Email req)) (\<lambda>r. case r of
            Inl err \<Rightarrow>
              if errors_Is err ErrInvalidRequest then replyGetByEmailError m ''invalid_request''
              else replyGetByEmailError m ''internal_error''
          | Inr invites \<Rightarrow>
              (case marshalGetInvitesByEmailResponse \<lparr>eresp_Invites = Some invites, eresp_Error = []\<rparr> of
                 None \<Rightarrow> replyGetByEmailError m ''internal_error''
               | Some data \<Rightarrow> bind (Reply m data) (\<lambda>replyErr. Return ()))))"

text \<open>What a message on a subject runs; a message on another subject reaches no handler.\<close>

definition dispatchMsg :: "golib \<Rightarrow> Server \<Rightarrow> natsMsg \<Rightarrow> unit prog" where
  "dispatchMsg lib srv m =
     (if msg_Subject m = SendInviteSubject then handleSendInvite lib srv m
      else if msg_Subject m = InviteAcceptedSubject then handleInviteAccepted srv m
      else if msg_Subject m = GetInviteSubject then handleGetInvite srv m
      else if msg_Subject m = GetInvitesByEmailSubject then handleGetInvitesByEmail lib srv m
      else Return ())"

section \<open>Start (subscriptions.go)\<close>

definition subscriptionPlan :: "(string \<times> string \<times> string) list" where
  "subscriptionPlan =
     [(SendInviteSubject, ''invite-service-workers'', ''send-invite''),
      (InviteAcceptedSubject, ''invite-service-acceptance'', ''invite-accepted''),
      (GetInviteSubject, ''invite-service-get-invite'', ''get-invite''),
      (GetInvitesByEmailSubject, ''invite-service-get-by-email'', ''get-invites-by-email'')]"

text \<open>
  \<open>stopFuncs\<close> are the stop functions of the subscriptions bound so far; a failure calls them in the
  order they were bound.
\<close>

fun startFrom :: "Subscriber \<Rightarrow> (string \<times> string \<times> string) list \<Rightarrow> stopFunc list \<Rightarrow>
    (goerr + stopFunc list) \<times> lifeEvent list" where
  "startFrom sub [] stopFuncs = (Inr stopFuncs, [])"
| "startFrom sub ((subject, queue, name) # rest) stopFuncs =
     (case sub subject queue of
        (Inl err, evs) \<Rightarrow>
          (Inl (Errorf [T ''start subscription '', Q name, T '': '', W err]), evs @ concat stopFuncs)
      | (Inr stopSub, evs) \<Rightarrow>
          (case startFrom sub rest (stopFuncs @ [stopSub]) of (r, evs') \<Rightarrow> (r, evs @ evs')))"

definition Start :: "Server \<Rightarrow> (goerr + stopFunc list) \<times> lifeEvent list" where
  "Start srv = startFrom (srv_subscriber srv) subscriptionPlan []"

end
