(* ===== verification/Kv_Contract.thy ===== *)
theory Kv_Contract
  imports Effects
begin

text \<open>
  What the JetStream key-value bucket promises, as a locale over an environment and a view of it:
  for each key the revision of its last entry and its value, \<open>None\<close> after a delete or when there
  never was an entry (revision 0). A call that returns an error may still have taken effect
  (a lost acknowledgement). \<open>kv_reliable\<close> adds that calls succeed when they can, and idealises one
  answer: a key without a value is always \<open>ErrKeyNotFound\<close>, where nats.go refuses a key of
  other characters than it allows with \<open>ErrInvalidKey\<close> (a query for such a UID is answered by
  another error code there). Both are interpreted on an in-memory bucket, which the concrete runs use.
\<close>

type_synonym bucket = "string \<Rightarrow> nat \<times> string option"

section \<open>Calls on a bucket\<close>

text \<open>An update the server rejects because the revision is not the last one.\<close>

definition isRejection :: "liberr \<Rightarrow> bool" where
  "isRejection e \<longleftrightarrow> le_apiCode e = Some 10071 \<or> strContains (le_text e) ''wrong last sequence''"

text \<open>\<open>kvStep e K K'\<close>: a call and its answer are possible on the bucket K, and leave K'.\<close>

fun kvStep :: "event \<Rightarrow> bucket \<Rightarrow> bucket \<Rightarrow> bool" where
  "kvStep (EGet k (Inr (v, n))) K K' = (K' = K \<and> K k = (n, Some v))"
| "kvStep (EGet k (Inl e)) K K' = (K' = K \<and> (le_notFound e \<longrightarrow> snd (K k) = None))"
| "kvStep (EPut k v (Inr n)) K K' = (K' = K(k := (n, Some v)))"
| "kvStep (EPut k v (Inl e)) K K' = (K' = K \<or> (\<exists>n. K' = K(k := (n, Some v))))"
| "kvStep (EUpdate k v r (Inr n)) K K' = (fst (K k) = r \<and> K' = K(k := (n, Some v)))"
| "kvStep (EUpdate k v r (Inl e)) K K' =
     (K' = K \<or> \<not> isRejection e \<and> fst (K k) = r \<and> (\<exists>n. K' = K(k := (n, Some v))))"
| "kvStep (EDelete k None) K K' = (\<exists>n. K' = K(k := (n, None)))"
| "kvStep (EDelete k (Some e)) K K' =
     ((K' = K \<or> (\<exists>n. K' = K(k := (n, None)))) \<and> (le_notFound e \<longrightarrow> snd (K' k) = None))"
| "kvStep (EListKeys (Inr ks)) K K' = (K' = K \<and> (\<forall>k \<in> set ks. snd (K k) \<noteq> None))"
| "kvStep e K K' = (K' = K)"

fun kvTrace :: "event list \<Rightarrow> bucket \<Rightarrow> bucket \<Rightarrow> bool" where
  "kvTrace [] K K' = (K' = K)"
| "kvTrace (e # tr) K K' = (\<exists>K1. kvStep e K K1 \<and> kvTrace tr K1 K')"

lemma kvTrace_append: "kvTrace (tr @ tr') K K' \<longleftrightarrow> (\<exists>K1. kvTrace tr K K1 \<and> kvTrace tr' K1 K')"
  by (induction tr arbitrary: K) auto

lemma kvStep_noWrite: "kvStep e K K' \<Longrightarrow> \<not> isWrite e \<Longrightarrow> K' = K"
  by (cases "(e, K, K')" rule: kvStep.cases) auto

lemma kvTrace_noWrite: "kvTrace tr K K' \<Longrightarrow> noWrite tr \<Longrightarrow> K' = K"
  by (induction tr arbitrary: K) (auto dest: kvStep_noWrite)

section \<open>The contract\<close>

locale kv_contract =
  fixes env :: "'s env" and kv :: "'s \<Rightarrow> bucket"
  assumes now_kv: "env_now env s = (t, s') \<Longrightarrow> kv s' = kv s"
    and uuid_kv: "env_uuid env s = (u, s') \<Longrightarrow> kv s' = kv s"
    and ctxErr_kv: "env_ctxErr env s = (ce, s') \<Longrightarrow> kv s' = kv s"
    and range_kv: "env_range env m s = (m', s') \<Longrightarrow> kv s' = kv s"
    and request_kv: "env_request env c d s = (q, s') \<Longrightarrow> kv s' = kv s"
    and publish_kv: "env_publish env c d s = (pe, s') \<Longrightarrow> kv s' = kv s"
    and reply_kv: "env_reply env d s = (pe, s') \<Longrightarrow> kv s' = kv s"
    and audit_kv: "kv (env_audit env a s) = kv s"
    and get_kv: "env_get env k s = (g, s') \<Longrightarrow> kv s' = kv s"
    and get_found: "env_get env k s = (Inr (v, n), s') \<Longrightarrow> kv s k = (n, Some v)"
    and get_notFound: "env_get env k s = (Inl e, s') \<Longrightarrow> le_notFound e \<Longrightarrow> snd (kv s k) = None"
    and put_ok: "env_put env k v s = (Inr n, s') \<Longrightarrow> kv s' = (kv s)(k := (n, Some v))"
    and put_err: "env_put env k v s = (Inl e, s') \<Longrightarrow>
          kv s' = kv s \<or> (\<exists>n. kv s' = (kv s)(k := (n, Some v)))"
    and update_ok: "env_update env k v r s = (Inr n, s') \<Longrightarrow>
          fst (kv s k) = r \<and> kv s' = (kv s)(k := (n, Some v))"
    and update_err: "env_update env k v r s = (Inl e, s') \<Longrightarrow>
          kv s' = kv s \<or> fst (kv s k) = r \<and> (\<exists>n. kv s' = (kv s)(k := (n, Some v)))"
    and update_rejected: "env_update env k v r s = (Inl e, s') \<Longrightarrow>
          isRejection e \<Longrightarrow> kv s' = kv s"
    and delete_ok: "env_delete env k s = (None, s') \<Longrightarrow> \<exists>n. kv s' = (kv s)(k := (n, None))"
    and delete_err: "env_delete env k s = (Some e, s') \<Longrightarrow>
          kv s' = kv s \<or> (\<exists>n. kv s' = (kv s)(k := (n, None)))"
    and delete_notFound: "env_delete env k s = (Some e, s') \<Longrightarrow> le_notFound e \<Longrightarrow> snd (kv s' k) = None"
    and keys_kv: "env_keys env s = (kr, s') \<Longrightarrow> kv s' = kv s"
    and keys_live: "env_keys env s = (Inr ks, s') \<Longrightarrow> k \<in> set ks \<Longrightarrow> snd (kv s k) \<noteq> None"
    and keys_complete: "env_keys env s = (Inr ks, s') \<Longrightarrow> env_ctxErr env s' = (None, s'') \<Longrightarrow>
          snd (kv s k) \<noteq> None \<Longrightarrow> k \<in> set ks"


text \<open>The text of a UUID: hexadecimal digits and dashes.\<close>

definition uuidText :: "string \<Rightarrow> bool" where
  "uuidText u \<longleftrightarrow> u \<noteq> [] \<and> list_all (\<lambda>c. is_digit c \<or> 97 \<le> byte c \<and> byte c \<le> 102 \<or> byte c = 45) u"

lemma uuidText_valid: "uuidText u \<Longrightarrow> validUTF8 u"
  by (intro validUTF8_ascii) (auto simp: uuidText_def list_all_iff is_digit_def is_ascii_def)

locale kv_reliable = kv_contract +
  assumes get_live: "snd (kv s k) = Some v \<Longrightarrow> \<exists>s'. env_get env k s = (Inr (v, fst (kv s k)), s')"
    and get_dead: "snd (kv s k) = None \<Longrightarrow> \<exists>e s'. env_get env k s = (Inl e, s') \<and> le_notFound e"
    and put_total: "\<exists>n s'. env_put env k v s = (Inr n, s')"
    and update_total: "fst (kv s k) = r \<Longrightarrow> \<exists>n s'. env_update env k v r s = (Inr n, s')"
    and delete_total: "\<exists>s'. env_delete env k s = (None, s')"
    and keys_total: "\<exists>ks s'. env_keys env s = (Inr ks, s')"
    and ctxErr_none: "\<exists>s'. env_ctxErr env s = (None, s')"
    and uuid_text: "env_uuid env s = (u, s') \<Longrightarrow> uuidText u"

context kv_contract
begin

lemma call_kv:
  "env_get env k s = (g, s') \<Longrightarrow> kvStep (EGet k g) (kv s) (kv s')"
  "env_put env k x s = (p, s') \<Longrightarrow> kvStep (EPut k x p) (kv s) (kv s')"
  "env_update env k x r s = (p, s') \<Longrightarrow> kvStep (EUpdate k x r p) (kv s) (kv s')"
  "env_delete env k s = (d, s') \<Longrightarrow> kvStep (EDelete k d) (kv s) (kv s')"
  "env_keys env s = (ks, s') \<Longrightarrow> kvStep (EListKeys ks) (kv s) (kv s')"
proof -
  show "kvStep (EGet k g) (kv s) (kv s')" if "env_get env k s = (g, s')"
  proof (cases g)
    case (Inl e)
    with that show ?thesis using get_kv [OF that] get_notFound by auto
  next
    case (Inr y)
    obtain v n where y: "y = (v, n)" by (cases y)
    have "kv s k = (n, Some v)" by (rule get_found) (use that Inr y in simp)
    with Inr y show ?thesis using get_kv [OF that] by simp
  qed
  show "kvStep (EPut k x p) (kv s) (kv s')" if "env_put env k x s = (p, s')"
    using that put_ok put_err by (cases p) auto
  show "kvStep (EUpdate k x r p) (kv s) (kv s')" if "env_update env k x r s = (p, s')"
  proof (cases p)
    case (Inl e)
    have u: "env_update env k x r s = (Inl e, s')" using that Inl by simp
    show ?thesis using update_err [OF u] update_rejected [OF u] Inl by auto
  next
    case (Inr n)
    have "env_update env k x r s = (Inr n, s')" using that Inr by simp
    from update_ok [OF this] Inr show ?thesis by simp
  qed
  show "kvStep (EDelete k d) (kv s) (kv s')" if "env_delete env k s = (d, s')"
    using that delete_ok delete_err delete_notFound by (cases d) auto
  show "kvStep (EListKeys ks) (kv s) (kv s')" if "env_keys env s = (ks, s')"
    using that keys_kv [OF that] keys_live by (cases ks) auto
qed

text \<open>A run is an execution whose calls happen on the bucket one after the other.\<close>

definition answers :: "(event \<Rightarrow> bool) \<Rightarrow> bool" where
  "answers ok \<longleftrightarrow>
     (\<forall>k s g s'. env_get env k s = (g, s') \<longrightarrow> ok (EGet k g))
     \<and> (\<forall>k x s p s'. env_put env k x s = (p, s') \<longrightarrow> ok (EPut k x p))
     \<and> (\<forall>k x r s p s'. env_update env k x r s = (p, s') \<longrightarrow> ok (EUpdate k x r p))
     \<and> (\<forall>k s d s'. env_delete env k s = (d, s') \<longrightarrow> ok (EDelete k d))
     \<and> (\<forall>s ks s'. env_keys env s = (ks, s') \<longrightarrow> ok (EListKeys ks))
     \<and> (\<forall>s c s'. env_ctxErr env s = (c, s') \<longrightarrow> ok (ECtxErr c))
     \<and> (\<forall>s u s'. env_uuid env s = (u, s') \<longrightarrow> ok (EUUID u))
     \<and> (\<forall>t. ok (ENow t)) \<and> (\<forall>m x. ok (ERange m x))
     \<and> (\<forall>c d r. ok (ERequest c d r)) \<and> (\<forall>c d r. ok (EPublish c d r)) \<and> (\<forall>d r. ok (EReply d r))
     \<and> (\<forall>a. ok (EAudit a))"

lemma answers_calls:
  "answers ok \<Longrightarrow> env_get env k s = (g, s') \<Longrightarrow> ok (EGet k g)"
  "answers ok \<Longrightarrow> env_uuid env s = (u, s') \<Longrightarrow> ok (EUUID u)"
  "answers ok \<Longrightarrow> env_put env k x s = (p, s') \<Longrightarrow> ok (EPut k x p)"
  "answers ok \<Longrightarrow> env_update env k x r s = (p, s') \<Longrightarrow> ok (EUpdate k x r p)"
  "answers ok \<Longrightarrow> env_delete env k s = (d, s') \<Longrightarrow> ok (EDelete k d)"
  "answers ok \<Longrightarrow> env_keys env s = (ks, s') \<Longrightarrow> ok (EListKeys ks)"
  "answers ok \<Longrightarrow> env_ctxErr env s = (ce, s') \<Longrightarrow> ok (ECtxErr ce)"
  by (simp_all only: answers_def)

lemma answers_other:
  "answers ok \<Longrightarrow> ok (ENow t)" "answers ok \<Longrightarrow> ok (ERange m m')"
  "answers ok \<Longrightarrow> ok (ERequest c d q)" "answers ok \<Longrightarrow> ok (EPublish c d pe)" "answers ok \<Longrightarrow> ok (EReply d pe)"
  "answers ok \<Longrightarrow> ok (EAudit a)"
  by (simp_all only: answers_def)

definition traced :: "(event \<Rightarrow> bool) \<Rightarrow> 'a prog \<Rightarrow> 's \<Rightarrow> 'a \<Rightarrow> 's \<Rightarrow> bool" where
  "traced ok p s a s' \<longleftrightarrow> (\<exists>tr. exec p tr a \<and> kvTrace tr (kv s) (kv s') \<and> list_all ok tr)"

lemma traced_step:
  assumes "traced ok q s1 a s'" "\<And>tr. exec q tr a \<Longrightarrow> exec p (e # tr) a" "kvStep e (kv s) (kv s1)" "ok e"
  shows "traced ok p s a s'"
proof -
  obtain tr where "exec q tr a" "kvTrace tr (kv s1) (kv s')" "list_all ok tr"
    using assms(1) unfolding traced_def by blast
  then have "exec p (e # tr) a" "kvTrace (e # tr) (kv s) (kv s')" "list_all ok (e # tr)"
    using assms(2,3,4) by auto
  then show ?thesis unfolding traced_def by blast
qed

lemma traced_frames:
  "traced ok (f1 x1) s1 a s' \<Longrightarrow> kv s1 = kv s \<Longrightarrow> ok (ENow x1) \<Longrightarrow> traced ok (Now f1) s a s'"
  "traced ok (f2 x2) s1 a s' \<Longrightarrow> kv s1 = kv s \<Longrightarrow> ok (EUUID x2) \<Longrightarrow> traced ok (NewUUID f2) s a s'"
  "traced ok (f3 x3) s1 a s' \<Longrightarrow> kv s1 = kv s \<Longrightarrow> ok (ECtxErr x3) \<Longrightarrow> traced ok (CtxErr f3) s a s'"
  "traced ok (f4 x4) s1 a s' \<Longrightarrow> kv s1 = kv s \<Longrightarrow> ok (ERequest c d x4) \<Longrightarrow> traced ok (NatsRequest c d f4) s a s'"
  "traced ok (f5 x5) s1 a s' \<Longrightarrow> kv s1 = kv s \<Longrightarrow> ok (EPublish c d x5) \<Longrightarrow> traced ok (NatsPublish c d f5) s a s'"
  "traced ok (f6 x6) s1 a s' \<Longrightarrow> kv s1 = kv s \<Longrightarrow> ok (EReply d x6) \<Longrightarrow> traced ok (MsgReply d f6) s a s'"
  by (erule traced_step, rule exec.intros, assumption, simp, assumption)+

lemma traced_calls:
  "traced ok (f1 x1) s1 a s' \<Longrightarrow> env_get env k s = (x1, s1) \<Longrightarrow> ok (EGet k x1) \<Longrightarrow> traced ok (KvGet k f1) s a s'"
  "traced ok (f2 x2) s1 a s' \<Longrightarrow> env_keys env s = (x2, s1) \<Longrightarrow> ok (EListKeys x2) \<Longrightarrow> traced ok (KvListKeys f2) s a s'"
  "traced ok (f3 x3) s1 a s' \<Longrightarrow> env_put env k v s = (x3, s1) \<Longrightarrow> ok (EPut k v x3) \<Longrightarrow> traced ok (KvPut k v f3) s a s'"
  "traced ok (f4 x4) s1 a s' \<Longrightarrow> env_update env k v r s = (x4, s1) \<Longrightarrow> ok (EUpdate k v r x4) \<Longrightarrow>
   traced ok (KvUpdate k v r f4) s a s'"
  "traced ok (f5 x5) s1 a s' \<Longrightarrow> env_delete env k s = (x5, s1) \<Longrightarrow> ok (EDelete k x5) \<Longrightarrow> traced ok (KvDelete k f5) s a s'"
  by (erule traced_step, rule exec.intros, assumption, rule call_kv, assumption, assumption)+

lemmas frame_kv = now_kv uuid_kv ctxErr_kv request_kv publish_kv reply_kv

lemma run_traced: "answers ok \<Longrightarrow> run env p s = (a, s') \<Longrightarrow> traced ok p s a s'"
proof (induction p arbitrary: s)
  case (Return a)
  then show ?case by (auto simp: traced_def prog_simps intro!: exI [of _ "[]"])
next
  case (RangeMap m f)
  then obtain x s1 where x: "env_range env m s = (x, s1)" "run env (f (asOrder m x)) s1 = (a, s')"
    by (auto split: prod.splits)
  then have "traced ok (f (asOrder m x)) s1 a s'" using RangeMap by blast
  then show ?case
    by (rule traced_step [where e = "ERange m (asOrder m x)"])
       (use RangeMap(2) in \<open>auto intro: exec_RangeMap simp: range_kv [OF x(1)] answers_other\<close>)
next
  case (Audit x p)
  then have "traced ok p (env_audit env x s) a s'" by simp
  then show ?case
    by (rule traced_step [where e = "EAudit x"])
       (use Audit(2) in \<open>auto intro: exec_Audit simp: audit_kv answers_other\<close>)
qed (clarsimp split: prod.splits, blast intro: traced_calls traced_frames answers_calls answers_other
       dest: frame_kv)+

lemma run_trace:
  "run env p s = (a, s') \<Longrightarrow> \<exists>tr. exec p tr a \<and> kvTrace tr (kv s) (kv s')"
  by (drule run_traced [of "\<lambda>_. True", rotated]) (auto simp: traced_def answers_def)

lemma run_noWrite:
  assumes "run env p s = (a, s')" "\<And>tr a. exec p tr a \<Longrightarrow> noWrite tr"
  shows "kv s' = kv s"
  using run_trace [OF assms(1)] assms(2) kvTrace_noWrite by blast

end

text \<open>On a reliable bucket no call fails but a read of a dead key and an update that lost a race.\<close>

fun reliableEvent :: "event \<Rightarrow> bool" where
  "reliableEvent (EGet k (Inl e)) = le_notFound e"
| "reliableEvent (EPut k v (Inl e)) = False"
| "reliableEvent (EDelete k (Some e)) = False"
| "reliableEvent (EListKeys (Inl e)) = False"
| "reliableEvent (ECtxErr (Some e)) = False"
| "reliableEvent (EUUID u) = uuidText u"
| "reliableEvent _ = True"

context kv_reliable
begin

lemma answers_reliable: "answers reliableEvent"
proof -
  have "reliableEvent (EGet k g)" if "env_get env k s = (g, s')" for k s g s'
    using that get_live [of s k] get_dead [of s k] by (cases "snd (kv s k)"; cases g) auto
  moreover have "reliableEvent (EPut k x p)" if "env_put env k x s = (p, s')" for k x s p s'
    using that put_total [of k x s] by auto
  moreover have "reliableEvent (EDelete k d)" if "env_delete env k s = (d, s')" for k s d s'
    using that delete_total [of k s] by auto
  moreover have "reliableEvent (EListKeys ks)" if "env_keys env s = (ks, s')" for s ks s'
    using that keys_total [of s] by auto
  moreover have "reliableEvent (ECtxErr c)" if "env_ctxErr env s = (c, s')" for s c s'
    using that ctxErr_none [of s] by auto
  ultimately show ?thesis unfolding answers_def using uuid_text by simp
qed

lemma run_reliable:
  "run env p s = (a, s') \<Longrightarrow> \<exists>tr. exec p tr a \<and> kvTrace tr (kv s) (kv s') \<and> list_all reliableEvent tr"
  using run_traced [OF answers_reliable] unfolding traced_def .

end

section \<open>An in-memory bucket\<close>

text \<open>
  Entries by key, newest value and revision; the next revision; the clock, a counter for UUIDs, the
  reply the email service gives, and what was sent and replied.
\<close>

record mem =
  mem_entries :: "(string \<times> nat \<times> string option) list"
  mem_next :: nat
  mem_clock :: time
  mem_uuids :: nat
  mem_answer :: string
  mem_sent :: "(string \<times> string) list"
  mem_replies :: "string list"

fun entry_of :: "(string \<times> nat \<times> string option) list \<Rightarrow> string \<Rightarrow> nat \<times> string option" where
  "entry_of [] k = (0, None)"
| "entry_of ((k', e) # es) k = (if k' = k then e else entry_of es k)"

definition mem_kv :: "mem \<Rightarrow> string \<Rightarrow> nat \<times> string option" where
  "mem_kv s = entry_of (mem_entries s)"

definition keyNotFound :: liberr where
  "keyNotFound = \<lparr>le_notFound = True, le_apiCode = None, le_text = ''nats: key not found''\<rparr>"

definition wrongLastSequence :: liberr where
  "wrongLastSequence = \<lparr>le_notFound = False, le_apiCode = Some 10071, le_text = ''nats: API error: wrong last sequence''\<rparr>"

definition mem_write :: "string \<Rightarrow> string option \<Rightarrow> mem \<Rightarrow> mem" where
  "mem_write k v s =
     s\<lparr>mem_entries := (k, mem_next s, v) # filter (\<lambda>e. fst e \<noteq> k) (mem_entries s), mem_next := mem_next s + 1\<rparr>"

definition mem_env :: "mem env" where
  "mem_env =
     \<lparr>env_now = (\<lambda>s. (mem_clock s, s)),
      env_uuid = (\<lambda>s. (showNat (mem_uuids s), s\<lparr>mem_uuids := mem_uuids s + 1\<rparr>)),
      env_ctxErr = (\<lambda>s. (None, s)),
      env_range = (\<lambda>m s. (m, s)),
      env_get = (\<lambda>k s. (case mem_kv s k of (r, Some v) \<Rightarrow> Inr (v, r) | (r, None) \<Rightarrow> Inl keyNotFound, s)),
      env_put = (\<lambda>k v s. (Inr (mem_next s), mem_write k (Some v) s)),
      env_update = (\<lambda>k v r s. if fst (mem_kv s k) = r then (Inr (mem_next s), mem_write k (Some v) s)
                               else (Inl wrongLastSequence, s)),
      env_delete = (\<lambda>k s. (None, mem_write k None s)),
      env_keys = (\<lambda>s. (Inr (map fst (filter (\<lambda>e. snd (mem_kv s (fst e)) \<noteq> None) (mem_entries s))), s)),
      env_request = (\<lambda>c d s. (Inr (mem_answer s), s\<lparr>mem_sent := mem_sent s @ [(c, d)]\<rparr>)),
      env_publish = (\<lambda>c d s. (None, s\<lparr>mem_sent := mem_sent s @ [(c, d)]\<rparr>)),
      env_reply = (\<lambda>d s. (None, s\<lparr>mem_replies := mem_replies s @ [d]\<rparr>)),
      env_audit = (\<lambda>a s. s)\<rparr>"

definition mem_empty :: mem where
  "mem_empty =
     \<lparr>mem_entries = [], mem_next = 1, mem_clock = 1767225600000000000, mem_uuids = 1,
      mem_answer = [], mem_sent = [], mem_replies = []\<rparr>"

lemma entry_of_filter: "k' \<noteq> k \<Longrightarrow> entry_of (filter (\<lambda>e. fst e \<noteq> k) es) k' = entry_of es k'"
  by (induction es) auto

lemma mem_kv_write [simp]: "mem_kv (mem_write k v s) = (mem_kv s)(k := (mem_next s, v))"
  by (auto simp: mem_kv_def mem_write_def entry_of_filter)

lemma uuidText_showNat: "uuidText (showNat n)"
  using showNat_digits [of n] by (auto simp: uuidText_def list_all_iff)

lemma mem_kv_update [simp]:
  "mem_kv (s\<lparr>mem_sent := x\<rparr>) = mem_kv s" "mem_kv (s\<lparr>mem_replies := y\<rparr>) = mem_kv s"
  "mem_kv (s\<lparr>mem_uuids := z\<rparr>) = mem_kv s" "mem_kv (s\<lparr>mem_clock := t\<rparr>) = mem_kv s"
  by (simp_all add: mem_kv_def)

lemma entry_of_live: "snd (entry_of es k) \<noteq> None \<Longrightarrow> \<exists>e. (k, e) \<in> set es"
  by (induction es k rule: entry_of.induct) (auto split: if_splits)

lemma mem_keys_live: "snd (mem_kv s k) \<noteq> None \<Longrightarrow>
  k \<in> set (map fst (filter (\<lambda>e. snd (mem_kv s (fst e)) \<noteq> None) (mem_entries s)))"
  using entry_of_live [of "mem_entries s" k] by (force simp: mem_kv_def)

interpretation mem: kv_reliable mem_env mem_kv
proof unfold_locales
  fix s k ks s' s''
  assume "env_keys mem_env s = (Inr ks, s')" "snd (mem_kv s k) \<noteq> None"
  then show "k \<in> set ks" using mem_keys_live by (force simp: mem_env_def)
qed (auto simp: mem_env_def keyNotFound_def isRejection_def uuidText_showNat split: list.splits prod.splits option.splits if_splits)

lemma mem_contract: "kv_contract mem_env mem_kv"
  by unfold_locales

lemma mem_reliable: "kv_reliable mem_env mem_kv"
  by unfold_locales

end
