(* ===== verification/Go_Base64.thy ===== *)
theory Go_Base64
  imports Prelude
begin

text \<open>
  encoding/base64 as the repository uses it: \<open>base64.RawURLEncoding.EncodeToString\<close>, no padding,
  alphabet A-Z a-z 0-9 \<open>-\<close> \<open>_\<close>. It is injective and its output has no other character.
\<close>

fun sextets :: "nat list \<Rightarrow> nat list" where
  "sextets (a # b # c # r) =
     a div 4 # ((a mod 4) * 16 + b div 16) # ((b mod 16) * 4 + c div 64) # c mod 64 # sextets r"
| "sextets [a, b] = [a div 4, (a mod 4) * 16 + b div 16, (b mod 16) * 4]"
| "sextets [a] = [a div 4, (a mod 4) * 16]"
| "sextets [] = []"

definition urlChar :: "nat \<Rightarrow> char" where
  "urlChar n =
     (if n < 26 then chr (65 + n)
      else if n < 52 then chr (97 + (n - 26))
      else if n < 62 then chr (48 + (n - 52))
      else if n = 62 then chr 45 else chr 95)"

definition rawURLEncode :: "string \<Rightarrow> string" where
  "rawURLEncode s = map urlChar (sextets (map byte s))"

section \<open>Injectivity\<close>

fun octets :: "nat list \<Rightarrow> nat list" where
  "octets (w # x # y # z # r) =
     (w * 4 + x div 16) # ((x mod 16) * 16 + y div 4) # ((y mod 4) * 64 + z) # octets r"
| "octets [w, x, y] = [w * 4 + x div 16, (x mod 16) * 16 + y div 4]"
| "octets [w, x] = [w * 4 + x div 16]"
| "octets _ = []"

lemma pack_mod: "b < (n::nat) \<Longrightarrow> (a * n + b) mod n = b"
  by simp

lemma pack_div: "b < (n::nat) \<Longrightarrow> (a * n + b) div n = a"
  by simp

lemma octets_sextets: "\<forall>n \<in> set ns. n < 256 \<Longrightarrow> octets (sextets ns) = ns"
proof (induction ns rule: sextets.induct)
  case (1 a b c r)
  have "b div 16 < 16" "c div 64 < 4" using 1(2) by auto
  then have "((a mod 4) * 16 + b div 16) div 16 = a mod 4" "((a mod 4) * 16 + b div 16) mod 16 = b div 16"
    "((b mod 16) * 4 + c div 64) div 4 = b mod 16" "((b mod 16) * 4 + c div 64) mod 4 = c div 64"
    by (simp_all only: pack_mod pack_div)
  with 1 show ?case by simp
next
  case (2 a b)
  have "b div 16 < 16" using 2 by auto
  then have "((a mod 4) * 16 + b div 16) div 16 = a mod 4" "((a mod 4) * 16 + b div 16) mod 16 = b div 16"
    by (simp_all only: pack_mod pack_div)
  then show ?case by simp
qed auto

lemma sextets_bound: "\<forall>n \<in> set ns. n < 256 \<Longrightarrow> \<forall>m \<in> set (sextets ns). m < 64"
proof (induction ns rule: sextets.induct)
  case (1 a b c r)
  then have "a div 4 < 64" "b div 16 < 16" "c div 64 < 4" "a mod 4 < 4" "b mod 16 < 16" by auto
  with 1 show ?case by auto
next
  case (2 a b)
  then have "a div 4 < 64" "b div 16 < 16" "a mod 4 < 4" "b mod 16 < 16" by auto
  then show ?case by auto
qed auto

lemma byte_urlChar:
  "n < 64 \<Longrightarrow> byte (urlChar n) =
     (if n < 26 then 65 + n else if n < 52 then 71 + n else if n < 62 then n - 4 else if n = 62 then 45 else 95)"
  by (auto simp: urlChar_def)

lemma urlChar_inj: "inj_on urlChar {n. n < 64}"
proof (rule inj_onI)
  fix m n assume "m \<in> {n. n < 64}" "n \<in> {n. n < 64}" "urlChar m = urlChar n"
  then have "byte (urlChar m) = byte (urlChar n)" "m < 64" "n < 64" by auto
  then show "m = n" by (simp add: byte_urlChar split: if_splits)
qed

theorem rawURLEncode_inject: "rawURLEncode s = rawURLEncode t \<longleftrightarrow> s = t"
proof
  assume eq: "rawURLEncode s = rawURLEncode t"
  have o: "octets (sextets (map byte u)) = map byte u" for u
    by (rule octets_sextets) auto
  have "set (sextets (map byte u)) \<subseteq> {n. n < 64}" for u
    using sextets_bound [of "map byte u"] by auto
  then have "inj_on urlChar (set (sextets (map byte s)) \<union> set (sextets (map byte t)))"
    by (intro inj_on_subset [OF urlChar_inj] Un_least)
  with eq have "sextets (map byte s) = sextets (map byte t)"
    unfolding rawURLEncode_def by (rule map_inj_on)
  then have "map byte s = map byte t"
    using o [of s] o [of t] by argo
  moreover have "inj byte" by (rule injI) simp
  ultimately show "s = t" by (simp add: inj_map_eq_map)
qed simp

definition isUrlSafe :: "char \<Rightarrow> bool" where
  "isUrlSafe c \<longleftrightarrow>
     65 \<le> byte c \<and> byte c \<le> 90 \<or> 97 \<le> byte c \<and> byte c \<le> 122 \<or> is_digit c \<or> byte c = 45 \<or> byte c = 95"

lemma rawURLEncode_safe: "list_all isUrlSafe (rawURLEncode s)"
proof -
  have "isUrlSafe (urlChar n)" if "n < 64" for n
    using byte_urlChar [OF that] that by (auto simp: isUrlSafe_def is_digit_def)
  moreover have "\<forall>m \<in> set (sextets (map byte s)). m < 64"
    by (rule sextets_bound) (auto simp: byte_def)
  ultimately show ?thesis by (auto simp: rawURLEncode_def list_all_iff)
qed

end
