(* ===== verification/Invite_Repository.thy ===== *)
theory Invite_Repository
  imports Ports Kv_Contract Go_Base64
begin

text \<open>
  internal/infrastructure/nats/invite\_repository.go: the invite store on a JetStream key-value
  bucket. A record is stored as JSON under its UID; for each record the key
  \<open>index/email/<base64 of the email>/<uid>\<close> holds the UID. The argument \<open>u\<close> is the Unicode
  lower case table of \<open>strings.ToLower\<close>.
\<close>

named_theorems repo_defs \<open>operations of the repository\<close>

section \<open>Keys\<close>

definition normalizeEmail :: "(nat \<Rightarrow> nat) \<Rightarrow> string \<Rightarrow> string" where
  "normalizeEmail u email = toLower u (trimSpace email)"

definition encodeEmailForKey :: "(nat \<Rightarrow> nat) \<Rightarrow> string \<Rightarrow> string" where
  "encodeEmailForKey u email = rawURLEncode (normalizeEmail u email)"

definition emailIndexKey :: "(nat \<Rightarrow> nat) \<Rightarrow> string \<Rightarrow> string \<Rightarrow> string" where
  "emailIndexKey u email uid = emailIndexPrefix @ encodeEmailForKey u email @ ''/'' @ uid"

section \<open>Operations\<close>

text \<open>An error of encoding/json: the code wraps it and never looks into it.\<close>

definition jsonError :: goerr where
  "jsonError = LibErr \<lparr>le_notFound = False, le_apiCode = None, le_text = ''json''\<rparr>"

definition Create :: "(nat \<Rightarrow> nat) \<Rightarrow> InviteRecord \<Rightarrow> goerr option prog" where
  "Create u record =
     (case marshalInviteRecord record of
        None \<Rightarrow> Return (Some (newUnexpected ''invite_repository: marshal invite record'' (Some jsonError)))
      | Some data \<Rightarrow>
          KvPut (rec_UID record) data (\<lambda>r. case r of
            Inl err \<Rightarrow> Return (Some (newServiceUnavailable ''invite_repository: put invite record'' (Some (LibErr err))))
          | Inr _ \<Rightarrow>
              KvPut (emailIndexKey u (rcp_Email (rec_Recipient record)) (rec_UID record)) (rec_UID record) (\<lambda>r. case r of
                Inl err \<Rightarrow>
                  KvDelete (rec_UID record) (\<lambda>delErr.
                    Return (Some (newServiceUnavailable ''invite_repository: put email index'' (Some (LibErr err)))))
              | Inr _ \<Rightarrow> Return None)))"

definition GetByUID :: "string \<Rightarrow> (goerr + InviteRecord) prog" where
  "GetByUID uid =
     KvGet uid (\<lambda>r. case r of
       Inl err \<Rightarrow>
         Return (Inl (if le_notFound err then Sentinel ErrInviteNotFound
                      else newServiceUnavailable ''invite_repository: get invite by uid'' (Some (LibErr err))))
     | Inr (value, revision) \<Rightarrow>
         Return (case unmarshalInviteRecord value of
                   None \<Rightarrow> Inl (newUnexpected ''invite_repository: unmarshal invite record'' (Some jsonError))
                 | Some record \<Rightarrow> Inr record))"

text \<open>The loop over the UIDs of the index; \<open>records\<close> is what it has appended so far.\<close>

fun loadRecords :: "string list \<Rightarrow> InviteRecord list \<Rightarrow> (goerr + InviteRecord list) prog" where
  "loadRecords [] records = Return (Inr records)"
| "loadRecords (uid # uids) records =
     bind (GetByUID uid) (\<lambda>r. case r of
       Inl err \<Rightarrow> if errors_Is err ErrInviteNotFound then loadRecords uids records else Return (Inl err)
     | Inr record \<Rightarrow> loadRecords uids (records @ [record]))"

definition GetByEmail :: "(nat \<Rightarrow> nat) \<Rightarrow> string \<Rightarrow> (goerr + InviteRecord list) prog" where
  "GetByEmail u email =
     (let encoded = encodeEmailForKey u email; pre = emailIndexPrefix @ encoded @ ''/'' in
      KvListKeys (\<lambda>r. case r of
        Inl err \<Rightarrow> Return (Inl (newServiceUnavailable ''invite_repository: list keys for email lookup'' (Some (LibErr err))))
      | Inr keys \<Rightarrow>
          let inviteUIDs = map (\<lambda>key. trimPrefix key pre) (filter (\<lambda>key. hasPrefix key pre) keys) in
          CtxErr (\<lambda>c. case c of
            Some ctxErr \<Rightarrow>
              Return (Inl (newServiceUnavailable
                ''invite_repository: get_by_email scan interrupted by context deadline'' (Some (LibErr ctxErr))))
          | None \<Rightarrow> if inviteUIDs = [] then Return (Inr []) else loadRecords inviteUIDs [])))"

definition maxMarkAcceptedRetries :: nat where
  "maxMarkAcceptedRetries = 3"

definition isRevisionMismatch :: "liberr \<Rightarrow> bool" where
  "isRevisionMismatch err \<longleftrightarrow> le_apiCode err = Some 10071 \<or> strContains (le_text err) ''wrong last sequence''"

lemma isRevisionMismatch_rejection: "isRevisionMismatch = isRejection"
  by (simp add: isRevisionMismatch_def isRejection_def fun_eq_iff)

text \<open>
  The retry loop with \<open>n\<close> attempts left; the present attempt has the index
  \<open>maxMarkAcceptedRetries - n\<close>. The clock is read only when \<open>at\<close> is before the expiry.
\<close>

primrec markAttempts :: "nat \<Rightarrow> string \<Rightarrow> string \<Rightarrow> time \<Rightarrow> goerr option prog" where
  "markAttempts 0 uid username at =
     Return (Some (newServiceUnavailable ''invite_repository: mark_accepted: retries exhausted'' None))"
| "markAttempts (Suc n) uid username at =
     (let attempt = maxMarkAcceptedRetries - Suc n in
      KvGet uid (\<lambda>r. case r of
        Inl err \<Rightarrow>
          Return (Some (if le_notFound err then Sentinel ErrInviteNotFound
                        else newServiceUnavailable ''invite_repository: get invite for mark_accepted'' (Some (LibErr err))))
      | Inr (value, revision) \<Rightarrow>
          (case unmarshalInviteRecord value of
             None \<Rightarrow> Return (Some (newUnexpected ''invite_repository: unmarshal invite for mark_accepted'' (Some jsonError)))
           | Some record \<Rightarrow>
               if rec_Status record = InviteStatusAccepted then Return (Some (Sentinel ErrAlreadyAccepted))
               else if \<not> before at (rec_ExpiresAt record) then Return (Some (Sentinel ErrInviteExpired))
               else Now (\<lambda>now.
                 if \<not> before now (rec_ExpiresAt record) then Return (Some (Sentinel ErrInviteExpired))
                 else
                   (case marshalInviteRecord (acceptRecord record username at) of
                      None \<Rightarrow> Return (Some (newUnexpected ''invite_repository: marshal invite for mark_accepted'' (Some jsonError)))
                    | Some data \<Rightarrow>
                        KvUpdate uid data revision (\<lambda>r. case r of
                          Inr _ \<Rightarrow> Return None
                        | Inl updateErr \<Rightarrow>
                            if isRevisionMismatch updateErr \<and> attempt < maxMarkAcceptedRetries - 1
                            then markAttempts n uid username at
                            else Return (Some (newServiceUnavailable
                              (''invite_repository: update invite for mark_accepted (attempt '' @ showNat (attempt + 1) @ '')'')
                              (Some (LibErr updateErr))))))))))"

definition MarkAccepted :: "string \<Rightarrow> string \<Rightarrow> time \<Rightarrow> goerr option prog" where
  "MarkAccepted uid username at = markAttempts maxMarkAcceptedRetries uid username at"

definition DeleteInvite :: "(nat \<Rightarrow> nat) \<Rightarrow> string \<Rightarrow> goerr option prog" where
  "DeleteInvite u uid =
     KvGet uid (\<lambda>r. case r of
       Inl err \<Rightarrow>
         Return (Some (if le_notFound err then Sentinel ErrInviteNotFound
                       else newServiceUnavailable ''invite_repository: get invite for delete'' (Some (LibErr err))))
     | Inr (value, revision) \<Rightarrow>
         (case unmarshalInviteRecord value of
            None \<Rightarrow> Return (Some (newUnexpected ''invite_repository: unmarshal invite for delete'' (Some jsonError)))
          | Some record \<Rightarrow>
              KvDelete uid (\<lambda>r. case r of
                Some err \<Rightarrow>
                  if \<not> le_notFound err
                  then Return (Some (newServiceUnavailable ''invite_repository: delete invite record'' (Some (LibErr err))))
                  else KvDelete (emailIndexKey u (rcp_Email (rec_Recipient record)) uid) (\<lambda>_. Return None)
              | None \<Rightarrow> KvDelete (emailIndexKey u (rcp_Email (rec_Recipient record)) uid) (\<lambda>_. Return None))))"

definition NATSInviteRepository :: "(nat \<Rightarrow> nat) \<Rightarrow> InviteStore" where
  "NATSInviteRepository u =
     \<lparr>st_Create = Create u, st_GetByUID = GetByUID, st_GetByEmail = GetByEmail u,
      st_MarkAccepted = MarkAccepted, st_Delete = DeleteInvite u\<rparr>"

lemmas [repo_defs] = Create_def GetByUID_def GetByEmail_def MarkAccepted_def DeleteInvite_def

lemma NATSInviteRepository_simps [simp]:
  "st_Create (NATSInviteRepository u) = Create u" "st_GetByUID (NATSInviteRepository u) = GetByUID"
  "st_GetByEmail (NATSInviteRepository u) = GetByEmail u" "st_MarkAccepted (NATSInviteRepository u) = MarkAccepted"
  "st_Delete (NATSInviteRepository u) = DeleteInvite u"
  by (simp_all add: NATSInviteRepository_def)

lemma noSentinel_jsonError [simp]: "noSentinel jsonError"
  by (simp add: jsonError_def)

end
