(* ===== verification/Auth.thy ===== *)
theory Auth
  imports Ports
begin

text \<open>
  internal/infrastructure/auth: the generator of signed invite links and the verifier of invite
  tokens. The JWT library is the argument \<open>jwt\<close>: signing of a set of claims and parsing of a
  token under options, at the time the library reads from the clock.
\<close>

section \<open>The JWT library\<close>

text \<open>Dynamic values of claims as far as the code tells them apart.\<close>

datatype claim = ClaimStr string | ClaimStrs "string list" | ClaimInt int | ClaimOther

type_synonym claims = "(string \<times> claim) list"

record jwtopts =
  opt_ValidMethods :: "string list"
  opt_Issuer :: string
  opt_Audience :: string
  opt_ExpirationRequired :: bool
  opt_IssuedAt :: bool
  opt_Leeway :: int

record jwtlib =
  jwt_SignedString :: "string \<Rightarrow> string \<Rightarrow> claims \<Rightarrow> liberr + string"
  jwt_ParseWithClaims :: "jwtopts \<Rightarrow> string \<Rightarrow> time \<Rightarrow> string \<Rightarrow> liberr + claims"

section \<open>Constants (generator.go, verifier.go)\<close>

definition tokenTTL :: int where "tokenTTL = 30 * 24 * nsPerHour"
definition maxExpirationDays :: int where "maxExpirationDays = 90"
definition tokenIssuer :: string where "tokenIssuer = ''lfx-v2-invite-service''"
definition tokenAudience :: string where "tokenAudience = ''lfx-self-serve''"
definition maxCustomClaims :: nat where "maxCustomClaims = 16"
definition maxCustomClaimKeyLen :: nat where "maxCustomClaimKeyLen = 64"
definition maxCustomClaimValueLen :: nat where "maxCustomClaimValueLen = 1024"
definition tokenLeeway :: int where "tokenLeeway = 60 * nsPerSecond"

definition reservedClaims :: "string list" where
  "reservedClaims =
     [''iss'', ''aud'', ''iat'', ''nbf'', ''exp'', ''jti'', ''sub'',
      ''invite_uid'', ''email'', ''return_url'', ''resource_uid'',
      ''resource_type'', ''role'']"

section \<open>LinkGenerator.Generate\<close>

text \<open>The claims the service sets itself.\<close>

definition serviceClaims :: "time \<Rightarrow> time \<Rightarrow> string \<Rightarrow> LinkPayload \<Rightarrow> claims" where
  "serviceClaims now expiresAt inviteUID p =
     foldl (\<lambda>m (k, v). map_put m k v) []
       ([(''iss'', ClaimStr tokenIssuer), (''aud'', ClaimStrs [tokenAudience]),
         (''iat'', ClaimInt (unixSeconds now)), (''nbf'', ClaimInt (unixSeconds now)),
         (''exp'', ClaimInt (unixSeconds expiresAt)), (''jti'', ClaimStr inviteUID),
         (''invite_uid'', ClaimStr inviteUID), (''email'', ClaimStr (lp_RecipientEmail p)),
         (''return_url'', ClaimStr (lp_DestinationURL p)), (''resource_uid'', ClaimStr (lp_ResourceUID p)),
         (''role'', ClaimStr (lp_Role p))]
        @ (if lp_ResourceType p \<noteq> [] then [(''resource_type'', ClaimStr (lp_ResourceType p))] else []))"

text \<open>The loop over the custom claims, in the order of the range.\<close>

fun addCustomClaims :: "gomap \<Rightarrow> claims \<Rightarrow> gomap \<Rightarrow> goerr + (claims \<times> gomap)" where
  "addCustomClaims [] claims accepted = Inr (claims, accepted)"
| "addCustomClaims ((k, v) # kvs) claims accepted =
     (if maxCustomClaimKeyLen < length k then
        Inl (Errorf [W (Sentinel ErrInvalidCustomClaims), T '': key '', Q k, T '' exceeds max length ('',
                     D (int (length k)), T '' > '', D (int maxCustomClaimKeyLen), T '')''])
      else if maxCustomClaimValueLen < length v then
        Inl (Errorf [W (Sentinel ErrInvalidCustomClaims), T '': value for key '', Q k, T '' exceeds max length ('',
                     D (int (length v)), T '' > '', D (int maxCustomClaimValueLen), T '')''])
      else if k \<in> set reservedClaims then addCustomClaims kvs claims accepted
      else addCustomClaims kvs (map_put claims k (ClaimStr v)) (map_put accepted k v))"

definition tokenLifetime :: "int \<Rightarrow> int" where
  "tokenLifetime expirationDays =
     (if expirationDays > 0
      then (if expirationDays > maxExpirationDays then maxExpirationDays else expirationDays) * 24 * nsPerHour
      else tokenTTL)"

definition Generate :: "jwtlib \<Rightarrow> string \<Rightarrow> string \<Rightarrow> LinkGenerator" where
  "Generate jwt secret inviteLinkBaseURL p =
     Now (\<lambda>now. NewUUID (\<lambda>inviteUID.
       let expiresAt = addDur now (tokenLifetime (lp_ExpirationDays p));
           claims = serviceClaims now expiresAt inviteUID p
       in if maxCustomClaims < length (lp_CustomClaims p) then
            Return (Inl (Errorf [W (Sentinel ErrInvalidCustomClaims), T '': too many entries ('',
              D (int (length (lp_CustomClaims p))), T '' > '', D (int maxCustomClaims), T '')'']))
          else RangeMap (lp_CustomClaims p) (\<lambda>kvs.
            case addCustomClaims kvs claims [] of
              Inl err \<Rightarrow> Return (Inl err)
            | Inr (claims', acceptedClaims) \<Rightarrow>
                (case jwt_SignedString jwt ''HS256'' secret claims' of
                   Inl err \<Rightarrow> Return (Inl (Errorf [T ''sign invite token: '', W (LibErr err)]))
                 | Inr signed \<Rightarrow>
                     Return (Inr \<lparr>gl_Link = inviteLinkBaseURL @ ''/invite?token='' @ signed,
                                  gl_InviteUID = inviteUID, gl_ExpiresAt = expiresAt,
                                  gl_AcceptedClaims = acceptedClaims\<rparr>)))))"

text \<open>A \<open>LinkGenerator\<close> and a \<open>TokenVerifier\<close> hold what their constructors are given.\<close>

definition NewLinkGenerator :: "jwtlib \<Rightarrow> string \<Rightarrow> string \<Rightarrow> LinkGenerator" where
  "NewLinkGenerator jwt secret inviteLinkBaseURL = Generate jwt secret inviteLinkBaseURL"

section \<open>TokenVerifier.Verify\<close>

definition verifyOpts :: jwtopts where
  "verifyOpts =
     \<lparr>opt_ValidMethods = [''HS256''], opt_Issuer = tokenIssuer, opt_Audience = tokenAudience,
      opt_ExpirationRequired = True, opt_IssuedAt = True, opt_Leeway = tokenLeeway\<rparr>"

text \<open>\<open>s, _ := claims[k].(string)\<close>\<close>

definition claimString :: "claims \<Rightarrow> string \<Rightarrow> string" where
  "claimString claims k = (case map_of claims k of Some (ClaimStr s) \<Rightarrow> s | _ \<Rightarrow> [])"

definition Verify :: "jwtlib \<Rightarrow> string \<Rightarrow> InviteTokenVerifier" where
  "Verify jwt secret token =
     Now (\<lambda>now.
       case jwt_ParseWithClaims jwt verifyOpts secret now token of
         Inl err \<Rightarrow> Return (Inl (Errorf [W (Sentinel ErrInvalidInviteToken), T '': '', W (LibErr err)]))
       | Inr claims \<Rightarrow>
           let jti = claimString claims ''jti''; inviteUID = claimString claims ''invite_uid'';
               email = claimString claims ''email''
           in if jti = [] \<or> jti \<noteq> inviteUID then
                Return (Inl (Errorf [W (Sentinel ErrInvalidInviteToken), T '': missing or inconsistent jti/invite_uid claims'']))
              else if email = [] then
                Return (Inl (Errorf [W (Sentinel ErrInvalidInviteToken), T '': missing email claim'']))
              else Return (Inr \<lparr>tc_InviteUID = inviteUID, tc_Email = email\<rparr>))"

definition NewTokenVerifier :: "jwtlib \<Rightarrow> string \<Rightarrow> InviteTokenVerifier" where
  "NewTokenVerifier jwt secret = Verify jwt secret"

lemmas auth_constructors = NewLinkGenerator_def NewTokenVerifier_def

end
