(* ===== verification/Auth_Laws.thy ===== *)
theory Auth_Laws
  imports Auth
begin

text \<open>
  What the link generator puts into a token, and what the verifier accepts.
\<close>

section \<open>Claims of a generated token\<close>

abbreviation nonReserved :: "gomap \<Rightarrow> gomap" where
  "nonReserved m \<equiv> filter (\<lambda>(k, v). k \<notin> set reservedClaims) m"

definition claimTooLong :: "string \<times> string \<Rightarrow> bool" where
  "claimTooLong e \<longleftrightarrow> maxCustomClaimKeyLen < length (fst e) \<or> maxCustomClaimValueLen < length (snd e)"

lemma addCustomClaims_fails:
  "(\<exists>err. addCustomClaims kvs c a = Inl err) \<longleftrightarrow> list_ex claimTooLong kvs"
  by (induction kvs c a rule: addCustomClaims.induct) (auto simp: claimTooLong_def)

lemma addCustomClaims_error:
  "addCustomClaims kvs c a = Inl err \<Longrightarrow> onlyIs err ErrInvalidCustomClaims"
  by (induction kvs c a rule: addCustomClaims.induct) (auto simp: onlyIs_def split: if_splits)

lemma addCustomClaims_ok:
  "addCustomClaims kvs c a = Inr (c', a') \<Longrightarrow> wf_map c \<Longrightarrow> wf_map a \<Longrightarrow> distinct (map fst kvs) \<Longrightarrow>
   wf_map c' \<and> wf_map a'
   \<and> map_of c' = map_of c ++ (map_option ClaimStr \<circ> map_of (nonReserved kvs))
   \<and> map_of a' = map_of a ++ map_of (nonReserved kvs)"
proof (induction kvs c a rule: addCustomClaims.induct)
  case (1 c a)
  then show ?case by (simp add: fun_eq_iff map_add_def)
next
  case (2 k v kvs c a)
  have nk: "map_of (nonReserved kvs) k = None"
    using 2(6) by (auto simp: map_of_eq_None_iff)
  show ?case
  proof (cases "k \<in> set reservedClaims")
    case True
    with 2 show ?thesis by (simp split: if_splits)
  next
    case False
    with 2 have "wf_map c' \<and> wf_map a'
      \<and> map_of c' = map_of (map_put c k (ClaimStr v)) ++ (map_option ClaimStr \<circ> map_of (nonReserved kvs))
      \<and> map_of a' = map_of (map_put a k v) ++ map_of (nonReserved kvs)"
      by (simp add: comp_def split: if_splits)
    with False 2(4,5) nk show ?thesis
      by (auto simp: map_of_map_put fun_eq_iff map_add_def split: option.splits)
  qed
qed

lemma map_of_perm:
  assumes "mset x = mset m" "distinct (map fst m)"
  shows "map_of (filter P x) = map_of (filter P m)" "distinct (map fst x)"
proof -
  have "mset (map fst x) = mset (map fst m)" using assms(1) by simp
  then show d: "distinct (map fst x)" using assms(2) mset_eq_imp_distinct_iff by blast
  have "set (filter P x) = set (filter P m)" using mset_eq_setD [OF assms(1)] by auto
  then show "map_of (filter P x) = map_of (filter P m)"
    using d assms(2) by (simp add: map_of_inject_set distinct_map_filter)
qed

text \<open>Whatever the order of the range, the accepted claims are the custom claims without reserved keys.\<close>

lemma addCustomClaims_range:
  assumes "wf_map m" "mset x = mset m" "wf_map c" "addCustomClaims x c [] = Inr (c', a)"
  shows "a = nonReserved m" "wf_map c'"
    "map_of c' = map_of c ++ (map_option ClaimStr \<circ> map_of (nonReserved m))"
proof -
  have d: "distinct (map fst m)" using assms(1) by (auto simp: wf_map_def strict_sorted_iff)
  note p = map_of_perm [OF assms(2) d]
  have n: "wf_map []" by (simp add: wf_map_def)
  note ok = addCustomClaims_ok [OF assms(4,3) n p(2)]
  have "wf_map (nonReserved m)"
    using assms(1) unfolding wf_map_def sorted_wrt_map by (rule sorted_wrt_filter)
  moreover have "map_of a = map_of (nonReserved m)" using ok p(1) by simp
  ultimately show "a = nonReserved m" using ok wf_map_unique by blast
  show "wf_map c'" "map_of c' = map_of c ++ (map_option ClaimStr \<circ> map_of (nonReserved m))"
    using ok p(1) by simp_all
qed

lemma wf_foldl_put:
  "wf_map m \<Longrightarrow> wf_map (foldl (\<lambda>m (k, v). map_put m k v) m kvs)
     \<and> map_of (foldl (\<lambda>m (k, v). map_put m k v) m kvs) = map_of m ++ map_of (rev kvs)"
  by (induction kvs arbitrary: m) (auto simp: map_of_map_put fun_eq_iff map_add_def split: option.splits)

lemma wf_serviceClaims: "wf_map (serviceClaims now e uid p)"
  unfolding serviceClaims_def using wf_foldl_put [of "[]"] by (simp add: wf_map_def del: foldl_append)

lemma serviceClaims_of:
  "map_of (serviceClaims now e uid p) =
     map_of ([(''role'', ClaimStr (lp_Role p))] @
       (if lp_ResourceType p \<noteq> [] then [(''resource_type'', ClaimStr (lp_ResourceType p))] else []) @
       [(''resource_uid'', ClaimStr (lp_ResourceUID p)), (''return_url'', ClaimStr (lp_DestinationURL p)),
        (''email'', ClaimStr (lp_RecipientEmail p)), (''invite_uid'', ClaimStr uid), (''jti'', ClaimStr uid),
        (''exp'', ClaimInt (unixSeconds e)), (''nbf'', ClaimInt (unixSeconds now)),
        (''iat'', ClaimInt (unixSeconds now)), (''aud'', ClaimStrs [tokenAudience]),
        (''iss'', ClaimStr tokenIssuer)])"
  unfolding serviceClaims_def using wf_foldl_put [of "[]"]
  by (simp add: wf_map_def fun_eq_iff del: foldl_append)

text \<open>Everything a successful \<open>Generate\<close> did and returned.\<close>

definition tokenClaims :: "time \<Rightarrow> string \<Rightarrow> LinkPayload \<Rightarrow> string \<Rightarrow> claim option" where
  "tokenClaims now uid p =
     map_of (serviceClaims now (addDur now (tokenLifetime (lp_ExpirationDays p))) uid p)
       ++ (map_option ClaimStr \<circ> map_of (nonReserved (lp_CustomClaims p)))"

lemma Generate_exec:
  assumes "exec (Generate jwt secret base p) tr (Inr g)" "wf_map (lp_CustomClaims p)"
  obtains now uid x c signed where
    "tr = [ENow now, EUUID uid, ERange (lp_CustomClaims p) x]"
    "jwt_SignedString jwt ''HS256'' secret c = Inr signed" "wf_map c" "map_of c = tokenClaims now uid p"
    "g = \<lparr>gl_Link = base @ ''/invite?token='' @ signed, gl_InviteUID = uid,
          gl_ExpiresAt = addDur now (tokenLifetime (lp_ExpirationDays p)),
          gl_AcceptedClaims = nonReserved (lp_CustomClaims p)\<rparr>"
proof -
  obtain now uid x c a signed where e:
    "tr = [ENow now, EUUID uid, ERange (lp_CustomClaims p) x]" "mset x = mset (lp_CustomClaims p)"
    "addCustomClaims x (serviceClaims now (addDur now (tokenLifetime (lp_ExpirationDays p))) uid p) [] = Inr (c, a)"
    "jwt_SignedString jwt ''HS256'' secret c = Inr signed"
    "g = \<lparr>gl_Link = base @ ''/invite?token='' @ signed, gl_InviteUID = uid,
          gl_ExpiresAt = addDur now (tokenLifetime (lp_ExpirationDays p)), gl_AcceptedClaims = a\<rparr>"
    using assms(1) unfolding Generate_def
    by (auto simp: prog_simps Let_def)
  note r = addCustomClaims_range [OF assms(2) e(2) wf_serviceClaims e(3)]
  show ?thesis
    using that [OF e(1) e(4) r(2)] e(5) r(1,3) by (simp add: tokenClaims_def)
qed

lemma Generate_error:
  "exec (Generate jwt secret base p) tr (Inl err) \<Longrightarrow>
   onlyIs err ErrInvalidCustomClaims \<or> noSentinel err"
  unfolding Generate_def
  by (auto simp: prog_simps Let_def onlyIs_def noSentinel_def dest!: addCustomClaims_error)

lemma addCustomClaims_rejects:
  assumes "mset x = mset m" "list_ex claimTooLong m"
  shows "\<exists>err. addCustomClaims x c a = Inl err \<and> onlyIs err ErrInvalidCustomClaims"
proof -
  have "list_ex claimTooLong x"
    using assms mset_eq_setD [OF assms(1)] by (auto simp: list_ex_iff)
  then show ?thesis using addCustomClaims_fails addCustomClaims_error by metis
qed

lemma Generate_rejects:
  assumes "exec (Generate jwt secret base p) tr r"
    "maxCustomClaims < length (lp_CustomClaims p) \<or> list_ex claimTooLong (lp_CustomClaims p)"
  shows "\<exists>err. r = Inl err \<and> onlyIs err ErrInvalidCustomClaims"
proof (cases "maxCustomClaims < length (lp_CustomClaims p)")
  case True
  with assms(1) show ?thesis
    unfolding Generate_def by (auto simp: prog_simps Let_def onlyIs_def)
next
  case False
  with assms(2) have long: "list_ex claimTooLong (lp_CustomClaims p)" by simp
  from assms(1) False obtain x c where x: "mset x = mset (lp_CustomClaims p)"
    and r: "(\<exists>err. addCustomClaims x c [] = Inl err \<and> r = Inl err) \<or> (\<exists>y. addCustomClaims x c [] = Inr y)"
    unfolding Generate_def by (auto simp: prog_simps Let_def, blast+)
  show ?thesis using addCustomClaims_rejects [OF x long, of c "[]"] r by auto
qed

lemma tokenLifetime_bounds: "0 < tokenLifetime d \<and> tokenLifetime d \<le> 90 * 24 * nsPerHour"
  by (simp add: tokenLifetime_def tokenTTL_def maxExpirationDays_def nsPerHour_def nsPerSecond_def)

lemma tokenClaims_reserved:
  assumes "k \<in> set reservedClaims"
  shows "tokenClaims now uid p k =
    map_of (serviceClaims now (addDur now (tokenLifetime (lp_ExpirationDays p))) uid p) k"
proof -
  have "map_of (nonReserved m) k = None" for m
    using assms by (auto simp: map_of_eq_None_iff)
  then show ?thesis by (simp add: tokenClaims_def map_add_def)
qed

lemma tokenClaims_service:
  "tokenClaims now uid p ''jti'' = Some (ClaimStr uid)"
  "tokenClaims now uid p ''invite_uid'' = Some (ClaimStr uid)"
  "tokenClaims now uid p ''email'' = Some (ClaimStr (lp_RecipientEmail p))"
  "tokenClaims now uid p ''iss'' = Some (ClaimStr tokenIssuer)"
  "tokenClaims now uid p ''aud'' = Some (ClaimStrs [tokenAudience])"
  "tokenClaims now uid p ''iat'' = Some (ClaimInt (unixSeconds now))"
  "tokenClaims now uid p ''nbf'' = Some (ClaimInt (unixSeconds now))"
  "tokenClaims now uid p ''exp'' = Some (ClaimInt (unixSeconds (addDur now (tokenLifetime (lp_ExpirationDays p)))))"
  "tokenClaims now uid p ''role'' = Some (ClaimStr (lp_Role p))"
  "tokenClaims now uid p ''return_url'' = Some (ClaimStr (lp_DestinationURL p))"
  "tokenClaims now uid p ''resource_uid'' = Some (ClaimStr (lp_ResourceUID p))"
  "tokenClaims now uid p ''resource_type'' =
     (if lp_ResourceType p = [] then None else Some (ClaimStr (lp_ResourceType p)))"
  "tokenClaims now uid p ''sub'' = None"
  by (simp_all add: tokenClaims_reserved reservedClaims_def serviceClaims_of)

lemma tokenClaims_custom:
  assumes "k \<notin> set reservedClaims"
  shows "tokenClaims now uid p k = map_option ClaimStr (map_of (lp_CustomClaims p) k)"
proof -
  have "map_of (nonReserved m) k = map_of m k" for m
    using assms by (induction m) auto
  moreover have "map_of (serviceClaims now e uid p) k = None" for e
    using assms by (simp add: serviceClaims_of reservedClaims_def)
  ultimately show ?thesis
    by (auto simp: tokenClaims_def map_add_def split: option.splits)
qed

section \<open>The verifier\<close>

lemma claimString_iff: "s \<noteq> [] \<Longrightarrow> claimString claims k = s \<longleftrightarrow> map_of claims k = Some (ClaimStr s)"
  by (auto simp: claimString_def split: option.splits claim.splits)

lemma Verify_ok:
  "exec (Verify jwt secret token) tr (Inr tc) \<longleftrightarrow>
     (\<exists>now claims. tr = [ENow now] \<and> jwt_ParseWithClaims jwt verifyOpts secret now token = Inr claims
        \<and> map_of claims ''jti'' = Some (ClaimStr (tc_InviteUID tc))
        \<and> map_of claims ''invite_uid'' = Some (ClaimStr (tc_InviteUID tc))
        \<and> map_of claims ''email'' = Some (ClaimStr (tc_Email tc))
        \<and> tc_InviteUID tc \<noteq> [] \<and> tc_Email tc \<noteq> [])"
proof -
  have "exec (Verify jwt secret token) tr (Inr tc) \<longleftrightarrow>
     (\<exists>now claims. tr = [ENow now] \<and> jwt_ParseWithClaims jwt verifyOpts secret now token = Inr claims
        \<and> claimString claims ''jti'' = tc_InviteUID tc \<and> claimString claims ''invite_uid'' = tc_InviteUID tc
        \<and> claimString claims ''email'' = tc_Email tc \<and> tc_InviteUID tc \<noteq> [] \<and> tc_Email tc \<noteq> [])"
    unfolding Verify_def by (cases tc) (auto simp: prog_simps Let_def)
  then show ?thesis by (simp add: claimString_iff cong: conj_cong) (use claimString_iff in blast)
qed

lemma Verify_error:
  "exec (Verify jwt secret token) tr (Inl err) \<Longrightarrow> onlyIs err ErrInvalidInviteToken"
  unfolding Verify_def
  by (auto simp: prog_simps Let_def onlyIs_def)

lemma Verify_noEffect: "exec (Verify jwt secret token) tr r \<Longrightarrow> noEffect tr"
  unfolding Verify_def
  by (auto simp: prog_simps Let_def noEffect_def)

end
