(* ===== verification/Jwt_Contract.thy ===== *)
theory Jwt_Contract
  imports Auth_Laws
begin

text \<open>
  The documented behaviour of the JWT library the service relies on: a token signed under a key
  parses under that key, gives back its string claims, and passes the validations that its own
  iss, aud, exp, nbf and iat satisfy. The reference library that interprets the contract writes
  key, method and claims as JSON; it has the interface of the library, not its cryptography.
\<close>

section \<open>Contract\<close>

definition int64 :: "int \<Rightarrow> bool" where
  "int64 n \<longleftrightarrow> - (2 ^ 63) \<le> n \<and> n < 2 ^ 63"

fun claimUTF8 :: "claim \<Rightarrow> bool" where
  "claimUTF8 (ClaimStr s) = validUTF8 s"
| "claimUTF8 (ClaimStrs ss) = list_all validUTF8 ss"
| "claimUTF8 (ClaimInt n) = int64 n"
| "claimUTF8 ClaimOther = True"

text \<open>Claims that JSON can carry.\<close>

definition claimsOK :: "claims \<Rightarrow> bool" where
  "claimsOK c \<longleftrightarrow> wf_map c \<and> list_all (\<lambda>(k, v). validUTF8 k \<and> claimUTF8 v) c"

text \<open>The validations that the options ask for, at a time.\<close>

definition validAt :: "jwtopts \<Rightarrow> time \<Rightarrow> claims \<Rightarrow> bool" where
  "validAt opts now c \<longleftrightarrow>
     map_of c ''iss'' = Some (ClaimStr (opt_Issuer opts))
     \<and> (case map_of c ''aud'' of Some (ClaimStrs as) \<Rightarrow> opt_Audience opts \<in> set as | _ \<Rightarrow> False)
     \<and> (case map_of c ''exp'' of
          Some (ClaimInt e) \<Rightarrow> before now (addDur (e * nsPerSecond) (opt_Leeway opts))
        | _ \<Rightarrow> \<not> opt_ExpirationRequired opts)
     \<and> (case map_of c ''nbf'' of
          Some (ClaimInt n) \<Rightarrow> \<not> before now (addDur (n * nsPerSecond) (- opt_Leeway opts))
        | _ \<Rightarrow> True)
     \<and> (case map_of c ''iat'' of
          Some (ClaimInt i) \<Rightarrow> opt_IssuedAt opts \<longrightarrow> \<not> before now (addDur (i * nsPerSecond) (- opt_Leeway opts))
        | _ \<Rightarrow> True)"

locale jwt_contract =
  fixes jwt :: jwtlib
  assumes parse_signed: "claimsOK c \<Longrightarrow> jwt_SignedString jwt alg key c = Inr token \<Longrightarrow>
      alg \<in> set (opt_ValidMethods opts) \<Longrightarrow> validAt opts now c \<Longrightarrow>
      \<exists>c'. jwt_ParseWithClaims jwt opts key now token = Inr c'
        \<and> (\<forall>k s. map_of c k = Some (ClaimStr s) \<longrightarrow> map_of c' k = Some (ClaimStr s))"
    and signed_nonempty: "jwt_SignedString jwt alg key c = Inr token \<Longrightarrow> token \<noteq> []"
    and parse_valid: "jwt_ParseWithClaims jwt opts key now token = Inr c \<Longrightarrow>
      map_of c ''iss'' = Some (ClaimStr (opt_Issuer opts))"

text \<open>The link payloads whose token can be written: UTF-8 strings, as decoded requests have.\<close>

definition payloadOK :: "LinkPayload \<Rightarrow> bool" where
  "payloadOK p \<longleftrightarrow>
     list_all validUTF8 [lp_RecipientEmail p, lp_DestinationURL p, lp_ResourceUID p, lp_ResourceType p, lp_Role p]
     \<and> validClaims (lp_CustomClaims p)"

lemma tokenClaims_OK:
  assumes "payloadOK p" "validUTF8 uid" "wf_map c" "map_of c = tokenClaims now uid p"
    "int64 (unixSeconds now)" "int64 (unixSeconds (addDur now (tokenLifetime (lp_ExpirationDays p))))"
  shows "claimsOK c"
proof -
  have "validUTF8 k \<and> claimUTF8 v" if "(k, v) \<in> set c" for k v
  proof -
    have kv: "tokenClaims now uid p k = Some v"
      using that assms(3,4) by (metis map_of_is_SomeI strict_sorted_iff wf_map_def)
    show ?thesis
    proof (cases "k \<in> set reservedClaims")
      case True
      then have "validUTF8 k"
        by (intro validUTF8_ascii) (auto simp: reservedClaims_def is_ascii_def byte_def)
      moreover have "claimUTF8 v"
        using True kv assms unfolding payloadOK_def
        by (auto simp: reservedClaims_def tokenClaims_service tokenIssuer_def tokenAudience_def validUTF8_ascii
            is_ascii_def byte_def split: if_splits)
      ultimately show ?thesis ..
    next
      case False
      then obtain s where "map_of (lp_CustomClaims p) k = Some s" "v = ClaimStr s"
        using kv tokenClaims_custom [OF False, of now uid p] by auto
      then show ?thesis
        using assms(1) by (auto simp: payloadOK_def validClaims_def list_all_iff dest: map_of_SomeD)
    qed
  qed
  then show ?thesis using assms(3) by (auto simp: claimsOK_def list_all_iff)
qed

lemma token_validAt:
  assumes "map_of c = tokenClaims now uid p" "now \<le> t" "t \<le> addDur now (tokenLifetime (lp_ExpirationDays p))"
  shows "validAt verifyOpts t c"
proof -
  have "s div nsPerSecond * nsPerSecond \<le> s" "s < s div nsPerSecond * nsPerSecond + nsPerSecond" for s
    unfolding nsPerSecond_def by linarith+
  note this [of now] this [of "addDur now (tokenLifetime (lp_ExpirationDays p))"]
  with assms show ?thesis
    by (simp add: validAt_def tokenClaims_service verifyOpts_def before_def unixSeconds_def tokenLeeway_def addDur_def
        nsPerSecond_def)
qed

context jwt_contract
begin

text \<open>A generated token verifies until the invite expires, with the invite's UID and email.\<close>

lemma verify_signed:
  assumes sign: "jwt_SignedString jwt ''HS256'' secret c = Inr token" and c: "wf_map c" "map_of c = tokenClaims issued uid p"
    and p: "payloadOK p" "lp_RecipientEmail p \<noteq> []" and uid: "uid \<noteq> []" "validUTF8 uid"
    and t: "issued \<le> t" "t \<le> addDur issued (tokenLifetime (lp_ExpirationDays p))"
    and range: "int64 (unixSeconds issued)" "int64 (unixSeconds (addDur issued (tokenLifetime (lp_ExpirationDays p))))"
  shows "exec (Verify jwt secret token) [ENow t] (Inr \<lparr>tc_InviteUID = uid, tc_Email = lp_RecipientEmail p\<rparr>)"
proof -
  have "claimsOK c" "validAt verifyOpts t c"
    using tokenClaims_OK [OF p(1) uid(2) c] token_validAt [OF c(2) t] range by auto
  moreover have "''HS256'' \<in> set (opt_ValidMethods verifyOpts)" by (simp add: verifyOpts_def)
  ultimately obtain c' where "jwt_ParseWithClaims jwt verifyOpts secret t token = Inr c'"
    "\<And>k s. map_of c k = Some (ClaimStr s) \<Longrightarrow> map_of c' k = Some (ClaimStr s)"
    using parse_signed [OF _ sign] by blast
  then show ?thesis using p(2) uid(1) c(2) by (auto simp: Verify_ok tokenClaims_service)
qed

lemma verify_generated:
  assumes g: "exec (Generate jwt secret base p) tr (Inr g)" and p: "payloadOK p" "lp_RecipientEmail p \<noteq> []"
    and uid: "gl_InviteUID g \<noteq> []" "validUTF8 (gl_InviteUID g)"
    and issued: "ENow issued \<in> set tr" "issued \<le> t" "t \<le> gl_ExpiresAt g"
    and range: "int64 (unixSeconds issued)" "int64 (unixSeconds (gl_ExpiresAt g))"
  obtains token where "gl_Link g = base @ ''/invite?token='' @ token"
    "exec (Verify jwt secret token) [ENow t] (Inr \<lparr>tc_InviteUID = gl_InviteUID g, tc_Email = lp_RecipientEmail p\<rparr>)"
proof -
  have "wf_map (lp_CustomClaims p)" using p(1) by (simp add: payloadOK_def validClaims_def)
  with g obtain now uid x c signed where e: "tr = [ENow now, EUUID uid, ERange (lp_CustomClaims p) x]"
    "jwt_SignedString jwt ''HS256'' secret c = Inr signed" "wf_map c" "map_of c = tokenClaims now uid p"
    "g = \<lparr>gl_Link = base @ ''/invite?token='' @ signed, gl_InviteUID = uid,
          gl_ExpiresAt = addDur now (tokenLifetime (lp_ExpirationDays p)),
          gl_AcceptedClaims = nonReserved (lp_CustomClaims p)\<rparr>"
    by (rule Generate_exec)
  have now: "issued = now" using issued(1) e(1) by auto
  with that [of signed] verify_signed [OF e(2-4) p, of t] uid issued range e(5) show thesis by simp
qed

end

section \<open>A reference library\<close>

fun claimJson :: "claim \<Rightarrow> json" where
  "claimJson (ClaimStr s) = enc_string s"
| "claimJson (ClaimStrs ss) = JArr (map enc_string ss)"
| "claimJson (ClaimInt n) = enc_int n"
| "claimJson ClaimOther = JNull"

fun jsonStrings :: "json list \<Rightarrow> string list option" where
  "jsonStrings [] = Some []"
| "jsonStrings (JStr raw # js) = map_option (\<lambda>ss. unquote raw # ss) (jsonStrings js)"
| "jsonStrings _ = None"

fun jsonClaim :: "json \<Rightarrow> claim" where
  "jsonClaim (JStr raw) = ClaimStr (unquote raw)"
| "jsonClaim (JNum s) = (case parseInt64 s of Some n \<Rightarrow> ClaimInt n | None \<Rightarrow> ClaimOther)"
| "jsonClaim (JArr js) = (case jsonStrings js of Some ss \<Rightarrow> ClaimStrs ss | None \<Rightarrow> ClaimOther)"
| "jsonClaim _ = ClaimOther"

definition refToken :: "string \<Rightarrow> string \<Rightarrow> claims \<Rightarrow> json" where
  "refToken alg key c =
     JObj [(''alg'', enc_string alg), (''key'', enc_string key),
           (''claims'', JObj (map (\<lambda>(k, v). (escape k, claimJson v)) c))]"

definition refParse :: "jwtopts \<Rightarrow> string \<Rightarrow> time \<Rightarrow> string \<Rightarrow> claims option" where
  "refParse opts key now token =
     (case json_parse token of
        Some (JObj [(_, JStr a), (_, JStr k), (_, JObj ms)]) \<Rightarrow>
          let c = map (\<lambda>(k, j). (unquote k, jsonClaim j)) ms in
          if list_ex (\<lambda>m. escape m = a) (opt_ValidMethods opts) \<and> k = escape key \<and> validAt opts now c
          then Some c else None
      | _ \<Rightarrow> None)"

definition refJwt :: jwtlib where
  "refJwt =
     \<lparr>jwt_SignedString = (\<lambda>alg key c. Inr (jprint (refToken alg key c))),
      jwt_ParseWithClaims = (\<lambda>opts key now token.
        case refParse opts key now token of
          Some c \<Rightarrow> Inr c
        | None \<Rightarrow> Inl \<lparr>le_notFound = False, le_apiCode = None, le_text = ''token is invalid''\<rparr>)\<rparr>"

lemma jsonStrings_enc: "list_all validUTF8 ss \<Longrightarrow> jsonStrings (map enc_string ss) = Some ss"
  by (induction ss) (auto simp: enc_string_def unquote_escape)

lemma jsonClaim_claimJson: "claimUTF8 v \<Longrightarrow> jsonClaim (claimJson v) = v"
  by (cases v) (auto simp: enc_string_def unquote_escape jsonStrings_enc enc_int_def parseInt64_showInt int64_def)

lemma wfj_claimJson: "1 < d \<Longrightarrow> wfj d (claimJson v)"
  by (cases v) (auto simp: enc_string_def enc_int_def)

lemma refToken_read: "json_parse (jprint (refToken alg key c)) = Some (refToken alg key c)"
proof (rule json_parse_jprint)
  have "strOK ''alg''" "strOK ''key''" "strOK ''claims''"
    by (rule strOK_plain, simp add: plainChar_def byte_def quoteC_def slashC_def)+
  then show "wfj maxDepth (refToken alg key c)"
    by (auto simp: refToken_def maxDepth_def enc_string_def wfj_claimJson)
qed

lemma refParse_token:
  assumes "claimsOK c" "alg \<in> set (opt_ValidMethods opts)" "validAt opts now c"
  shows "refParse opts key now (jprint (refToken alg key c)) = Some c"
proof -
  have "map (\<lambda>(k, j). (unquote k, jsonClaim j)) (map (\<lambda>(k, v). (escape k, claimJson v)) c) = c"
    using assms(1) by (auto simp: claimsOK_def list_all_iff unquote_escape jsonClaim_claimJson intro!: map_idI)
  then show ?thesis
    using assms(2,3)
    by (auto simp: refParse_def refToken_read) (auto simp: refToken_def enc_string_def list_ex_iff)
qed

interpretation refjwt: jwt_contract refJwt
proof
  fix c alg key token opts now
  assume "claimsOK c" "jwt_SignedString refJwt alg key c = Inr token" "alg \<in> set (opt_ValidMethods opts)"
    "validAt opts now c"
  then show "\<exists>c'. jwt_ParseWithClaims refJwt opts key now token = Inr c'
      \<and> (\<forall>k s. map_of c k = Some (ClaimStr s) \<longrightarrow> map_of c' k = Some (ClaimStr s))"
    using refParse_token by (auto simp: refJwt_def)
next
  fix alg key c token
  assume "jwt_SignedString refJwt alg key c = Inr token"
  then show "token \<noteq> []" by (auto simp: refJwt_def refToken_def)
next
  fix opts key now token c
  assume "jwt_ParseWithClaims refJwt opts key now token = Inr c"
  then show "map_of c ''iss'' = Some (ClaimStr (opt_Issuer opts))"
    by (auto simp: refJwt_def refParse_def validAt_def Let_def
        split: option.splits json.splits list.splits prod.splits if_splits)
qed

end
