(* ===== verification/Config_Server.thy ===== *)
theory Config_Server
  imports Subscriptions Invite_Repository Jwt_Contract
begin

text \<open>
  cmd/invite-api/service/config.go and server.go: the configuration read from the environment,
  and the wiring of the services on the NATS infrastructure; and the choices that
  internal/infrastructure/observability makes from the environment (sampler and log level).
\<close>

section \<open>Configuration (config.go)\<close>

text \<open>\<open>os.Getenv\<close>: the empty string for an unset variable.\<close>

type_synonym getenv = "string \<Rightarrow> string"

record AppConfig =
  app_NATSURL :: string
  app_LogLevel :: string
  app_DefaultReturnURL :: string
  app_InviteJWTSecret :: string
  app_SelfServeBaseURL :: string
  app_AllowedReturnURLHosts :: "string list"
  app_InvitesKVBucket :: string

definition parseAllowedReturnURLHosts :: "string \<Rightarrow> string list" where
  "parseAllowedReturnURLHosts raw =
     (if raw = [] then [''*.lfx.dev'', ''*.linuxfoundation.org'']
      else filter (\<lambda>h. h \<noteq> []) (map trimSpace (splitByte (CHR '','') raw)))"

definition AppConfigFromEnv :: "getenv \<Rightarrow> AppConfig" where
  "AppConfigFromEnv env =
     (let natsURL = (if env ''NATS_URL'' = [] then ''nats://lfx-platform-nats.lfx.svc.cluster.local:4222''
                     else env ''NATS_URL'');
          selfServeBaseURL =
            (if env ''LFX_SELF_SERVE_BASE_URL'' = [] then
               (if env ''LFX_ENVIRONMENT'' = ''prod'' then ''https://app.lfx.dev''
                else if env ''LFX_ENVIRONMENT'' = ''staging'' \<or> env ''LFX_ENVIRONMENT'' = ''stg''
                then ''https://app.staging.lfx.dev''
                else ''https://app.dev.lfx.dev'')
             else env ''LFX_SELF_SERVE_BASE_URL'')
      in \<lparr>app_NATSURL = natsURL, app_LogLevel = env ''LOG_LEVEL'',
          app_DefaultReturnURL = (if env ''DEFAULT_INVITE_LINK_RETURN_URL'' = [] then selfServeBaseURL
                                  else env ''DEFAULT_INVITE_LINK_RETURN_URL''),
          app_InviteJWTSecret = env ''INVITE_JWT_SECRET'', app_SelfServeBaseURL = selfServeBaseURL,
          app_AllowedReturnURLHosts = parseAllowedReturnURLHosts (env ''ALLOWED_RETURN_URL_HOSTS''),
          app_InvitesKVBucket = (if env ''INVITES_KV_BUCKET'' = [] then ''invites'' else env ''INVITES_KV_BUCKET'')\<rparr>)"

section \<open>The server (server.go)\<close>

text \<open>A nil \<open>closeFn\<close> is replaced by one that does nothing.\<close>

definition NewServer :: "Subscriber \<Rightarrow> lifeEvent list option \<Rightarrow> NotificationService \<Rightarrow> AcceptanceService \<Rightarrow>
    InviteStore \<Rightarrow> Server" where
  "NewServer subscriber closeFn notifSvc acceptSvc readStore =
     \<lparr>srv_subscriber = subscriber, srv_closeFn = (case closeFn of None \<Rightarrow> [] | Some f \<Rightarrow> f),
      srv_notifSvc = notifSvc, srv_acceptSvc = acceptSvc, srv_readStore = readStore\<rparr>"

definition CloseServer :: "Server \<Rightarrow> lifeEvent list" where
  "CloseServer srv = srv_closeFn srv"

text \<open>
  The third party code a server is built on: the JWT library, the standard library, the email
  service's types with the subject they name, and nats.go.
\<close>

record platform =
  plat_jwt :: jwtlib
  plat_golib :: golib
  plat_email :: emaillib
  plat_emailSubject :: string
  plat_nats :: natslib

definition wireServer :: "platform \<Rightarrow> AppConfig \<Rightarrow> Server" where
  "wireServer pf cfg =
     (let store = NATSInviteRepository (lib_lower (plat_golib pf)) in
      NewServer (QueueSubscribe (plat_nats pf)) (Some (Close \<lparr>cl_conn = Some (app_NATSURL cfg)\<rparr>))
        (NewNotificationService (NewNATSEmailSender (plat_email pf) (plat_emailSubject pf))
           (NewLinkGenerator (plat_jwt pf) (app_InviteJWTSecret cfg) (app_SelfServeBaseURL cfg)) (Some store)
           \<lparr>cfg_DefaultReturnURL = app_DefaultReturnURL cfg,
            cfg_AllowedReturnURLHosts = app_AllowedReturnURLHosts cfg\<rparr>)
        (NewAcceptanceService store Publish (NewTokenVerifier (plat_jwt pf) (app_InviteJWTSecret cfg)))
        (NewInviteReadService store))"

definition NewServerFromConfig :: "platform \<Rightarrow> AppConfig \<Rightarrow> (goerr + Server) \<times> lifeEvent list" where
  "NewServerFromConfig pf cfg =
     (if app_InviteJWTSecret cfg = [] then
        (Inl (Errorf [T ''INVITE_JWT_SECRET is required but not set'']), [])
      else if length (app_InviteJWTSecret cfg) < 32 then
        (Inl (Errorf [T ''INVITE_JWT_SECRET must be at least 32 bytes for HS256 (got '',
                      D (int (length (app_InviteJWTSecret cfg))), T '')'']), [])
      else case New (plat_nats pf) (app_NATSURL cfg) of
        (Inl err, evs) \<Rightarrow> (Inl err, evs)
      | (Inr nc, evs) \<Rightarrow>
          (case KeyValue (plat_nats pf) (app_InvitesKVBucket cfg) of
             (Some err, evs') \<Rightarrow>
               (Inl (Errorf [T ''bind invites KV bucket '', Q (app_InvitesKVBucket cfg), T '': '', W err]),
                evs @ evs' @ Close nc)
           | (None, evs') \<Rightarrow> (Inr (wireServer pf cfg), evs @ evs')))"

section \<open>Observability (otel.go, log.go)\<close>

text \<open>The comparisons of the range check: those with NaN are false.\<close>

fun below :: "gofloat \<Rightarrow> rat \<Rightarrow> bool" where
  "below NaN r = False"
| "below (Finite x) r = (x < r)"
| "below PosInf r = False"
| "below NegInf r = True"

fun above :: "gofloat \<Rightarrow> rat \<Rightarrow> bool" where
  "above NaN r = False"
| "above (Finite x) r = (x > r)"
| "above PosInf r = True"
| "above NegInf r = False"

text \<open>\<open>parseFloat\<close> is \<open>strconv.ParseFloat\<close>.\<close>

definition parseRatio :: "(string \<Rightarrow> gofloat option) \<Rightarrow> string \<Rightarrow> gofloat" where
  "parseRatio parseFloat arg =
     (if arg = [] then Finite 1
      else case parseFloat arg of
        None \<Rightarrow> Finite 1
      | Some r \<Rightarrow> if below r 0 \<or> above r 1 then Finite 1 else r)"

definition samplerFromEnv :: "(nat \<Rightarrow> nat) \<Rightarrow> (string \<Rightarrow> gofloat option) \<Rightarrow> getenv \<Rightarrow> sampler" where
  "samplerFromEnv u parseFloat env =
     (let s = toLower u (trimSpace (env ''OTEL_TRACES_SAMPLER''));
          ratio = parseRatio parseFloat (trimSpace (env ''OTEL_TRACES_SAMPLER_ARG''))
      in if s = ''always_on'' then AlwaysOn
         else if s = ''always_off'' then AlwaysOff
         else if s = ''traceidratio'' then TraceIDRatio ratio
         else if s = ''parentbased_always_on'' then ParentBased AlwaysOn
         else if s = ''parentbased_always_off'' then ParentBased AlwaysOff
         else ParentBased (TraceIDRatio ratio))"

definition logLevelDefault :: logLevel where
  "logLevelDefault = LevelDebug"

definition logLevelOf :: "string \<Rightarrow> logLevel" where
  "logLevelOf level =
     (if level = ''debug'' then LevelDebug else if level = ''info'' then LevelInfo
      else if level = ''warn'' then LevelWarn else logLevelDefault)"

definition InitStructureLogConfig :: "string \<Rightarrow> lifeEvent list" where
  "InitStructureLogConfig level =
     (let handler = ContextHandler (OtelHandler (JSONHandler (logLevelOf level)))
      in [SetLogger handler, SetLogOutput])"

text \<open>The attributes of a log record after \<open>Handle\<close>: those of the context under \<open>slogFields\<close> come last.\<close>

definition contextHandle :: "'attr list option \<Rightarrow> 'attr list \<Rightarrow> 'attr list" where
  "contextHandle slogFields attrs = (case slogFields of Some vs \<Rightarrow> attrs @ vs | None \<Rightarrow> attrs)"

text \<open>The ratio is in range or it is the NaN that the range check lets through.\<close>

lemma parseRatio_range:
  "parseRatio pf arg = NaN \<or> (\<exists>r. parseRatio pf arg = Finite r \<and> 0 \<le> r \<and> r \<le> 1)"
proof -
  have "\<not> below x 0 \<Longrightarrow> \<not> above x 1 \<Longrightarrow> x = NaN \<or> (\<exists>r. x = Finite r \<and> 0 \<le> r \<and> r \<le> 1)" for x
    by (cases x) auto
  then show ?thesis by (auto simp: parseRatio_def split: option.splits)
qed

lemma parseAllowed_clean:
  "h \<in> set (parseAllowedReturnURLHosts raw) \<Longrightarrow> h \<noteq> [] \<and> (raw \<noteq> [] \<longrightarrow> CHR '','' \<notin> set h)"
proof -
  assume h: "h \<in> set (parseAllowedReturnURLHosts raw)"
  have "set (trimSpace p) \<subseteq> set p" for p
    using trimSpace_sublist [of p] set_mono_sublist by blast
  with h show ?thesis
    unfolding parseAllowedReturnURLHosts_def by (auto split: if_splits dest: splitByte_no_sep)
qed

end
