(* ===== verification/Repository_Laws.thy ===== *)
theory Repository_Laws
  imports Invite_Repository
begin

text \<open>
  The repository keeps the contract of the invite store on every bucket that keeps its own:
  the records are what the live values decode to, the index is the set of live index keys.
\<close>

section \<open>Views\<close>

definition recordsOf :: "('s \<Rightarrow> string \<Rightarrow> nat \<times> string option) \<Rightarrow> 's \<Rightarrow> string \<Rightarrow> InviteRecord option" where
  "recordsOf kv s uid = (case snd (kv s uid) of None \<Rightarrow> None | Some v \<Rightarrow> unmarshalInviteRecord v)"

definition indexedOf :: "(nat \<Rightarrow> nat) \<Rightarrow> ('s \<Rightarrow> string \<Rightarrow> nat \<times> string option) \<Rightarrow> 's \<Rightarrow> string \<Rightarrow> string \<Rightarrow> bool" where
  "indexedOf u kv s email uid \<longleftrightarrow> snd (kv s (emailIndexKey u email uid)) \<noteq> None"

lemma isUid_indexKey [simp]: "\<not> isUid (emailIndexKey u email uid)"
  by (simp add: isUid_def emailIndexKey_def hasPrefix_def)

lemma isUid_neq_indexKey: "isUid uid \<Longrightarrow> uid \<noteq> emailIndexKey u email uid'"
  by auto

lemma recordsOf_cong: "kv s' = kv s \<Longrightarrow> recordsOf kv s' = recordsOf kv s"
  by (simp add: recordsOf_def fun_eq_iff)

lemma recordsOf_upd:
  "kv s' = (kv s)(k := (n, v)) \<Longrightarrow>
   recordsOf kv s' = (recordsOf kv s)(k := (case v of None \<Rightarrow> None | Some t \<Rightarrow> unmarshalInviteRecord t))"
  by (auto simp: recordsOf_def fun_eq_iff)

lemma trimPrefix_index:
  "hasPrefix key (emailIndexPrefix @ encodeEmailForKey u email @ ''/'') \<longleftrightarrow> (\<exists>uid. key = emailIndexKey u email uid)"
  "trimPrefix (emailIndexKey u email uid) (emailIndexPrefix @ encodeEmailForKey u email @ ''/'') = uid"
  by (auto simp: hasPrefix_def emailIndexKey_def trimPrefix_def prefix_def)

lemma index_uids:
  "uid \<in> set (map (\<lambda>key. trimPrefix key (emailIndexPrefix @ encodeEmailForKey u email @ ''/''))
                (filter (\<lambda>key. hasPrefix key (emailIndexPrefix @ encodeEmailForKey u email @ ''/'')) keys))
   \<longleftrightarrow> emailIndexKey u email uid \<in> set keys"
  (is "uid \<in> set (map ?t (filter ?p keys)) \<longleftrightarrow> _")
proof
  assume "uid \<in> set (map ?t (filter ?p keys))"
  then obtain key where key: "key \<in> set keys" "?p key" "uid = ?t key" by auto
  then obtain v where "key = emailIndexKey u email v" using trimPrefix_index(1) by blast
  with key show "emailIndexKey u email uid \<in> set keys" using trimPrefix_index(2) by metis
next
  assume "emailIndexKey u email uid \<in> set keys"
  moreover have "?p (emailIndexKey u email uid)" using trimPrefix_index(1) by blast
  ultimately have "?t (emailIndexKey u email uid) \<in> set (map ?t (filter ?p keys))" by auto
  then show "uid \<in> set (map ?t (filter ?p keys))" by (simp only: trimPrefix_index(2))
qed

lemma decoded_accept:
  "decodedRecord r \<Longrightarrow> validUTF8 username \<Longrightarrow> decodedRecord (acceptRecord r username at)"
  by (simp add: decodedRecord_def acceptRecord_def validStrings_def InviteStatusAccepted_def
      validUTF8_ascii is_ascii_def byte_def)

section \<open>Operations\<close>

context kv_contract
begin

lemma GetByUID_run:
  assumes "run env (GetByUID uid) s = (x, s')"
  shows "kv s' = kv s"
    and "x = Inr r \<Longrightarrow> recordsOf kv s uid = Some r"
    and "x = Inl e \<Longrightarrow> errors_Is e ErrInviteNotFound \<Longrightarrow> recordsOf kv s uid = None"
  using assms
  by (auto simp: GetByUID_def recordsOf_def noSentinel_def err_simps jsonError_def
      split: prod.splits sum.splits option.splits if_splits
      dest: get_kv get_found get_notFound)

lemma loadRecords_run:
  "run env (loadRecords uids acc) s = (x, s') \<Longrightarrow>
   kv s' = kv s \<and> (\<forall>rs. x = Inr rs \<longrightarrow> rs = acc @ List.map_filter (recordsOf kv s) uids)"
proof (induction uids arbitrary: acc s)
  case Nil
  then show ?case by (auto simp: List.map_filter_simps)
next
  case (Cons uid uids)
  obtain y s1 where y: "run env (GetByUID uid) s = (y, s1)" by (cases "run env (GetByUID uid) s")
  note g = GetByUID_run [OF y]
  have r: "recordsOf kv s1 = recordsOf kv s" by (rule recordsOf_cong) (rule g(1))
  show ?case
  proof (cases y)
    case (Inr r')
    with Cons.prems y have "run env (loadRecords uids (acc @ [r'])) s1 = (x, s')" by (simp add: prog_simps)
    from Cons.IH [OF this] g(1) g(2) [OF Inr] r show ?thesis
      by (simp add: List.map_filter_simps)
  next
    case (Inl e)
    show ?thesis
    proof (cases "errors_Is e ErrInviteNotFound")
      case True
      with Cons.prems y Inl have "run env (loadRecords uids acc) s1 = (x, s')" by (simp add: prog_simps)
      from Cons.IH [OF this] g(1) g(3) [OF Inl True] r show ?thesis
        by (simp add: List.map_filter_simps)
    next
      case False
      with Cons.prems y Inl g(1) show ?thesis by (auto simp: prog_simps)
    qed
  qed
qed

lemma set_map_filter: "set (List.map_filter f xs) = {y. \<exists>x \<in> set xs. f x = Some y}"
  by (auto simp: List.map_filter_def image_def)

lemma GetByEmail_run:
  assumes "run env (GetByEmail u email) s = (x, s')"
  shows "kv s' = kv s"
    and "x = Inr rs \<Longrightarrow> set rs = {r. \<exists>uid. indexedOf u kv s email uid \<and> recordsOf kv s uid = Some r}"
proof -
  let ?pre = "emailIndexPrefix @ encodeEmailForKey u email @ ''/''"
  let ?uids = "\<lambda>keys. map (\<lambda>key. trimPrefix key ?pre) (filter (\<lambda>key. hasPrefix key ?pre) keys)"
  obtain ks s1 where ks: "env_keys env s = (ks, s1)" by (cases "env_keys env s")
  note k1 = keys_kv [OF ks]
  show "kv s' = kv s"
    using assms ks k1
    by (auto simp: GetByEmail_def Let_def split: sum.splits prod.splits option.splits if_splits
        dest!: ctxErr_kv loadRecords_run)
  assume x: "x = Inr rs"
  with assms ks obtain keys where keys: "ks = Inr keys"
    by (auto simp: GetByEmail_def Let_def split: sum.splits)
  with assms ks x obtain s2 where c: "env_ctxErr env s1 = (None, s2)"
    by (auto simp: GetByEmail_def Let_def split: prod.splits option.splits)
  with k1 have k2: "kv s2 = kv s" using ctxErr_kv by metis
  have "rs = List.map_filter (recordsOf kv s) (?uids keys)"
  proof (cases "?uids keys = []")
    case True
    with assms ks x keys c show ?thesis by (simp add: GetByEmail_def Let_def List.map_filter_simps)
  next
    case False
    with assms ks x keys c have "run env (loadRecords (?uids keys) []) s2 = (Inr rs, s')"
      by (simp add: GetByEmail_def Let_def)
    then show ?thesis using loadRecords_run recordsOf_cong [OF k2] by fastforce
  qed
  moreover have "uid \<in> set (?uids keys) \<longleftrightarrow> indexedOf u kv s email uid" for uid
    using keys_live [OF ks [unfolded keys]] keys_complete [OF ks [unfolded keys] c]
    unfolding index_uids indexedOf_def by blast
  ultimately show "set rs = {r. \<exists>uid. indexedOf u kv s email uid \<and> recordsOf kv s uid = Some r}"
    by (simp only: set_map_filter) blast
qed

lemma markAttempts_run:
  assumes "validUTF8 username"
  shows "run env (markAttempts n uid username at) s = (x, s') \<Longrightarrow>
    (x = None \<longrightarrow> accepts (recordsOf kv s) uid username at (recordsOf kv s'))
    \<and> (\<forall>e. x = Some e \<longrightarrow> kv s' = kv s
          \<or> noSentinel e \<and> accepts (recordsOf kv s) uid username at (recordsOf kv s'))"
proof (induction n arbitrary: s)
  case 0
  then show ?case by auto
next
  case (Suc n)
  obtain g s1 where g: "env_get env uid s = (g, s1)" by (cases "env_get env uid s")
  note g1 = get_kv [OF g]
  show ?case
  proof (cases "\<exists>vl revision rc. g = Inr (vl, revision) \<and> unmarshalInviteRecord vl = Some rc
      \<and> rec_Status rc \<noteq> InviteStatusAccepted \<and> before at (rec_ExpiresAt rc)")
    case False
    with Suc.prems g g1 show ?thesis
      by (auto simp: Let_def split: sum.splits option.splits if_splits)
  next
    case True
    then obtain vl revision rc where v: "g = Inr (vl, revision)"
      and rc: "unmarshalInviteRecord vl = Some rc" "rec_Status rc \<noteq> InviteStatusAccepted"
        "before at (rec_ExpiresAt rc)" by blast
    obtain now s2 where now: "env_now env s1 = (now, s2)" by (cases "env_now env s1")
    have k2: "kv s2 = kv s" using g1 now_kv [OF now] by simp
    have live: "recordsOf kv s uid = Some rc" "fst (kv s uid) = revision"
      using get_found [of uid s vl revision s1] g v rc by (auto simp: recordsOf_def)
    show ?thesis
    proof (cases "before now (rec_ExpiresAt rc) \<and> marshalInviteRecord (acceptRecord rc username at) \<noteq> None")
      case False
      with Suc.prems g v rc now k2 show ?thesis
        by (auto simp: Let_def split: option.splits if_splits)
    next
      case True
      then obtain data where data: "marshalInviteRecord (acceptRecord rc username at) = Some data" by auto
      obtain r s3 where r: "env_update env uid data revision s2 = (r, s3)"
        by (cases "env_update env uid data revision s2")
      have reread: "unmarshalInviteRecord data = Some (acceptRecord rc username at)"
        using unmarshal_decoded [OF rc(1)] assms decoded_accept data by (blast intro: reread)
      have acc: "accepts (recordsOf kv s) uid username at (recordsOf kv t)"
        if "kv t = (kv s)(uid := (k, Some data))" for t k
        using recordsOf_upd [OF that] live rc reread by (auto simp: accepts_def)
      show ?thesis
      proof (cases r)
        case (Inr k)
        with Suc.prems g v rc now True data r have "x = None" "s' = s3" by (simp_all add: Let_def)
        moreover have "kv s3 = (kv s)(uid := (k, Some data))"
          using update_ok [OF r [unfolded Inr]] k2 by simp
        ultimately show ?thesis using acc by simp
      next
        case (Inl e)
        then have u: "kv s3 = kv s \<or> (\<exists>k. kv s3 = (kv s)(uid := (k, Some data)))"
          using update_err [of uid data revision s2 e s3] r k2 by auto
        show ?thesis
        proof (cases "isRevisionMismatch e \<and> maxMarkAcceptedRetries - Suc n < maxMarkAcceptedRetries - 1")
          case False
          with Suc.prems g v rc now True data r Inl u acc show ?thesis
            by (auto simp: Let_def split: if_splits)
        next
          case retry: True
          with Suc.prems g v rc now True data r Inl
          have again: "run env (markAttempts n uid username at) s3 = (x, s')" by (simp add: Let_def)
          have "kv s3 = kv s"
            using update_rejected [of uid data revision s2 e s3] r Inl retry k2
            by (auto simp: isRevisionMismatch_rejection)
          with Suc.IH [OF again] recordsOf_cong [of kv s3 s] show ?thesis by simp
        qed
      qed
    qed
  qed
qed

lemma Create_run:
  assumes "run env (Create u r) s = (x, s')"
  shows "x = None \<Longrightarrow> \<exists>d m n. marshalInviteRecord r = Some d
      \<and> kv s' = (kv s)(rec_UID r := (m, Some d),
                       emailIndexKey u (rcp_Email (rec_Recipient r)) (rec_UID r) := (n, Some (rec_UID r)))"
    and "k \<noteq> rec_UID r \<Longrightarrow> k \<noteq> emailIndexKey u (rcp_Email (rec_Recipient r)) (rec_UID r) \<Longrightarrow> kv s' k = kv s k"
proof -
  let ?k = "emailIndexKey u (rcp_Email (rec_Recipient r)) (rec_UID r)"
  have "(x = None \<longrightarrow> (\<exists>d m n. marshalInviteRecord r = Some d \<and> kv s' = (kv s)(rec_UID r := (m, Some d), ?k := (n, Some (rec_UID r)))))
     \<and> (k \<noteq> rec_UID r \<longrightarrow> k \<noteq> ?k \<longrightarrow> kv s' k = kv s k)"
  proof (cases "marshalInviteRecord r")
    case None
    with assms show ?thesis by (auto simp: Create_def)
  next
    case (Some d)
    obtain p s1 where p: "env_put env (rec_UID r) d s = (p, s1)" by (cases "env_put env (rec_UID r) d s")
    have f1: "k \<noteq> rec_UID r \<Longrightarrow> kv s1 k = kv s k"
      using p by (cases p) (auto dest!: put_ok put_err)
    show ?thesis
    proof (cases p)
      case (Inl e)
      with assms Some p f1 show ?thesis by (auto simp: Create_def)
    next
      case (Inr m)
      obtain q s2 where q: "env_put env ?k (rec_UID r) s1 = (q, s2)" by (cases "env_put env ?k (rec_UID r) s1")
      have f2: "k \<noteq> ?k \<Longrightarrow> kv s2 k = kv s1 k"
        using q by (cases q) (auto dest!: put_ok put_err)
      show ?thesis
      proof (cases q)
        case (Inl e)
        obtain d' s3 where d': "env_delete env (rec_UID r) s2 = (d', s3)" by (cases "env_delete env (rec_UID r) s2")
        have "k \<noteq> rec_UID r \<Longrightarrow> kv s3 k = kv s2 k"
          using d' by (cases d') (auto dest!: delete_ok delete_err)
        with assms Some p Inr q Inl d' f1 f2 show ?thesis by (auto simp: Create_def)
      next
        case q2: (Inr n)
        have "kv s2 = (kv s)(rec_UID r := (m, Some d), ?k := (n, Some (rec_UID r)))"
          using put_ok [OF p [unfolded Inr]] put_ok [OF q [unfolded q2]] by simp
        with assms Some p Inr q q2 f1 f2 show ?thesis by (auto simp: Create_def)
      qed
    qed
  qed
  then show "x = None \<Longrightarrow> \<exists>d m n. marshalInviteRecord r = Some d \<and> kv s' = (kv s)(rec_UID r := (m, Some d), ?k := (n, Some (rec_UID r)))"
    and "k \<noteq> rec_UID r \<Longrightarrow> k \<noteq> ?k \<Longrightarrow> kv s' k = kv s k" by blast+
qed

lemma delete_frame: "env_delete env k s = (x, s') \<Longrightarrow> k' \<noteq> k \<Longrightarrow> kv s' k' = kv s k'"
  by (cases x) (auto dest!: delete_ok delete_err)

lemma Delete_run:
  assumes "run env (DeleteInvite u uid) s = (x, s')"
  shows "isUid uid \<Longrightarrow> x = None \<Longrightarrow> snd (kv s' uid) = None"
    and "isUid k \<Longrightarrow> k \<noteq> uid \<Longrightarrow> kv s' k = kv s k"
proof -
  obtain g s1 where g: "env_get env uid s = (g, s1)" by (cases "env_get env uid s")
  note g1 = get_kv [OF g]
  have "(isUid uid \<and> x = None \<longrightarrow> snd (kv s' uid) = None) \<and> (isUid k \<and> k \<noteq> uid \<longrightarrow> kv s' k = kv s k)"
  proof (cases "\<exists>vl n rc. g = Inr (vl, n) \<and> unmarshalInviteRecord vl = Some rc")
    case False
    with assms g g1 show ?thesis
      by (auto simp: DeleteInvite_def split: sum.splits option.splits)
  next
    case True
    then obtain vl n rc where v: "g = Inr (vl, n)" "unmarshalInviteRecord vl = Some rc" by blast
    let ?ix = "emailIndexKey u (rcp_Email (rec_Recipient rc)) uid"
    obtain d s2 where d: "env_delete env uid s1 = (d, s2)" by (cases "env_delete env uid s1")
    obtain d' s3 where d': "env_delete env ?ix s2 = (d', s3)" by (cases "env_delete env ?ix s2")
    have f: "k \<noteq> uid \<Longrightarrow> kv s2 k = kv s k" using delete_frame [OF d] g1 by simp
    have ix: "isUid j \<Longrightarrow> kv s3 j = kv s2 j" for j
      using delete_frame [OF d'] isUid_neq_indexKey by metis
    show ?thesis
    proof (cases d)
      case None
      then have "snd (kv s2 uid) = None" using delete_ok [of uid s1 s2] d by auto
      with assms g v d d' None f ix show ?thesis by (auto simp: DeleteInvite_def)
    next
      case (Some e)
      then have "le_notFound e \<Longrightarrow> snd (kv s2 uid) = None" using delete_notFound [of uid s1 e s2] d by auto
      with assms g v d d' Some f ix show ?thesis by (auto simp: DeleteInvite_def split: if_splits)
    qed
  qed
  then show "isUid uid \<Longrightarrow> x = None \<Longrightarrow> snd (kv s' uid) = None"
    and "isUid k \<Longrightarrow> k \<noteq> uid \<Longrightarrow> kv s' k = kv s k" by blast+
qed

lemma recordsOf_key: "kv s' k = kv s k \<Longrightarrow> recordsOf kv s' k = recordsOf kv s k"
  by (simp add: recordsOf_def)

end

section \<open>The contract of the store\<close>

sublocale kv_contract \<subseteq> repo: invite_store "NATSInviteRepository u" env "recordsOf kv" "indexedOf u kv" for u
proof unfold_locales
  fix uid s x s'
  assume "run env (st_GetByUID (NATSInviteRepository u) uid) s = (x, s')"
  then show "recordsOf kv s' = recordsOf kv s" by (auto dest: GetByUID_run intro: recordsOf_cong)
next
  fix email s y s'
  assume "run env (st_GetByEmail (NATSInviteRepository u) email) s = (y, s')"
  then show "recordsOf kv s' = recordsOf kv s" by (auto dest: GetByEmail_run intro: recordsOf_cong)
next
  fix username uid at s e s'
  assume "validUTF8 username" "run env (st_MarkAccepted (NATSInviteRepository u) uid username at) s = (Some e, s')"
  then show "recordsOf kv s' = recordsOf kv s \<or> noSentinel e \<and> accepts (recordsOf kv s) uid username at (recordsOf kv s')"
    using markAttempts_run [of username maxMarkAcceptedRetries uid at s "Some e" s'] recordsOf_cong [of kv s' s]
    by (simp add: MarkAccepted_def) blast
next
  fix r s s' k
  assume uid: "isUid (rec_UID r)" and d: "decodedRecord r"
    and run: "run env (st_Create (NATSInviteRepository u) r) s = (None, s')" and k: "isUid k"
  from run obtain t m n where t: "marshalInviteRecord r = Some t"
    "kv s' = (kv s)(rec_UID r := (m, Some t), emailIndexKey u (rcp_Email (rec_Recipient r)) (rec_UID r) := (n, Some (rec_UID r)))"
    using Create_run(1) [of u r s None s'] by auto
  with k isUid_neq_indexKey [OF uid] reread [OF d t(1)] show "recordsOf kv s' k = ((recordsOf kv s)(rec_UID r := Some r)) k"
    by (auto simp: recordsOf_def)
next
  fix r s s'
  assume "isUid (rec_UID r)" "run env (st_Create (NATSInviteRepository u) r) s = (None, s')"
  then show "indexedOf u kv s' (rcp_Email (rec_Recipient r)) (rec_UID r)"
    using Create_run(1) [of u r s None s'] by (auto simp: indexedOf_def)
next
  fix k r s ce s'
  assume "isUid k" "k \<noteq> rec_UID r" "run env (st_Create (NATSInviteRepository u) r) s = (ce, s')"
  then show "recordsOf kv s' k = recordsOf kv s k"
    using Create_run(2) [of u r s ce s' k] isUid_neq_indexKey by (auto intro: recordsOf_key)
next
  fix uid s s' k
  assume "isUid uid" "run env (st_Delete (NATSInviteRepository u) uid) s = (None, s')" "isUid k"
  then show "recordsOf kv s' k = ((recordsOf kv s)(uid := None)) k"
    using Delete_run(1) [of u uid s None s'] Delete_run(2) [of u uid s None s' k] by (auto simp: recordsOf_def)
next
  fix k uid s de s'
  assume "isUid k" "k \<noteq> uid" "run env (st_Delete (NATSInviteRepository u) uid) s = (de, s')"
  then show "recordsOf kv s' k = recordsOf kv s k"
    using Delete_run(2) [of u uid s de s' k] by (auto intro: recordsOf_key)
qed (auto simp: MarkAccepted_def dest: GetByUID_run GetByEmail_run markAttempts_run)

end
