(* ===== verification/Acceptance_Laws.thy ===== *)
theory Acceptance_Laws
  imports Config_Server Repository_Laws
begin

text \<open>
  The acceptance use case on its ports. \<open>verified\<close> is the evidence the handler asks for; on every
  execution the bucket is written and the event published only with it. \<open>acceptance_ports\<close> states
  what else the handler relies on; \<open>NATSInviteRepository\<close>, \<open>Verify\<close> and \<open>Publish\<close> provide it.
\<close>

section \<open>Evidence\<close>

text \<open>The checks of an event against a record, given what the token says.\<close>

definition evidenceFor :: "InviteAcceptedEvent \<Rightarrow> InviteRecord \<Rightarrow> time \<Rightarrow> InviteTokenClaims \<Rightarrow> bool" where
  "evidenceFor evt r now claims \<longleftrightarrow>
     evt_InviteUID evt \<noteq> [] \<and> evt_Username evt \<noteq> [] \<and> evt_Token evt \<noteq> []
     \<and> rec_Status r \<noteq> InviteStatusAccepted \<and> before now (rec_ExpiresAt r)
     \<and> tc_InviteUID claims = rec_UID r \<and> tc_Email claims = rcp_Email (rec_Recipient r)
     \<and> (rcp_Username (rec_Recipient r) = [] \<or> evt_Username evt = rcp_Username (rec_Recipient r))"

lemma verifyAcceptance_None:
  "exec (verifyAcceptance svc evt r now) tr None \<longleftrightarrow>
     evt_Token evt \<noteq> [] \<and> before now (rec_ExpiresAt r)
     \<and> (\<exists>claims. exec (as_tokenVerifier svc (evt_Token evt)) tr (Inr claims)
          \<and> tc_InviteUID claims = rec_UID r \<and> tc_Email claims = rcp_Email (rec_Recipient r)
          \<and> (rcp_Username (rec_Recipient r) = [] \<or> evt_Username evt = rcp_Username (rec_Recipient r)))"
  unfolding verifyAcceptance_def by (auto simp: prog_simps exec_bind) (force+)

lemma verifyAcceptance_noEffect:
  assumes "\<And>tr x. exec (as_tokenVerifier svc (evt_Token evt)) tr x \<Longrightarrow> noEffect tr"
    "exec (verifyAcceptance svc evt r now) tr x"
  shows "noEffect tr"
  using assms unfolding verifyAcceptance_def
  by (auto simp: prog_simps exec_bind noEffect_iff)

lemma GetByUID_noEffect: "exec (GetByUID uid) tr x \<Longrightarrow> noEffect tr"
  unfolding GetByUID_def by (auto simp: prog_simps noEffect_def)

lemma GetByUID_Inr:
  "exec (GetByUID uid) tr (Inr r) \<longleftrightarrow> (\<exists>v n. tr = [EGet uid (Inr (v, n))] \<and> unmarshalInviteRecord v = Some r)"
  (is "?l \<longleftrightarrow> ?r")
proof
  assume ?l
  then show ?r unfolding GetByUID_def by (auto simp: prog_simps split: option.splits)
next
  assume ?r
  then show ?l unfolding GetByUID_def by (auto simp: prog_simps)
qed

section \<open>Executions of the handler\<close>

text \<open>An execution with an effect passed every check, in this order.\<close>

lemma HandleInviteAccepted_exec:
  assumes "exec (HandleInviteAccepted svc evt) tr x" "\<not> noEffect tr"
    and get: "\<And>tr x. exec (st_GetByUID (as_inviteStore svc) (evt_InviteUID evt)) tr x \<Longrightarrow> noEffect tr"
    and verify: "\<And>tr x. exec (as_tokenVerifier svc (evt_Token evt)) tr x \<Longrightarrow> noEffect tr"
  obtains r claims now tr1 tr2 tr3 tr4 y where
    "tr = tr1 @ ENow now # tr2 @ tr3 @ tr4"
    "exec (st_GetByUID (as_inviteStore svc) (evt_InviteUID evt)) tr1 (Inr r)"
    "exec (as_tokenVerifier svc (evt_Token evt)) tr2 (Inr claims)"
    "evidenceFor evt r now claims"
    "exec (st_MarkAccepted (as_inviteStore svc) (evt_InviteUID evt) (evt_Username evt) now) tr3 y"
    "(y = None \<and> exec (publishAccepted svc (evt_InviteUID evt)) tr4 ()) \<or> (y \<noteq> None \<and> tr4 = [])"
proof -
  have ids: "evt_InviteUID evt \<noteq> []" "evt_Username evt \<noteq> []"
    using assms(1,2) by (auto simp: HandleInviteAccepted_def prog_simps noEffect_def)
  with assms(1) obtain tr1 g trb where g: "tr = tr1 @ trb"
    "exec (st_GetByUID (as_inviteStore svc) (evt_InviteUID evt)) tr1 g"
    and b: "exec (case g of Inl err \<Rightarrow> Return ()
       | Inr record \<Rightarrow>
          if rec_Status record = InviteStatusAccepted then Return ()
          else Now (\<lambda>now.
            bind (verifyAcceptance svc evt record now) (\<lambda>r. case r of
              Some err \<Rightarrow> Return ()
            | None \<Rightarrow>
                bind (st_MarkAccepted (as_inviteStore svc) (evt_InviteUID evt) (evt_Username evt) now) (\<lambda>r. case r of
                  Some err \<Rightarrow> Return ()
                | None \<Rightarrow> publishAccepted svc (evt_InviteUID evt))))) trb x"
    unfolding HandleInviteAccepted_def by (auto simp: exec_bind)
  note n1 = get [OF g(2)]
  have "trb \<noteq> []" using n1 g(1) assms(2) by auto
  with b obtain r now trc where r: "g = Inr r" "rec_Status r \<noteq> InviteStatusAccepted" "trb = ENow now # trc"
    and c: "exec (bind (verifyAcceptance svc evt r now) (\<lambda>r. case r of
              Some err \<Rightarrow> Return ()
            | None \<Rightarrow>
                bind (st_MarkAccepted (as_inviteStore svc) (evt_InviteUID evt) (evt_Username evt) now) (\<lambda>r. case r of
                  Some err \<Rightarrow> Return ()
                | None \<Rightarrow> publishAccepted svc (evt_InviteUID evt)))) trc x"
    by (auto simp: prog_simps)
  from c obtain tr2 v trd where v: "trc = tr2 @ trd" "exec (verifyAcceptance svc evt r now) tr2 v"
    and d: "exec (case v of
              Some err \<Rightarrow> Return ()
            | None \<Rightarrow>
                bind (st_MarkAccepted (as_inviteStore svc) (evt_InviteUID evt) (evt_Username evt) now) (\<lambda>r. case r of
                  Some err \<Rightarrow> Return ()
                | None \<Rightarrow> publishAccepted svc (evt_InviteUID evt))) trd x"
    unfolding exec_bind by blast
  note n2 = verifyAcceptance_noEffect [OF verify v(2)]
  have "trd \<noteq> []" using n1 n2 g(1) v(1) r(3) assms(2) by (auto simp: noEffect_iff)
  with d have vn: "v = None" by (cases v) (auto simp: prog_simps)
  with d obtain tr3 y tr4 where m: "trd = tr3 @ tr4"
    "exec (st_MarkAccepted (as_inviteStore svc) (evt_InviteUID evt) (evt_Username evt) now) tr3 y"
    "(y = None \<and> exec (publishAccepted svc (evt_InviteUID evt)) tr4 ()) \<or> (y \<noteq> None \<and> tr4 = [])"
    by (auto simp: exec_bind prog_simps)
  from v(2) vn obtain claims where "exec (as_tokenVerifier svc (evt_Token evt)) tr2 (Inr claims)"
    "evidenceFor evt r now claims"
    using ids r(2) by (auto simp: verifyAcceptance_None evidenceFor_def)
  with that [of tr1 now tr2 tr3 tr4 r claims y] g r v m show thesis by auto
qed

section \<open>On the repository, the JWT verifier and the NATS client\<close>

text \<open>The acceptance service as the server wires it.\<close>

definition acceptanceService :: "(nat \<Rightarrow> nat) \<Rightarrow> jwtlib \<Rightarrow> string \<Rightarrow> AcceptanceService" where
  "acceptanceService u jwt secret =
     \<lparr>as_inviteStore = NATSInviteRepository u, as_publisher = Publish, as_tokenVerifier = Verify jwt secret\<rparr>"

lemma wireServer_acceptSvc:
  "srv_acceptSvc (wireServer pf cfg) =
     acceptanceService (lib_lower (plat_golib pf)) (plat_jwt pf) (app_InviteJWTSecret cfg)"
  by (simp add: wireServer_def NewServer_def NewAcceptanceService_def auth_constructors acceptanceService_def Let_def)

lemma acceptanceService_simps [simp]:
  "as_inviteStore (acceptanceService u jwt secret) = NATSInviteRepository u"
  "as_publisher (acceptanceService u jwt secret) = Publish"
  "as_tokenVerifier (acceptanceService u jwt secret) = Verify jwt secret"
  by (simp_all add: acceptanceService_def)

text \<open>The evidence in terms of what was read and of the library's answer.\<close>

definition acceptedBy :: "jwtlib \<Rightarrow> string \<Rightarrow> InviteAcceptedEvent \<Rightarrow> InviteRecord \<Rightarrow> time \<Rightarrow> bool" where
  "acceptedBy jwt secret evt r now \<longleftrightarrow>
     (\<exists>t claims. jwt_ParseWithClaims jwt verifyOpts secret t (evt_Token evt) = Inr claims
        \<and> map_of claims ''jti'' = Some (ClaimStr (rec_UID r))
        \<and> map_of claims ''invite_uid'' = Some (ClaimStr (rec_UID r))
        \<and> map_of claims ''email'' = Some (ClaimStr (rcp_Email (rec_Recipient r))))
     \<and> evt_Username evt \<noteq> [] \<and> rec_UID r \<noteq> [] \<and> rcp_Email (rec_Recipient r) \<noteq> []
     \<and> rec_Status r \<noteq> InviteStatusAccepted \<and> before now (rec_ExpiresAt r)
     \<and> (rcp_Username (rec_Recipient r) = [] \<or> evt_Username evt = rcp_Username (rec_Recipient r))"

lemma acceptance_exec:
  assumes "exec (HandleInviteAccepted (acceptanceService u jwt secret) evt) tr x" "\<not> noEffect tr"
  obtains v n r now tr2 tr3 tr4 y where
    "tr = EGet (evt_InviteUID evt) (Inr (v, n)) # ENow now # tr2 @ tr3 @ tr4"
    "unmarshalInviteRecord v = Some r" "acceptedBy jwt secret evt r now" "noEffect tr2"
    "exec (MarkAccepted (evt_InviteUID evt) (evt_Username evt) now) tr3 y"
    "(y = None \<and> exec (publishAccepted (acceptanceService u jwt secret) (evt_InviteUID evt)) tr4 ()) \<or> (y \<noteq> None \<and> tr4 = [])"
proof -
  obtain r claims now tr1 tr2 tr3 tr4 y where h:
    "tr = tr1 @ ENow now # tr2 @ tr3 @ tr4" "exec (GetByUID (evt_InviteUID evt)) tr1 (Inr r)"
    "exec (Verify jwt secret (evt_Token evt)) tr2 (Inr claims)" "evidenceFor evt r now claims"
    "exec (MarkAccepted (evt_InviteUID evt) (evt_Username evt) now) tr3 y"
    "(y = None \<and> exec (publishAccepted (acceptanceService u jwt secret) (evt_InviteUID evt)) tr4 ()) \<or> (y \<noteq> None \<and> tr4 = [])"
    using HandleInviteAccepted_exec [OF assms] GetByUID_noEffect Verify_noEffect by auto metis
  from h(2) obtain v n where g: "tr1 = [EGet (evt_InviteUID evt) (Inr (v, n))]" "unmarshalInviteRecord v = Some r"
    by (auto simp: GetByUID_Inr)
  have "acceptedBy jwt secret evt r now"
    using h(3,4) by (auto simp: Verify_ok acceptedBy_def evidenceFor_def)
  with that [of v n now tr2 tr3 tr4 r y] g h Verify_noEffect [OF h(3)] show thesis by auto
qed

end
