(* ===== verification/Acceptance_Ports.thy ===== *)
theory Acceptance_Ports
  imports Acceptance_Laws
begin

text \<open>
  Acceptance against the contract of the store: the records change by one acceptance of the
  event's invite, with evidence, or not at all. The contract is provided by the repository on any
  bucket that keeps its own, the JWT verifier and the NATS publisher.
\<close>

locale acceptance_ports = invite_store +
  fixes verifier :: InviteTokenVerifier and publisher :: EventPublisher
  assumes verify_frame: "run env (verifier token) s = (v, s') \<Longrightarrow> recs s' = recs s"
    and now_frame: "env_now env s = (t, s') \<Longrightarrow> recs s' = recs s"
    and publish_frame: "run env (publisher subj d) s = (e, s') \<Longrightarrow> recs s' = recs s"

definition acceptanceOn :: "InviteStore \<Rightarrow> InviteTokenVerifier \<Rightarrow> EventPublisher \<Rightarrow> AcceptanceService" where
  "acceptanceOn store verifier publisher =
     \<lparr>as_inviteStore = store, as_publisher = publisher, as_tokenVerifier = verifier\<rparr>"

lemma acceptanceOn_simps [simp]:
  "as_inviteStore (acceptanceOn st v p) = st" "as_publisher (acceptanceOn st v p) = p"
  "as_tokenVerifier (acceptanceOn st v p) = v"
  by (simp_all add: acceptanceOn_def)

context acceptance_ports
begin

abbreviation svc :: AcceptanceService where
  "svc \<equiv> acceptanceOn store verifier publisher"

lemma publishAccepted_frame:
  assumes "run env (publishAccepted svc uid) s = (x, s')"
  shows "recs s' = recs s"
proof -
  obtain g s1 where g: "run env (st_GetByUID store uid) s = (g, s1)" by (cases "run env (st_GetByUID store uid) s")
  then have "recs s1 = recs s" by (rule getByUID_frame)
  with assms g show ?thesis
    by (auto simp: publishAccepted_def prog_simps Let_def split: sum.splits option.splits prod.splits dest: publish_frame)
qed

lemma verifyAcceptance_run:
  assumes "run env (verifyAcceptance svc evt r now) s = (x, s')"
  shows "recs s' = recs s"
    and "x = None \<Longrightarrow> \<exists>claims. run env (verifier (evt_Token evt)) s = (Inr claims, s')
      \<and> evt_Token evt \<noteq> [] \<and> before now (rec_ExpiresAt r) \<and> tc_InviteUID claims = rec_UID r
      \<and> tc_Email claims = rcp_Email (rec_Recipient r)
      \<and> (rcp_Username (rec_Recipient r) = [] \<or> evt_Username evt = rcp_Username (rec_Recipient r))"
  using assms
  by (auto simp: verifyAcceptance_def prog_simps split: sum.splits prod.splits if_splits dest: verify_frame)

text \<open>The handler refines one optional acceptance step of the abstract records.\<close>

lemma accept_run:
  assumes run: "run env (HandleInviteAccepted svc evt) s = (x, s')" and user: "validUTF8 (evt_Username evt)"
  shows "recs s' = recs s \<or>
    (\<exists>r now claims s1 s2. recs s (evt_InviteUID evt) = Some r \<and> evidenceFor evt r now claims
       \<and> run env (verifier (evt_Token evt)) s1 = (Inr claims, s2)
       \<and> accepts (recs s) (evt_InviteUID evt) (evt_Username evt) now (recs s'))"
proof (cases "evt_InviteUID evt = [] \<or> evt_Username evt = []")
  case True
  with run show ?thesis by (simp add: HandleInviteAccepted_def)
next
  case ids: False
  let ?uid = "evt_InviteUID evt"
  obtain g s1 where g: "run env (st_GetByUID store ?uid) s = (g, s1)" by (cases "run env (st_GetByUID store ?uid) s")
  note g1 = getByUID_frame [OF g]
  show ?thesis
  proof (cases "\<exists>r. g = Inr r \<and> rec_Status r \<noteq> InviteStatusAccepted")
    case False
    with run ids g g1 show ?thesis by (auto simp: HandleInviteAccepted_def prog_simps split: sum.splits)
  next
    case True
    then obtain r where r: "g = Inr r" "rec_Status r \<noteq> InviteStatusAccepted" by blast
    obtain now s2 where now: "env_now env s1 = (now, s2)" by (cases "env_now env s1")
    obtain v s3 where v: "run env (verifyAcceptance svc evt r now) s2 = (v, s3)"
      by (cases "run env (verifyAcceptance svc evt r now) s2")
    note v1 = verifyAcceptance_run [OF v]
    have k3: "recs s3 = recs s" using v1(1) now_frame [OF now] g1 by simp
    show ?thesis
    proof (cases v)
      case (Some err)
      with run ids g r now v k3 show ?thesis by (simp add: HandleInviteAccepted_def prog_simps)
    next
      case None
      obtain m s4 where m: "run env (st_MarkAccepted store ?uid (evt_Username evt) now) s3 = (m, s4)"
        by (cases "run env (st_MarkAccepted store ?uid (evt_Username evt) now) s3")
      have "recs s' = recs s4"
      proof (cases m)
        case None
        with run ids g r now v \<open>v = None\<close> m have "run env (publishAccepted svc ?uid) s4 = (x, s')"
          by (simp add: HandleInviteAccepted_def prog_simps)
        then show ?thesis by (rule publishAccepted_frame)
      qed (use run ids g r now v None m in \<open>simp add: HandleInviteAccepted_def prog_simps\<close>)
      moreover have "recs s4 = recs s \<or> accepts (recs s) ?uid (evt_Username evt) now (recs s4)"
        using markAccepted_ok [OF user] markAccepted_err [OF user] m k3 by (cases m) fastforce+
      moreover obtain claims where "run env (verifier (evt_Token evt)) s2 = (Inr claims, s3)" "evidenceFor evt r now claims"
        using v1(2) [OF None] ids r(2) by (auto simp: evidenceFor_def)
      moreover have "recs s ?uid = Some r" using getByUID_ok g r(1) by simp
      ultimately show ?thesis by metis
    qed
  qed
qed

end

section \<open>Provided by the repository\<close>

lemma Publish_noWrite: "exec (Publish subj d) tr x \<Longrightarrow> noWrite tr"
  by (auto simp: Publish_def prog_simps)

sublocale kv_contract \<subseteq> acc: acceptance_ports "NATSInviteRepository u" env "recordsOf kv" "indexedOf u kv"
    "Verify jwt secret" Publish for u jwt secret
proof unfold_locales
  fix token s v s'
  assume "run env (Verify jwt secret token) s = (v, s')"
  then show "recordsOf kv s' = recordsOf kv s"
    by (intro recordsOf_cong run_noWrite) (auto dest: Verify_noEffect simp: noEffect_iff)
next
  fix s t s'
  assume "env_now env s = (t, s')"
  then show "recordsOf kv s' = recordsOf kv s" by (intro recordsOf_cong now_kv)
next
  fix subj d s e s'
  assume "run env (Publish subj d) s = (e, s')"
  then show "recordsOf kv s' = recordsOf kv s"
    by (intro recordsOf_cong) (erule run_noWrite, rule Publish_noWrite)
qed

lemma acceptanceOn_service:
  "acceptanceOn (NATSInviteRepository u) (Verify jwt secret) Publish = acceptanceService u jwt secret"
  by (simp add: acceptanceOn_def acceptanceService_def)

text \<open>The refinement of one acceptance on every bucket that keeps its contract.\<close>

context kv_contract
begin

lemmas acceptance_run = acc.accept_run [unfolded acceptanceOn_service]

end

end
