(* ===== verification/Notification_Laws.thy ===== *)
theory Notification_Laws
  imports Acceptance_Ports
begin

text \<open>
  The send-invite use case: what the validation accepts, the order of its effects on every
  execution, and what a run leaves in the store.
\<close>

section \<open>Validation\<close>

lemma validateReturnURL_noSentinel: "validateReturnURL lib url hosts = Some err \<Longrightarrow> noSentinel err"
  by (auto simp: validateReturnURL_def noSentinel_def split: if_splits sum.splits prod.splits)

lemma validateReturnURL_None:
  "validateReturnURL lib url hosts = None \<longleftrightarrow>
     hosts = [] \<or> (\<exists>host. lib_ParseURL lib url = Inr (''https'', host) \<and> (\<exists>p \<in> set hosts. matchHost host p))"
  by (auto simp: validateReturnURL_def list_ex_iff split: sum.splits prod.splits)

lemma validateSend_error: "validateSend lib cfg req = Inl err \<Longrightarrow> onlyIs err ErrInvalidRequest"
  by (auto simp: validateSend_def Let_def onlyIs_def split: if_splits sum.splits option.splits
      dest: validateReturnURL_noSentinel [unfolded noSentinel_def])

lemma validateSend_ok:
  "validateSend lib cfg req = Inr (email, role) \<longleftrightarrow>
     ResolvedRecipientEmail req \<noteq> [] \<and> lib_ParseAddress lib (ResolvedRecipientEmail req) = Inr email
     \<and> role = trimSpace (req_Role req) \<and> role \<noteq> []
     \<and> (req_ReturnURL req = [] \<or> validateReturnURL lib (req_ReturnURL req) (cfg_AllowedReturnURLHosts cfg) = None)"
  by (auto simp: validateSend_def Let_def split: sum.splits option.splits)

lemma matchHost_suffix:
  "hasPrefix p ''*.'' \<Longrightarrow> matchHost host p \<longleftrightarrow> (\<exists>sub. host = sub @ drop 1 p)"
  by (auto simp: matchHost_def hasSuffix_def suffix_def)

lemma matchHost_exact: "\<not> hasPrefix p ''*.'' \<Longrightarrow> matchHost host p \<longleftrightarrow> host = p"
  by (simp add: matchHost_def)

section \<open>Executions\<close>

lemma Create_None:
  "exec (Create u r) tr None \<longleftrightarrow>
     (\<exists>d m n. marshalInviteRecord r = Some d
        \<and> tr = [EPut (rec_UID r) d (Inr m),
                EPut (emailIndexKey u (rcp_Email (rec_Recipient r)) (rec_UID r)) (rec_UID r) (Inr n)])"
  unfolding Create_def by (auto simp: prog_simps)

lemma Create_Some: "exec (Create u r) tr (Some e) \<Longrightarrow> noSend tr \<and> noReply tr \<and> noSentinel e"
  unfolding Create_def by (auto simp: prog_simps)

lemma Create_quiet: "exec (Create u r) tr x \<Longrightarrow> noSend tr \<and> noReply tr"
  unfolding Create_def by (auto simp: prog_simps)

lemma Delete_quiet: "exec (DeleteInvite u uid) tr x \<Longrightarrow> noSend tr \<and> noReply tr"
  unfolding DeleteInvite_def by (auto simp: prog_simps)

lemma Generate_quiet: "exec (Generate jwt secret base p) tr x \<Longrightarrow> noEffect tr \<and> noReply tr"
  unfolding Generate_def by (auto simp: prog_simps Let_def noEffect_iff)

text \<open>The branches of \<open>dispatchInvite\<close> and of the handler, with a store.\<close>

lemma dispatchInvite_exec:
  assumes "exec (dispatchInvite svc req email role g) tr x" "ns_inviteStore svc = Some store"
  obtains (sent) trm entry where
      "exec (ns_emailSender svc (emailPayload req email role (gl_Link g))) trm None"
      "tr = trm @ [EAudit entry]" "aud_DeliveryState entry = DeliveryStateSent"
      "aud_RecipientEmail entry = redactEmail email"
      "x = Inr \<lparr>sir_InviteUID = gl_InviteUID g, sir_RecipientEmail = email, sir_ExpiresAt = gl_ExpiresAt g\<rparr>"
    | (failed) trm err entry trd de where
      "exec (ns_emailSender svc (emailPayload req email role (gl_Link g))) trm (Some err)"
      "tr = trm @ EAudit entry # trd" "aud_DeliveryState entry = DeliveryStateFailed"
      "aud_RecipientEmail entry = redactEmail email" "exec (st_Delete store (gl_InviteUID g)) trd de"
      "x = Inl (dispatchError req err)"
proof -
  obtain trm m tre where m: "tr = trm @ tre" "exec (ns_emailSender svc (emailPayload req email role (gl_Link g))) trm m"
    and e: "exec (case m of Some err \<Rightarrow> emailFailed svc req email role g err | None \<Rightarrow> emailSent req email role g) tre x"
    using assms(1) unfolding dispatchInvite_def exec_bind by blast
  show thesis
  proof (cases m)
    case None
    with e sent m show thesis by (auto simp: emailSent_def auditNotification_def auditEntry_def prog_simps)
  next
    case (Some err)
    with e assms(2) obtain entry trd de where "tre = EAudit entry # trd" "aud_DeliveryState entry = DeliveryStateFailed"
      "aud_RecipientEmail entry = redactEmail email" "exec (st_Delete store (gl_InviteUID g)) trd de"
      "x = Inl (dispatchError req err)"
      by (auto simp: emailFailed_def auditNotification_def auditEntry_def prog_simps exec_bind)
    with failed m Some show thesis by blast
  qed
qed

lemma persistInvite_exec:
  assumes "exec (persistInvite svc req email dest role g) tr x" "ns_inviteStore svc = Some store"
  obtains now tr2 tr3 y where "tr = ENow now # tr2 @ tr3"
    "exec (st_Create store (inviteRecordAt now (gl_InviteUID g) req email dest role (gl_ExpiresAt g) (gl_AcceptedClaims g))) tr2 y"
    "(\<exists>e. y = Some e \<and> tr3 = []
        \<and> x = Inl (Errorf [T ''persist invite record for resource '', S (ResolvedResourceUID req), T '': '', W e]))
     \<or> (y = None \<and> exec (dispatchInvite svc req email role g) tr3 x)"
proof -
  let ?rc = "\<lambda>now. inviteRecordAt now (gl_InviteUID g) req email dest role (gl_ExpiresAt g) (gl_AcceptedClaims g)"
  obtain now trb where b: "tr = ENow now # trb" "exec (bind (st_Create store (?rc now)) (\<lambda>storeErr. case storeErr of
      Some err \<Rightarrow> Return (Inl (Errorf [T ''persist invite record for resource '', S (ResolvedResourceUID req), T '': '', W err]))
    | None \<Rightarrow> dispatchInvite svc req email role g)) trb x"
    using assms unfolding persistInvite_def buildInviteRecord_def by (auto simp: prog_simps)
  from b(2) obtain tr2 y tr3 where "trb = tr2 @ tr3" "exec (st_Create store (?rc now)) tr2 y"
    "(\<exists>e. y = Some e \<and> tr3 = []
        \<and> x = Inl (Errorf [T ''persist invite record for resource '', S (ResolvedResourceUID req), T '': '', W e]))
     \<or> (y = None \<and> exec (dispatchInvite svc req email role g) tr3 x)"
    by (rule exec_bindE) (auto simp: prog_simps)
  with that b(1) show thesis by blast
qed

lemma HandleSendInvite_exec:
  assumes "exec (HandleSendInvite lib svc req) tr x" "ns_inviteStore svc = Some store"
  obtains (invalid) err where "validateSend lib (ns_config svc) req = Inl err" "tr = []" "x = Inl err"
    | (nolink) email role e where "validateSend lib (ns_config svc) req = Inr (email, role)"
      "exec (ns_linkGenerator svc (linkPayload req email (destinationURL (ns_config svc) req) role)) tr (Inl e)"
      "x = Inl (linkError req e)"
    | (stored) email role g trg now tr2 tr3 y where
      "validateSend lib (ns_config svc) req = Inr (email, role)"
      "exec (ns_linkGenerator svc (linkPayload req email (destinationURL (ns_config svc) req) role)) trg (Inr g)"
      "tr = trg @ ENow now # tr2 @ tr3"
      "exec (st_Create store (inviteRecordAt now (gl_InviteUID g) req email (destinationURL (ns_config svc) req) role
          (gl_ExpiresAt g) (gl_AcceptedClaims g))) tr2 y"
      "(\<exists>e. y = Some e \<and> tr3 = []
          \<and> x = Inl (Errorf [T ''persist invite record for resource '', S (ResolvedResourceUID req), T '': '', W e]))
       \<or> (y = None \<and> exec (dispatchInvite svc req email role g) tr3 x)"
proof (cases "validateSend lib (ns_config svc) req")
  case (Inl err)
  with assms invalid show thesis by (simp add: HandleSendInvite_def prog_simps)
next
  case (Inr er)
  obtain email role where er: "er = (email, role)" by (cases er)
  let ?gen = "ns_linkGenerator svc (linkPayload req email (destinationURL (ns_config svc) req) role)"
  obtain trg r trr where r: "tr = trg @ trr" "exec ?gen trg r"
    "exec (case r of Inl linkErr \<Rightarrow> Return (Inl (linkError req linkErr))
       | Inr g \<Rightarrow> persistInvite svc req email (destinationURL (ns_config svc) req) role g) trr x"
    using assms(1) Inr er unfolding HandleSendInvite_def by (auto simp: Let_def exec_bind)
  show thesis
  proof (cases r)
    case (Inl e)
    with r nolink [of email role e] Inr er show thesis by (simp add: prog_simps)
  next
    case g: (Inr g)
    with r(3) have p: "exec (persistInvite svc req email (destinationURL (ns_config svc) req) role g) trr x" by simp
    from persistInvite_exec [OF p assms(2)] stored [of email role trg g] Inr er r g show thesis
      by (metis (no_types, lifting))
  qed
qed

end
