(* ===== verification/Request_Decoded.thy ===== *)
theory Request_Decoded
  imports Notification_Laws
begin

text \<open>
  What a decoded send-invite request is known to satisfy, and that the record built from it can
  be stored and read back: the UTF-8 of its strings survives trimming and resolution.
\<close>

section \<open>Trimming keeps UTF-8\<close>

lemma validUTF8_front:
  assumes "validUTF8 (t @ c # q)" "\<not> is_cont c"
  shows "validUTF8 t"
  using assms(1)
proof (induction t rule: validUTF8.induct)
  case 1
  then show ?case by simp
next
  case (2 a s)
  let ?k = "runeLen (a # s @ c # q)"
  have v: "?k \<noteq> 0" "validUTF8 (drop ?k (a # s @ c # q))"
    using 2(2) by (auto simp: validUTF8.simps(2) Let_def split: if_splits)
  have k: "runeLen (a # s) = ?k \<and> ?k \<le> length (a # s)"
    using v(1)
  proof (cases rule: runeLen_shape)
    case 1
    then show ?thesis by (simp add: runeLen.simps(2))
  next
    case (2 b u)
    with assms(2) obtain s' where "s = b # s'" by (cases s) auto
    with 2 show ?thesis by (simp add: runeLen.simps(2))
  next
    case (3 b d u)
    then have "is_cont b" by (auto simp: is_cont_def split: if_splits)
    with 3 assms(2) obtain s' where "s = b # d # s'" by (cases s; cases "tl s") auto
    with 3 show ?thesis by (simp add: runeLen.simps(2))
  next
    case (4 b d e u)
    then have "is_cont b" by (auto simp: is_cont_def split: if_splits)
    with 4 assms(2) obtain s' where "s = b # d # e # s'" by (cases s; cases "tl s"; cases "tl (tl s)") auto
    with 4 show ?thesis by (simp add: runeLen.simps(2))
  qed
  then have "drop ?k ((a # s) @ c # q) = drop ?k (a # s) @ c # q"
    unfolding drop_append by simp
  with v k 2(1) [of ?k] show ?case by (simp add: validUTF8.simps(2) Let_def)
qed

lemma space_seqs_rune: "p \<in> set space_seqs \<Longrightarrow> runeLen (p @ t) = length p \<and> \<not> is_cont (hd p)"
  by (auto simp: space_seqs_def runeLen.simps(2) is_cont_def)

lemma trimSeqs_valid: "validUTF8 s \<Longrightarrow> validUTF8 (trimSeqs space_seqs s)"
proof (induction space_seqs s rule: trimSeqs.induct)
  case (1 s)
  show ?case
  proof (cases "find_prefix space_seqs s")
    case None
    with 1 show ?thesis by (simp add: trimSeqs.simps [of space_seqs s])
  next
    case (Some p)
    then have p0: "p \<in> set space_seqs" "prefix p s" using find_prefix_Some by blast+
    then obtain t where p: "p \<in> set space_seqs" "s = p @ t" "p \<noteq> []"
      using space_seqs_not_Nil [OF p0(1)] by (auto elim: prefixE)
    then have "validUTF8 t" using 1(2) validUTF8_rune [of p t] space_seqs_rune by simp
    with 1(1) [OF Some p(3)] p Some show ?thesis by (simp add: trimSeqs.simps [of space_seqs "p @ t"])
  qed
qed

lemma trimSeqs_rev_valid: "validUTF8 (rev s) \<Longrightarrow> validUTF8 (rev (trimSeqs (map rev space_seqs) s))"
proof (induction "map rev space_seqs" s rule: trimSeqs.induct)
  case (1 s)
  show ?case
  proof (cases "find_prefix (map rev space_seqs) s")
    case None
    with 1 show ?thesis by (simp add: trimSeqs.simps [of "map rev space_seqs" s])
  next
    case (Some r)
    then obtain p t where p: "p \<in> set space_seqs" "r = rev p" "s = rev p @ t"
      by (auto dest!: find_prefix_Some simp: prefix_def)
    obtain c q where c: "p = c # q" using space_seqs_not_Nil [OF p(1)] by (cases p) auto
    have "validUTF8 (rev t @ c # q)" using 1(2) p c by simp
    then have "validUTF8 (rev t)"
      using space_seqs_rune [OF p(1)] c by (auto intro: validUTF8_front)
    with 1(1) [OF Some] p c Some show ?thesis by (simp add: trimSeqs.simps [of "map rev space_seqs" "rev q @ c # t"])
  qed
qed

lemma trimSpace_valid: "validUTF8 s \<Longrightarrow> validUTF8 (trimSpace s)"
  unfolding trimSpace_def by (rule trimSeqs_rev_valid) (simp add: trimSeqs_valid)

section \<open>Requests\<close>

definition requestOK :: "SendInviteRequest \<Rightarrow> bool" where
  "requestOK req \<longleftrightarrow>
     validStrings [req_RecipientEmail req, req_RecipientName req, req_InviterName req, req_ResourceUID req,
       req_ResourceName req, req_ResourceType req, req_Role req, req_ReturnURL req, req_OrgName req]
     \<and> pred_option validRecipient (req_Recipient req) \<and> pred_option validInviter (req_Inviter req)
     \<and> pred_option validResource (req_Resource req)
     \<and> - (2 ^ 63) \<le> req_ExpirationDays req \<and> req_ExpirationDays req < 2 ^ 63
     \<and> validClaims (req_CustomClaims req)"

definition apiRequestOK :: "ApiSendInviteRequest \<Rightarrow> bool" where
  "apiRequestOK r \<longleftrightarrow> requestOK (apiToModelRequest r)"

definition validApiRecipient :: "ApiRecipient \<Rightarrow> bool" where
  "validApiRecipient p \<longleftrightarrow> validStrings [arcp_Name p, arcp_Email p, arcp_Username p, arcp_Avatar p]"

definition validApiInviter :: "ApiInviter \<Rightarrow> bool" where
  "validApiInviter p \<longleftrightarrow> validStrings [ainv_Name p, ainv_Email p, ainv_Username p, ainv_Avatar p]"

definition validApiResource :: "ApiResource \<Rightarrow> bool" where
  "validApiResource p \<longleftrightarrow> validStrings [ares_UID p, ares_Name p, ares_Type p, ares_ParentName p]"

lemmas valid_api_defs = validStrings_def validApiRecipient_def validApiInviter_def validApiResource_def

lemma keeps_api_recipient:
  "keeps validApiRecipient (dec_struct api_recipient_fields)"
  by (rule keeps_struct) (auto simp: api_recipient_fields_def valid_api_defs intro!: keeps_fld dest: dec_string_valid)

lemma keeps_api_inviter:
  "keeps validApiInviter (dec_struct api_inviter_fields)"
  by (rule keeps_struct) (auto simp: api_inviter_fields_def valid_api_defs intro!: keeps_fld dest: dec_string_valid)

lemma keeps_api_resource:
  "keeps validApiResource (dec_struct api_resource_fields)"
  by (rule keeps_struct) (auto simp: api_resource_fields_def valid_api_defs intro!: keeps_fld dest: dec_string_valid)

lemma dec_ptr_keeps:
  "keeps P dec \<Longrightarrow> P z \<Longrightarrow> pred_option P cur \<Longrightarrow> dec_ptr dec z j cur = Some v \<Longrightarrow> pred_option P v"
  by (cases cur; cases j) (auto simp: dec_ptr_def keeps_def)

lemma keeps_string:
  assumes "\<And>s. P s \<Longrightarrow> validUTF8 (g s)" "\<And>s v. P s \<Longrightarrow> validUTF8 v \<Longrightarrow> P (u (\<lambda>_. v) s)"
  shows "keeps P (fld dec_string g u)"
  using assms by (intro keeps_fld) (blast dest: dec_string_valid)

lemma keeps_int:
  assumes "\<And>s. P s \<Longrightarrow> - (2 ^ 63) \<le> g s \<and> g s < 2 ^ 63"
    "\<And>s v. P s \<Longrightarrow> - (2 ^ 63) \<le> v \<Longrightarrow> v < 2 ^ 63 \<Longrightarrow> P (u (\<lambda>_. v) s)"
  shows "keeps P (fld dec_int g u)"
  using assms by (intro keeps_fld) (blast dest: dec_int_range)

lemma keeps_map:
  assumes "\<And>s. P s \<Longrightarrow> validClaims (g s)" "\<And>s v. P s \<Longrightarrow> validClaims v \<Longrightarrow> P (u (\<lambda>_. v) s)"
  shows "keeps P (fld dec_map g u)"
  using assms by (intro keeps_fld) (blast dest: dec_map_valid)

lemma keeps_bool: "(\<And>s v. P s \<Longrightarrow> P (u (\<lambda>_. v) s)) \<Longrightarrow> keeps P (fld dec_bool g u)"
  by (intro keeps_fld) blast

lemma keeps_send_request: "keeps apiRequestOK (dec_struct send_request_fields)"
proof (rule keeps_struct)
  have z: "validApiRecipient zeroApiRecipient"
    "validApiInviter zeroApiInviter"
    "validApiResource zeroApiResource"
    by (simp_all add: valid_api_defs zeroApiRecipient_def zeroApiInviter_def zeroApiResource_def)
  note ptr = dec_ptr_keeps [OF keeps_api_recipient z(1)] dec_ptr_keeps [OF keeps_api_inviter z(2)]
    dec_ptr_keeps [OF keeps_api_resource z(3)]
  have o: "apiRequestOK r \<longleftrightarrow>
      validStrings [areq_RecipientEmail r, areq_RecipientName r, areq_InviterName r, areq_ResourceUID r,
        areq_ResourceName r, areq_ResourceType r, areq_Role r, areq_ReturnURL r, areq_OrgName r]
      \<and> pred_option validApiRecipient (areq_Recipient r)
      \<and> pred_option validApiInviter (areq_Inviter r)
      \<and> pred_option validApiResource (areq_Resource r)
      \<and> - (2 ^ 63) \<le> areq_ExpirationDays r \<and> areq_ExpirationDays r < 2 ^ 63 \<and> validClaims (areq_CustomClaims r)" for r
    by (cases "areq_Recipient r"; cases "areq_Inviter r"; cases "areq_Resource r")
       (auto simp: apiRequestOK_def requestOK_def apiToModelRequest_def valid_defs valid_api_defs)
  show "\<forall>f \<in> snd ` set send_request_fields. keeps apiRequestOK f"
    unfolding send_request_fields_def
    by (simp, intro conjI keeps_string keeps_int keeps_map keeps_bool keeps_fld) (auto simp: o validStrings_def dest: ptr)
qed

end
