(* ===== verification/Send_Laws.thy ===== *)
theory Send_Laws
  imports Request_Decoded
begin

text \<open>
  The send-invite use case as the server wires it: the full trace of a successful send, the
  record it leaves in the bucket, and the rollback when the email cannot be dispatched.
\<close>

section \<open>The record of a decoded request\<close>

theorem unmarshal_requestOK:
  assumes "unmarshalSendInviteRequest d = Some r"
  shows "requestOK (apiToModelRequest r)"
proof -
  have "apiRequestOK zeroApiSendInviteRequest"
    by (simp add: apiRequestOK_def requestOK_def apiToModelRequest_def zeroApiSendInviteRequest_def
        validStrings_def validClaims_def wf_map_def)
  then have "apiRequestOK r"
    using assms keeps_send_request unfolding keeps_def unmarshalSendInviteRequest_def unmarshal_def
    by (simp split: option.splits)
  then show ?thesis by (simp add: apiRequestOK_def)
qed

lemma firstNonEmpty_valid: "list_all validUTF8 vs \<Longrightarrow> validUTF8 (firstNonEmpty vs)"
  by (induction vs) auto

lemma resolved_valid:
  assumes "requestOK req"
  shows "validUTF8 (ResolvedInviterName req)" "validUTF8 (ResolvedRecipientName req)"
    "validUTF8 (ResolvedResourceUID req)" "validUTF8 (ResolvedResourceName req)"
    "validUTF8 (ResolvedResourceType req)" "validUTF8 (ResolvedParentResourceName req)"
  using assms by (auto simp: requestOK_def resolve valid_defs split: option.splits)

lemma decodedRecord_sent:
  assumes "requestOK req" "validUTF8 uid" "validUTF8 email" "validUTF8 dest" "validUTF8 role" "validClaims claims"
  shows "decodedRecord (inviteRecordAt now uid req email dest role expiry claims)"
proof -
  have "validUTF8 InviteStatusPending"
    by (intro validUTF8_ascii) (auto simp: InviteStatusPending_def is_ascii_def byte_def)
  then show ?thesis
    using assms resolved_valid [OF assms(1)] firstNonEmpty_valid
    by (auto simp: decodedRecord_def inviteRecordAt_def Let_def requestOK_def valid_defs zeroInviter_def
        zeroRecipient_def split: option.splits)
qed

lemma inviteRecordAt_simps [simp]:
  "rec_UID (inviteRecordAt now uid req email dest role expiry claims) = uid"
  "rec_Status (inviteRecordAt now uid req email dest role expiry claims) = InviteStatusPending"
  "rec_ExpiresAt (inviteRecordAt now uid req email dest role expiry claims) = expiry"
  "rcp_Email (rec_Recipient (inviteRecordAt now uid req email dest role expiry claims)) = email"
  "rec_ReturnURL (inviteRecordAt now uid req email dest role expiry claims) = dest"
  "rec_CustomClaims (inviteRecordAt now uid req email dest role expiry claims) = claims"
  "rec_Role (inviteRecordAt now uid req email dest role expiry claims) = role"
  "rec_AcceptedAt (inviteRecordAt now uid req email dest role expiry claims) = None"
  "rec_CreatedAt (inviteRecordAt now uid req email dest role expiry claims) = now"
  by (simp_all add: inviteRecordAt_def Let_def split: option.splits)

section \<open>The wired service\<close>

definition notificationService :: "platform \<Rightarrow> AppConfig \<Rightarrow> NotificationService" where
  "notificationService pf cfg = srv_notifSvc (wireServer pf cfg)"

definition notificationConfig :: "AppConfig \<Rightarrow> NotificationConfig" where
  "notificationConfig cfg =
     \<lparr>cfg_DefaultReturnURL = app_DefaultReturnURL cfg, cfg_AllowedReturnURLHosts = app_AllowedReturnURLHosts cfg\<rparr>"

lemma notificationService_simps [simp]:
  "ns_inviteStore (notificationService pf cfg) = Some (NATSInviteRepository (lib_lower (plat_golib pf)))"
  "ns_config (notificationService pf cfg) = notificationConfig cfg"
  "ns_emailSender (notificationService pf cfg) = SendNotification (plat_email pf) (plat_emailSubject pf)"
  "ns_linkGenerator (notificationService pf cfg) =
     Generate (plat_jwt pf) (app_InviteJWTSecret cfg) (app_SelfServeBaseURL cfg)"
  by (simp_all add: notificationService_def wireServer_def NewServer_def NewNotificationService_def NewNATSEmailSender_def
      auth_constructors Let_def notificationConfig_def)

text \<open>The record a successful request stores, given the result and the time of creation.\<close>

definition sentRecord :: "AppConfig \<Rightarrow> SendInviteRequest \<Rightarrow> SendInviteResult \<Rightarrow> time \<Rightarrow> InviteRecord" where
  "sentRecord cfg req result created =
     inviteRecordAt created (sir_InviteUID result) req (sir_RecipientEmail result)
       (destinationURL (notificationConfig cfg) req) (trimSpace (req_Role req)) (sir_ExpiresAt result)
       (nonReserved (req_CustomClaims req))"

abbreviation indexKeyOf :: "platform \<Rightarrow> SendInviteResult \<Rightarrow> string" where
  "indexKeyOf pf result \<equiv> emailIndexKey (lib_lower (plat_golib pf)) (sir_RecipientEmail result) (sir_InviteUID result)"

lemma link_generated:
  assumes "exec (ns_linkGenerator (notificationService pf cfg) (linkPayload req email dest role)) tr (Inr g)"
    "wf_map (req_CustomClaims req)"
  obtains t0 x where "tr = [ENow t0, EUUID (gl_InviteUID g), ERange (req_CustomClaims req) x]"
    "gl_ExpiresAt g = addDur t0 (tokenLifetime (req_ExpirationDays req))"
    "gl_AcceptedClaims g = nonReserved (req_CustomClaims req)"
proof -
  let ?lp = "linkPayload req email dest role"
  have lp: "lp_CustomClaims ?lp = req_CustomClaims req" "lp_ExpirationDays ?lp = req_ExpirationDays req"
    by (simp_all add: linkPayload_def)
  have gen: "exec (Generate (plat_jwt pf) (app_InviteJWTSecret cfg) (app_SelfServeBaseURL cfg) ?lp) tr (Inr g)"
    using assms(1) by simp
  have "wf_map (lp_CustomClaims ?lp)" using assms(2) lp by simp
  from Generate_exec [OF gen this] obtain t0 uid x where
    "tr = [ENow t0, EUUID uid, ERange (req_CustomClaims req) x]"
    "gl_InviteUID g = uid" "gl_ExpiresAt g = addDur t0 (tokenLifetime (req_ExpirationDays req))"
    "gl_AcceptedClaims g = nonReserved (req_CustomClaims req)"
    unfolding lp by (metis GeneratedLink.select_convs(2,3,4))
  with that show thesis by blast
qed

lemma send_success_exec:
  assumes "exec (HandleSendInvite (plat_golib pf) (notificationService pf cfg) req) tr (Inr result)"
    "wf_map (req_CustomClaims req)"
  obtains t0 x t1 data m n envelope r entry where
    "tr = [ENow t0, EUUID (sir_InviteUID result), ERange (req_CustomClaims req) x, ENow t1,
           EPut (sir_InviteUID result) data (Inr m), EPut (indexKeyOf pf result) (sir_InviteUID result) (Inr n),
           ERequest (plat_emailSubject pf) envelope r, EAudit entry]"
    "marshalInviteRecord (sentRecord cfg req result t1) = Some data" "acceptedReply (plat_email pf) r"
    "sir_ExpiresAt result = addDur t0 (tokenLifetime (req_ExpirationDays req))"
    "validateSend (plat_golib pf) (notificationConfig cfg) req = Inr (sir_RecipientEmail result, trimSpace (req_Role req))"
proof (cases rule: HandleSendInvite_exec [OF assms(1) notificationService_simps(1), case_names invalid nolink stored])
  case (stored email role g trg now tr2 tr3 y)
  from link_generated [OF stored(2) assms(2)] obtain t0 x where
    g: "trg = [ENow t0, EUUID (gl_InviteUID g), ERange (req_CustomClaims req) x]"
    "gl_ExpiresAt g = addDur t0 (tokenLifetime (req_ExpirationDays req))"
    "gl_AcceptedClaims g = nonReserved (req_CustomClaims req)" by metis
  from stored(5) have y: "y = None" and d: "exec (dispatchInvite (notificationService pf cfg) req email role g) tr3 (Inr result)"
    by auto
  show ?thesis
  proof (cases rule: dispatchInvite_exec [OF d notificationService_simps(1), case_names sent failed])
    case (sent trm entry)
    have res: "sir_InviteUID result = gl_InviteUID g" "sir_RecipientEmail result = email" "sir_ExpiresAt result = gl_ExpiresAt g"
      using sent(5) by simp_all
    from SendNotification_exec [OF sent(1) [simplified]] obtain envelope r where
      "trm = [ERequest (plat_emailSubject pf) envelope r]" "acceptedReply (plat_email pf) r" by auto
    moreover have role: "role = trimSpace (req_Role req)" using stored(1) by (simp add: validateSend_ok)
    moreover obtain data m n where "marshalInviteRecord (sentRecord cfg req result now) = Some data"
      "tr2 = [EPut (gl_InviteUID g) data (Inr m), EPut (indexKeyOf pf result) (gl_InviteUID g) (Inr n)]"
      using stored(4) y g role res by (auto simp: Create_None sentRecord_def)
    ultimately show ?thesis
      using that [of t0 x now data m n envelope r entry] g res sent(2) stored(1,3) by simp
  qed simp
qed simp_all

section \<open>Outcomes\<close>

lemma noSend_split:
  assumes "A @ e # B = pre @ e' # post" "noSend A" "noSend B" "isSend e'"
  shows "pre = A \<and> e' = e \<and> post = B"
  using assms by (induction A arbitrary: pre) (auto simp: Cons_eq_append_conv)

text \<open>Every execution, up to the shape of its parts: nothing sent, or sent after both writes.\<close>

lemma send_exec_cases:
  assumes "exec (HandleSendInvite (plat_golib pf) (notificationService pf cfg) req) tr x"
  obtains (quiet) "noSend tr" "\<And>res. x \<noteq> Inr res"
      "\<And>err. x = Inl err \<Longrightarrow> errors_Is err ErrInvalidRequest \<Longrightarrow> noWrite tr"
      "\<And>err. x = Inl err \<Longrightarrow> \<not> errors_Is err ErrEmailDispatchFailed"
    | (stored) A r data m n B where "tr = A @ B" "noSend A"
      "marshalInviteRecord r = Some data" "rec_Status r = InviteStatusPending"
      "EPut (rec_UID r) data (Inr m) \<in> set A"
      "EPut (emailIndexKey (lib_lower (plat_golib pf)) (rcp_Email (rec_Recipient r)) (rec_UID r)) (rec_UID r) (Inr n) \<in> set A"
      "noSend B \<or> (\<exists>d q B'. B = ERequest (plat_emailSubject pf) d q # B' \<and> noSend B'
                     \<and> ((\<exists>res. x = Inr res) \<longleftrightarrow> acceptedReply (plat_email pf) q))"
      "\<And>err. x = Inl err \<Longrightarrow> errors_Is err ErrEmailDispatchFailed \<and> \<not> errors_Is err ErrInvalidRequest"
      "\<And>res. x = Inr res \<Longrightarrow> \<not> noSend B"
proof (cases rule: HandleSendInvite_exec [OF assms notificationService_simps(1), case_names invalid nolink persisted])
  case (invalid err)
  then show ?thesis using quiet validateSend_error [OF invalid(1)] by (simp add: onlyIs_def)
next
  case (nolink email role e)
  have g: "noEffect tr" "onlyIs e ErrInvalidCustomClaims \<or> noSentinel e"
    using nolink(2) Generate_quiet Generate_error by auto
  then show ?thesis
    using quiet nolink(3) by (auto simp: noEffect_iff linkError_def onlyIs_def noSentinel_def split: if_splits)
next
  case (persisted email role g trg now tr2 tr3 y)
  let ?r = "inviteRecordAt now (gl_InviteUID g) req email (destinationURL (notificationConfig cfg) req) role
          (gl_ExpiresAt g) (gl_AcceptedClaims g)"
  have trg: "noSend trg" "noWrite trg" using persisted(2) Generate_quiet by (auto simp: noEffect_iff)
  show ?thesis
  proof (cases y)
    case (Some e)
    have "noSend tr2" "noSentinel e" using persisted(4) Create_Some Some by auto
    with persisted(3,5) Some trg show ?thesis
      by (intro quiet) (auto simp: noSentinel_def)
  next
    case None
    with persisted(4) obtain data m n where w: "marshalInviteRecord ?r = Some data"
      "tr2 = [EPut (rec_UID ?r) data (Inr m),
              EPut (emailIndexKey (lib_lower (plat_golib pf)) (rcp_Email (rec_Recipient ?r)) (rec_UID ?r)) (rec_UID ?r) (Inr n)]"
      by (auto simp: Create_None)
    from persisted(5) None have d: "exec (dispatchInvite (notificationService pf cfg) req email role g) tr3 x" by simp
    have B: "(noSend tr3 \<or> (\<exists>d q B'. tr3 = ERequest (plat_emailSubject pf) d q # B' \<and> noSend B'
                     \<and> ((\<exists>res. x = Inr res) \<longleftrightarrow> acceptedReply (plat_email pf) q)))
        \<and> (\<forall>err. x = Inl err \<longrightarrow> errors_Is err ErrEmailDispatchFailed \<and> \<not> errors_Is err ErrInvalidRequest)
        \<and> (\<forall>res. x = Inr res \<longrightarrow> \<not> noSend tr3)"
    proof (cases rule: dispatchInvite_exec [OF d notificationService_simps(1), case_names sent failed])
      case (sent trm entry)
      with SendNotification_exec [OF sent(1) [simplified]] show ?thesis by auto
    next
      case (failed trm err entry trd de)
      then have "noSend trd" "noSentinel err"
        using Delete_quiet SendNotification_noSentinel by auto
      with failed SendNotification_exec [OF failed(1) [simplified]] show ?thesis
        by (auto simp: dispatchError_def noSentinel_def)
    qed
    show ?thesis
      by (rule stored [of "trg @ ENow now # tr2" tr3 ?r data m n])
         (use B w trg persisted(3) in auto)
  qed
qed

text \<open>The record of a decoded request can be read back.\<close>

lemma decodedRecord_request:
  assumes "requestOK req" "validUTF8 uid" "validUTF8 email" "validUTF8 (app_DefaultReturnURL cfg)" "validUTF8 role"
  shows "decodedRecord (inviteRecordAt now uid req email (destinationURL (notificationConfig cfg) req) role expiry
    (nonReserved (req_CustomClaims req)))"
proof -
  have "validUTF8 (destinationURL (notificationConfig cfg) req)"
    using assms by (auto simp: destinationURL_def notificationConfig_def requestOK_def validStrings_def)
  moreover have "validClaims (nonReserved (req_CustomClaims req))"
    using assms(1)
    by (auto simp: requestOK_def validClaims_def wf_map_def sorted_wrt_map list_all_iff intro: sorted_wrt_filter)
  ultimately show ?thesis using assms by (intro decodedRecord_sent) auto
qed

section \<open>What a run leaves in the bucket\<close>

context kv_contract
begin

lemma send_success_run:
  assumes run: "run env (HandleSendInvite (plat_golib pf) (notificationService pf cfg) req) s = (Inr result, s')"
    and req: "requestOK req" and utf8: "validUTF8 (sir_InviteUID result)" "validUTF8 (sir_RecipientEmail result)"
      "validUTF8 (app_DefaultReturnURL cfg)" and uid: "isUid (sir_InviteUID result)"
  obtains created where
    "recordsOf kv s' (sir_InviteUID result) = Some (sentRecord cfg req result created)"
    "indexedOf (lib_lower (plat_golib pf)) kv s' (sir_RecipientEmail result) (sir_InviteUID result)"
    "\<And>k. k \<noteq> sir_InviteUID result \<Longrightarrow> isUid k \<Longrightarrow> recordsOf kv s' k = recordsOf kv s k"
proof -
  have wf: "wf_map (req_CustomClaims req)" using req by (simp add: requestOK_def validClaims_def)
  obtain tr where tr: "exec (HandleSendInvite (plat_golib pf) (notificationService pf cfg) req) tr (Inr result)"
    "kvTrace tr (kv s) (kv s')" using run_trace [OF run] by blast
  from send_success_exec [OF tr(1) wf] obtain t0 x t1 data m n envelope r entry where e:
    "tr = [ENow t0, EUUID (sir_InviteUID result), ERange (req_CustomClaims req) x, ENow t1,
           EPut (sir_InviteUID result) data (Inr m), EPut (indexKeyOf pf result) (sir_InviteUID result) (Inr n),
           ERequest (plat_emailSubject pf) envelope r, EAudit entry]"
    "marshalInviteRecord (sentRecord cfg req result t1) = Some data"
    "validateSend (plat_golib pf) (notificationConfig cfg) req = Inr (sir_RecipientEmail result, trimSpace (req_Role req))"
    by metis
  have kv: "kv s' = (kv s)(sir_InviteUID result := (m, Some data), indexKeyOf pf result := (n, Some (sir_InviteUID result)))"
    using tr(2) e(1) by simp
  have "validUTF8 (trimSpace (req_Role req))"
    using req trimSpace_valid by (auto simp: requestOK_def validStrings_def)
  then have "decodedRecord (sentRecord cfg req result t1)"
    unfolding sentRecord_def using req utf8 by (intro decodedRecord_request)
  from reread [OF this e(2)] kv isUid_neq_indexKey [OF uid]
  have "recordsOf kv s' (sir_InviteUID result) = Some (sentRecord cfg req result t1)"
    by (simp add: recordsOf_def)
  moreover have "indexedOf (lib_lower (plat_golib pf)) kv s' (sir_RecipientEmail result) (sir_InviteUID result)"
    using kv by (simp add: indexedOf_def)
  moreover have "recordsOf kv s' k = recordsOf kv s k" if "k \<noteq> sir_InviteUID result" "isUid k" for k
    using kv that isUid_neq_indexKey [OF that(2)] by (simp add: recordsOf_def)
  ultimately show thesis using that by blast
qed

end

section \<open>Rollback\<close>

text \<open>A failed dispatch after a successful store: the calls up to the end.\<close>

lemma send_failed_exec:
  assumes "exec (HandleSendInvite (plat_golib pf) (notificationService pf cfg) req) tr (Inl err)"
    "errors_Is err ErrEmailDispatchFailed" "wf_map (req_CustomClaims req)"
  obtains A now uid email role expiry data m n mid trd de where
    "tr = A @ [EPut uid data (Inr m), EPut (emailIndexKey (lib_lower (plat_golib pf)) email uid) uid (Inr n)] @ mid @ trd"
    "noWrite A" "noWrite mid" "EUUID uid \<in> set A"
    "marshalInviteRecord (inviteRecordAt now uid req email (destinationURL (notificationConfig cfg) req) role expiry
       (nonReserved (req_CustomClaims req))) = Some data"
    "validateSend (plat_golib pf) (notificationConfig cfg) req = Inr (email, role)"
    "exec (DeleteInvite (lib_lower (plat_golib pf)) uid) trd de"
proof (cases rule: HandleSendInvite_exec [OF assms(1) notificationService_simps(1), case_names invalid nolink persisted])
  case (invalid e)
  then show ?thesis using validateSend_error [OF invalid(1)] assms(2) by (simp add: onlyIs_def)
next
  case (nolink email role e)
  have "onlyIs e ErrInvalidCustomClaims \<or> noSentinel e" using nolink(2) Generate_error by auto
  then show ?thesis
    using nolink(3) assms(2) by (auto simp: linkError_def onlyIs_def noSentinel_def split: if_splits)
next
  case (persisted email role g trg now tr2 tr3 y)
  let ?r = "inviteRecordAt now (gl_InviteUID g) req email (destinationURL (notificationConfig cfg) req) role
          (gl_ExpiresAt g) (gl_AcceptedClaims g)"
  from link_generated [OF persisted(2) assms(3)] obtain t0 x where
    "trg = [ENow t0, EUUID (gl_InviteUID g), ERange (req_CustomClaims req) x]"
    "gl_AcceptedClaims g = nonReserved (req_CustomClaims req)" by metis
  then have g: "EUUID (gl_InviteUID g) \<in> set trg" "gl_AcceptedClaims g = nonReserved (req_CustomClaims req)"
    by simp_all
  have trg: "noWrite trg" using persisted(2) Generate_quiet by (auto simp: noEffect_iff)
  have y: "y = None"
    using persisted(4,5) Create_Some [of _ ?r tr2] assms(2) by (cases y) (auto simp: noSentinel_def)
  with persisted(4) obtain data m n where w: "marshalInviteRecord ?r = Some data"
    "tr2 = [EPut (gl_InviteUID g) data (Inr m),
            EPut (emailIndexKey (lib_lower (plat_golib pf)) email (gl_InviteUID g)) (gl_InviteUID g) (Inr n)]"
    by (auto simp: Create_None)
  from persisted(5) y have d: "exec (dispatchInvite (notificationService pf cfg) req email role g) tr3 (Inl err)" by simp
  show ?thesis
  proof (cases rule: dispatchInvite_exec [OF d notificationService_simps(1), case_names sent failed])
    case (failed trm e entry trd de)
    then have "noWrite (trm @ [EAudit entry])"
      using SendNotification_exec [OF failed(1) [simplified]] by auto
    with that [of "trg @ [ENow now]" "gl_InviteUID g" data m email n "trm @ [EAudit entry]" trd now role "gl_ExpiresAt g" de]
      w trg g persisted(1,3) failed
    show ?thesis by simp
  qed simp
qed

lemma reliableEvent_delete: "reliableEvent (EDelete k x) \<longleftrightarrow> x = None"
  by (cases x) auto

lemma DeleteInvite_trace:
  assumes "exec (DeleteInvite u uid) tr de" "kvTrace tr K K'" "list_all reliableEvent tr"
    "snd (K uid) = Some v" "unmarshalInviteRecord v = Some r" "uid \<noteq> emailIndexKey u (rcp_Email (rec_Recipient r)) uid"
  shows "snd (K' uid) = None" "snd (K' (emailIndexKey u (rcp_Email (rec_Recipient r)) uid)) = None"
    "\<And>k. k \<noteq> uid \<Longrightarrow> k \<noteq> emailIndexKey u (rcp_Email (rec_Recipient r)) uid \<Longrightarrow> K' k = K k"
proof -
  let ?ix = "emailIndexKey u (rcp_Email (rec_Recipient r)) uid"
  obtain g tr' where g: "tr = EGet uid g # tr'"
    using assms(1) unfolding DeleteInvite_def by (auto simp: prog_simps)
  have "\<exists>n. g = Inr (v, n)"
    using assms(2,3,4) g by (cases g) auto
  then obtain n where n: "g = Inr (v, n)" ..
  with g assms(1,3,5) have "tr' = [EDelete uid None, EDelete ?ix None]"
    unfolding DeleteInvite_def by (auto simp: prog_simps reliableEvent_delete)
  with g n assms(2) obtain a b where "K' = K(uid := (a, None), ?ix := (b, None))" by auto
  with assms(6) show "snd (K' uid) = None" "snd (K' ?ix) = None"
    "\<And>k. k \<noteq> uid \<Longrightarrow> k \<noteq> ?ix \<Longrightarrow> K' k = K k" by auto
qed

lemma uuidText_isUid: "uuidText u \<Longrightarrow> isUid u"
  unfolding isUid_def hasPrefix_iff
proof
  assume u: "uuidText u" and "\<exists>t. u = emailIndexPrefix @ t"
  then have "CHR ''i'' \<in> set u" by (auto simp: emailIndexPrefix_def)
  with u have "is_digit (CHR ''i'') \<or> 97 \<le> byte (CHR ''i'') \<and> byte (CHR ''i'') \<le> 102 \<or> byte (CHR ''i'') = 45"
    unfolding uuidText_def list_all_iff by blast
  then show False by (simp add: is_digit_def byte_def)
qed

text \<open>On a reliable bucket a request whose email was not dispatched leaves nothing behind.\<close>

lemma kvTrace_noWrite_append:
  "noWrite A \<Longrightarrow> kvTrace (A @ B) K K' \<Longrightarrow> kvTrace B K K'"
  by (auto simp: kvTrace_append dest: kvTrace_noWrite)

context kv_reliable
begin

lemma send_failed_run:
  assumes run: "run env (HandleSendInvite (plat_golib pf) (notificationService pf cfg) req) s = (Inl err, s')"
    and err: "errors_Is err ErrEmailDispatchFailed"
    and req: "requestOK req" "validUTF8 (app_DefaultReturnURL cfg)"
    and lib: "\<And>a e. lib_ParseAddress (plat_golib pf) a = Inr e \<Longrightarrow> validUTF8 e"
  obtains uid email where "uuidText uid" "snd (kv s' uid) = None"
    "snd (kv s' (emailIndexKey (lib_lower (plat_golib pf)) email uid)) = None"
    "\<And>k. k \<noteq> uid \<Longrightarrow> k \<noteq> emailIndexKey (lib_lower (plat_golib pf)) email uid \<Longrightarrow> kv s' k = kv s k"
proof -
  have wf: "wf_map (req_CustomClaims req)" using req by (simp add: requestOK_def validClaims_def)
  obtain tr where tr: "exec (HandleSendInvite (plat_golib pf) (notificationService pf cfg) req) tr (Inl err)"
    "kvTrace tr (kv s) (kv s')" "list_all reliableEvent tr" using run_reliable [OF run] by blast
  from send_failed_exec [OF tr(1) err wf] obtain A now uid email role expiry data m n mid trd de where e:
    "tr = A @ [EPut uid data (Inr m), EPut (emailIndexKey (lib_lower (plat_golib pf)) email uid) uid (Inr n)] @ mid @ trd"
    "noWrite A" "noWrite mid" "EUUID uid \<in> set A"
    "marshalInviteRecord (inviteRecordAt now uid req email (destinationURL (notificationConfig cfg) req) role expiry
       (nonReserved (req_CustomClaims req))) = Some data"
    "validateSend (plat_golib pf) (notificationConfig cfg) req = Inr (email, role)"
    "exec (DeleteInvite (lib_lower (plat_golib pf)) uid) trd de" by metis
  let ?ix = "emailIndexKey (lib_lower (plat_golib pf)) email uid"
  let ?K = "(kv s)(uid := (m, Some data), ?ix := (n, Some uid))"
  have "list_all reliableEvent A" using tr(3) e(1) by simp
  then have "reliableEvent (EUUID uid)" using e(4) unfolding list_all_iff by (rule bspec)
  then have uid: "uuidText uid" by simp
  note ne = isUid_neq_indexKey [OF uuidText_isUid [OF uid]]
  have "kvTrace (mid @ trd) ?K (kv s')"
    using kvTrace_noWrite_append [OF e(2) tr(2) [unfolded e(1)]] by simp
  then have del: "kvTrace trd ?K (kv s')" by (rule kvTrace_noWrite_append [OF e(3)])
  have "validUTF8 email" "role = trimSpace (req_Role req)" using e(6) lib by (auto simp: validateSend_ok)
  moreover from this have "validUTF8 role" using req trimSpace_valid by (auto simp: requestOK_def validStrings_def)
  ultimately have re: "unmarshalInviteRecord data = Some (inviteRecordAt now uid req email
      (destinationURL (notificationConfig cfg) req) role expiry (nonReserved (req_CustomClaims req)))"
    using reread [OF decodedRecord_request e(5)] req uuidText_valid [OF uid] by blast
  have "list_all reliableEvent trd" using tr(3) e(1) by auto
  note d = DeleteInvite_trace [OF e(7) del this _ re]
  show thesis
    by (rule that [OF uid, of email]) (use d ne in auto)
qed

end

end
