(* ===== verification/Api_Client.thy ===== *)
theory Api_Client
  imports Json_Decoded
begin

text \<open>
  The other half of the contract of pkg/api: how a resource service writes the requests and the
  acceptance event, and how it reads the replies and the enriched event, by the same struct tags.
  Fields of embedded structs are promoted: a key of an embedded pointer allocates what it points to.
\<close>

section \<open>Writing requests\<close>

definition ptr_omit :: "string \<Rightarrow> ('a \<Rightarrow> json) \<Rightarrow> 'a option \<Rightarrow> (string \<times> json) list" where
  "ptr_omit k enc p = (case p of None \<Rightarrow> [] | Some v \<Rightarrow> [(k, enc v)])"

definition bool_omit :: "string \<Rightarrow> bool \<Rightarrow> (string \<times> json) list" where
  "bool_omit k b = (if b then [(k, JBool True)] else [])"

definition enc_ApiSendInviteRequest :: "ApiSendInviteRequest \<Rightarrow> json" where
  "enc_ApiSendInviteRequest r =
     JObj (ptr_omit ''recipient'' enc_ApiRecipient (areq_Recipient r) @ ptr_omit ''inviter'' enc_ApiInviter (areq_Inviter r)
           @ ptr_omit ''resource'' enc_ApiResource (areq_Resource r)
           @ str_omit ''recipient_email'' (areq_RecipientEmail r) @ str_omit ''recipient_name'' (areq_RecipientName r)
           @ str_omit ''inviter_name'' (areq_InviterName r) @ str_omit ''resource_uid'' (areq_ResourceUID r)
           @ str_omit ''resource_name'' (areq_ResourceName r) @ str_omit ''resource_type'' (areq_ResourceType r)
           @ str_field ''role'' (areq_Role r) @ str_omit ''return_url'' (areq_ReturnURL r)
           @ str_omit ''org_name'' (areq_OrgName r) @ int_omit ''expiration_days'' (areq_ExpirationDays r)
           @ map_omit ''custom_claims'' (areq_CustomClaims r)
           @ bool_omit ''recipient_has_account'' (areq_RecipientHasAccount r))"

definition marshalSendInviteRequest :: "ApiSendInviteRequest \<Rightarrow> string" where
  "marshalSendInviteRequest r = jprint (enc_ApiSendInviteRequest r)"

definition marshalInviteAcceptedEvent :: "InviteAcceptedEvent \<Rightarrow> string" where
  "marshalInviteAcceptedEvent e =
     jprint (JObj (str_field ''invite_uid'' (evt_InviteUID e) @ str_field ''username'' (evt_Username e)
                   @ str_field ''token'' (evt_Token e)))"

definition marshalGetInviteRequest :: "GetInviteRequest \<Rightarrow> string" where
  "marshalGetInviteRequest r = jprint (JObj (str_field ''uid'' (greq_UID r)))"

definition marshalGetInvitesByEmailRequest :: "GetInvitesByEmailRequest \<Rightarrow> string" where
  "marshalGetInvitesByEmailRequest r = jprint (JObj (str_field ''email'' (ereq_Email r)))"

section \<open>Reading replies\<close>

text \<open>
  The fields of an embedded struct (by value, by pointer) as fields of the struct around it. The
  outer field would win a name both have; in pkg/api there is none.
\<close>

definition embed :: "('s \<Rightarrow> 'a) \<Rightarrow> (('a \<Rightarrow> 'a) \<Rightarrow> 's \<Rightarrow> 's) \<Rightarrow> 'a fields \<Rightarrow> 's fields" where
  "embed get upd fs = map (\<lambda>(k, f). (k, fld f get upd)) fs"

definition embed_ptr :: "('s \<Rightarrow> 'a option) \<Rightarrow> (('a option \<Rightarrow> 'a option) \<Rightarrow> 's \<Rightarrow> 's) \<Rightarrow> 'a \<Rightarrow> 'a fields \<Rightarrow> 's fields" where
  "embed_ptr get upd zero fs =
     map (\<lambda>(k, f). (k, fld (\<lambda>j cur. map_option Some (f j (case cur of None \<Rightarrow> zero | Some v \<Rightarrow> v))) get upd)) fs"

text \<open>A slice: null is nil, and the elements of an array go into those the slice has, then into new ones.\<close>

fun dec_elems :: "(json \<Rightarrow> 'a \<Rightarrow> 'a option) \<Rightarrow> 'a \<Rightarrow> json list \<Rightarrow> 'a list \<Rightarrow> 'a list option" where
  "dec_elems dec zero [] cur = Some []"
| "dec_elems dec zero (j # js) cur =
     (case dec j (case cur of [] \<Rightarrow> zero | v # vs \<Rightarrow> v) of None \<Rightarrow> None
      | Some w \<Rightarrow> map_option (\<lambda>ws. w # ws) (dec_elems dec zero js (tl cur)))"

definition dec_slice :: "(json \<Rightarrow> 'a \<Rightarrow> 'a option) \<Rightarrow> 'a \<Rightarrow> json \<Rightarrow> 'a list option \<Rightarrow> 'a list option option" where
  "dec_slice dec zero j cur =
     (case j of JNull \<Rightarrow> Some None
      | JArr js \<Rightarrow> map_option Some (dec_elems dec zero js (case cur of None \<Rightarrow> [] | Some vs \<Rightarrow> vs))
      | _ \<Rightarrow> None)"

definition zeroInvite :: Invite where
  "zeroInvite =
     \<lparr>ai_UID = [], ai_Status = [], ai_Recipient = zeroApiRecipient, ai_Inviter = zeroApiInviter,
      ai_Resource = zeroApiResource, ai_Role = [], ai_OrgName = [], ai_ReturnURL = [], ai_ExpirationDays = 0,
      ai_CustomClaims = [], ai_CreatedAt = zeroTime, ai_ExpiresAt = zeroTime, ai_AcceptedAt = None, ai_AcceptedBy = []\<rparr>"

definition zeroInviteData :: InviteData where
  "zeroInviteData = \<lparr>dat_UID = [], dat_Email = [], dat_ExpiresAt = zeroTime\<rparr>"

definition invite_fields :: "Invite fields" where
  "invite_fields =
     [(''uid'', fld dec_string ai_UID ai_UID_update),
      (''status'', fld dec_string ai_Status ai_Status_update),
      (''recipient'', fld (dec_struct api_recipient_fields) ai_Recipient ai_Recipient_update),
      (''inviter'', fld (dec_struct api_inviter_fields) ai_Inviter ai_Inviter_update),
      (''resource'', fld (dec_struct api_resource_fields) ai_Resource ai_Resource_update),
      (''role'', fld dec_string ai_Role ai_Role_update),
      (''org_name'', fld dec_string ai_OrgName ai_OrgName_update),
      (''return_url'', fld dec_string ai_ReturnURL ai_ReturnURL_update),
      (''expiration_days'', fld dec_int ai_ExpirationDays ai_ExpirationDays_update),
      (''custom_claims'', fld dec_map ai_CustomClaims ai_CustomClaims_update),
      (''created_at'', fld dec_time ai_CreatedAt ai_CreatedAt_update),
      (''expires_at'', fld dec_time ai_ExpiresAt ai_ExpiresAt_update),
      (''accepted_at'', fld (dec_ptr dec_time zeroTime) ai_AcceptedAt ai_AcceptedAt_update),
      (''accepted_by'', fld dec_string ai_AcceptedBy ai_AcceptedBy_update)]"

definition data_fields :: "InviteData fields" where
  "data_fields =
     [(''uid'', fld dec_string dat_UID dat_UID_update), (''email'', fld dec_string dat_Email dat_Email_update),
      (''expires_at'', fld dec_time dat_ExpiresAt dat_ExpiresAt_update)]"

definition send_response_fields :: "SendInviteResponse fields" where
  "send_response_fields =
     embed_ptr sresp_InviteData sresp_InviteData_update zeroInviteData data_fields
     @ [(''error'', fld dec_string sresp_Error sresp_Error_update)]"

definition get_response_fields :: "GetInviteResponse fields" where
  "get_response_fields =
     embed_ptr gresp_Invite gresp_Invite_update zeroInvite invite_fields
     @ [(''error'', fld dec_string gresp_Error gresp_Error_update)]"

definition list_response_fields :: "GetInvitesByEmailResponse fields" where
  "list_response_fields =
     [(''invites'', fld (dec_slice (dec_struct invite_fields) zeroInvite) eresp_Invites eresp_Invites_update),
      (''error'', fld dec_string eresp_Error eresp_Error_update)]"

definition unmarshalSendInviteResponse :: "string \<Rightarrow> SendInviteResponse option" where
  "unmarshalSendInviteResponse s =
     unmarshal (dec_struct send_response_fields) \<lparr>sresp_InviteData = None, sresp_Error = []\<rparr> s"

definition unmarshalGetInviteResponse :: "string \<Rightarrow> GetInviteResponse option" where
  "unmarshalGetInviteResponse s =
     unmarshal (dec_struct get_response_fields) \<lparr>gresp_Invite = None, gresp_Error = []\<rparr> s"

definition unmarshalGetInvitesByEmailResponse :: "string \<Rightarrow> GetInvitesByEmailResponse option" where
  "unmarshalGetInvitesByEmailResponse s =
     unmarshal (dec_struct list_response_fields) \<lparr>eresp_Invites = None, eresp_Error = []\<rparr> s"

definition unmarshalInviteServiceAcceptedEvent :: "string \<Rightarrow> InviteServiceAcceptedEvent option" where
  "unmarshalInviteServiceAcceptedEvent s =
     unmarshal (dec_struct (embed acc_Invite acc_Invite_update invite_fields)) \<lparr>acc_Invite = zeroInvite\<rparr> s"

end
