(* ===== verification/Api_Client_Laws.thy ===== *)
theory Api_Client_Laws
  imports Request_Decoded Api_Client
begin

text \<open>
  Encoding and decoding of the messages of pkg/api are inverse: what one side writes the other
  reads, as long as strings are UTF-8, numbers fit in an int64 and times can be printed.
\<close>

section \<open>Valid messages\<close>

definition validInvite :: "Invite \<Rightarrow> bool" where
  "validInvite r \<longleftrightarrow>
     validStrings [ai_UID r, ai_Status r, ai_Role r, ai_OrgName r, ai_ReturnURL r, ai_AcceptedBy r]
     \<and> validApiRecipient (ai_Recipient r) \<and> validApiInviter (ai_Inviter r) \<and> validApiResource (ai_Resource r)
     \<and> - (2 ^ 63) \<le> ai_ExpirationDays r \<and> ai_ExpirationDays r < 2 ^ 63
     \<and> validClaims (ai_CustomClaims r) \<and> validTime (ai_CreatedAt r) \<and> validTime (ai_ExpiresAt r)
     \<and> (case ai_AcceptedAt r of None \<Rightarrow> True | Some t \<Rightarrow> validTime t)"

section \<open>Names\<close>

lemma strOK_api_names [json_simps]:
  "strOK ''recipient_email''" "strOK ''recipient_name''" "strOK ''inviter_name''" "strOK ''resource_uid''"
  "strOK ''resource_name''" "strOK ''resource_type''" "strOK ''recipient_has_account''" "strOK ''invite_uid''" "strOK ''token''"
  by (rule strOK_plain, simp add: plainChar_def byte_def quoteC_def slashC_def)+

lemmas key_simps = plainKey_def field_for_def plainChar_def byte_def quoteC_def slashC_def

lemma api_recipient_keys:
  "plainKey api_recipient_fields ''name'' (fld dec_string arcp_Name arcp_Name_update)"
  "plainKey api_recipient_fields ''email'' (fld dec_string arcp_Email arcp_Email_update)"
  "plainKey api_recipient_fields ''username'' (fld dec_string arcp_Username arcp_Username_update)"
  "plainKey api_recipient_fields ''avatar'' (fld dec_string arcp_Avatar arcp_Avatar_update)"
  by (simp_all add: key_simps api_recipient_fields_def)

lemma api_inviter_keys:
  "plainKey api_inviter_fields ''name'' (fld dec_string ainv_Name ainv_Name_update)"
  "plainKey api_inviter_fields ''email'' (fld dec_string ainv_Email ainv_Email_update)"
  "plainKey api_inviter_fields ''username'' (fld dec_string ainv_Username ainv_Username_update)"
  "plainKey api_inviter_fields ''avatar'' (fld dec_string ainv_Avatar ainv_Avatar_update)"
  by (simp_all add: key_simps api_inviter_fields_def)

lemma api_resource_keys:
  "plainKey api_resource_fields ''uid'' (fld dec_string ares_UID ares_UID_update)"
  "plainKey api_resource_fields ''name'' (fld dec_string ares_Name ares_Name_update)"
  "plainKey api_resource_fields ''type'' (fld dec_string ares_Type ares_Type_update)"
  "plainKey api_resource_fields ''parent_name'' (fld dec_string ares_ParentName ares_ParentName_update)"
  by (simp_all add: key_simps api_resource_fields_def)

lemma invite_keys:
  "plainKey invite_fields ''uid'' (fld dec_string ai_UID ai_UID_update)"
  "plainKey invite_fields ''status'' (fld dec_string ai_Status ai_Status_update)"
  "plainKey invite_fields ''recipient'' (fld (dec_struct api_recipient_fields) ai_Recipient ai_Recipient_update)"
  "plainKey invite_fields ''inviter'' (fld (dec_struct api_inviter_fields) ai_Inviter ai_Inviter_update)"
  "plainKey invite_fields ''resource'' (fld (dec_struct api_resource_fields) ai_Resource ai_Resource_update)"
  "plainKey invite_fields ''role'' (fld dec_string ai_Role ai_Role_update)"
  "plainKey invite_fields ''org_name'' (fld dec_string ai_OrgName ai_OrgName_update)"
  "plainKey invite_fields ''return_url'' (fld dec_string ai_ReturnURL ai_ReturnURL_update)"
  "plainKey invite_fields ''expiration_days'' (fld dec_int ai_ExpirationDays ai_ExpirationDays_update)"
  "plainKey invite_fields ''custom_claims'' (fld dec_map ai_CustomClaims ai_CustomClaims_update)"
  "plainKey invite_fields ''created_at'' (fld dec_time ai_CreatedAt ai_CreatedAt_update)"
  "plainKey invite_fields ''expires_at'' (fld dec_time ai_ExpiresAt ai_ExpiresAt_update)"
  "plainKey invite_fields ''accepted_at'' (fld (dec_ptr dec_time zeroTime) ai_AcceptedAt ai_AcceptedAt_update)"
  "plainKey invite_fields ''accepted_by'' (fld dec_string ai_AcceptedBy ai_AcceptedBy_update)"
  by (simp_all add: key_simps invite_fields_def)

lemma data_keys:
  "plainKey data_fields ''uid'' (fld dec_string dat_UID dat_UID_update)"
  "plainKey data_fields ''email'' (fld dec_string dat_Email dat_Email_update)"
  "plainKey data_fields ''expires_at'' (fld dec_time dat_ExpiresAt dat_ExpiresAt_update)"
  by (simp_all add: key_simps data_fields_def)

lemma send_request_keys:
  "plainKey send_request_fields ''recipient'' (fld (dec_ptr (dec_struct api_recipient_fields) zeroApiRecipient) areq_Recipient areq_Recipient_update)"
  "plainKey send_request_fields ''inviter'' (fld (dec_ptr (dec_struct api_inviter_fields) zeroApiInviter) areq_Inviter areq_Inviter_update)"
  "plainKey send_request_fields ''resource'' (fld (dec_ptr (dec_struct api_resource_fields) zeroApiResource) areq_Resource areq_Resource_update)"
  "plainKey send_request_fields ''recipient_email'' (fld dec_string areq_RecipientEmail areq_RecipientEmail_update)"
  "plainKey send_request_fields ''recipient_name'' (fld dec_string areq_RecipientName areq_RecipientName_update)"
  "plainKey send_request_fields ''inviter_name'' (fld dec_string areq_InviterName areq_InviterName_update)"
  "plainKey send_request_fields ''resource_uid'' (fld dec_string areq_ResourceUID areq_ResourceUID_update)"
  "plainKey send_request_fields ''resource_name'' (fld dec_string areq_ResourceName areq_ResourceName_update)"
  "plainKey send_request_fields ''resource_type'' (fld dec_string areq_ResourceType areq_ResourceType_update)"
  "plainKey send_request_fields ''role'' (fld dec_string areq_Role areq_Role_update)"
  "plainKey send_request_fields ''return_url'' (fld dec_string areq_ReturnURL areq_ReturnURL_update)"
  "plainKey send_request_fields ''org_name'' (fld dec_string areq_OrgName areq_OrgName_update)"
  "plainKey send_request_fields ''expiration_days'' (fld dec_int areq_ExpirationDays areq_ExpirationDays_update)"
  "plainKey send_request_fields ''custom_claims'' (fld dec_map areq_CustomClaims areq_CustomClaims_update)"
  "plainKey send_request_fields ''recipient_has_account'' (fld dec_bool areq_RecipientHasAccount areq_RecipientHasAccount_update)"
  by (simp_all add: key_simps send_request_fields_def)

lemmas [json_simps] =
  api_recipient_keys [THEN dec_str_omit] api_inviter_keys [THEN dec_str_omit] api_resource_keys [THEN dec_str_omit]
  invite_keys(1,2,6) [THEN dec_str_field] invite_keys(7,8,14) [THEN dec_str_omit]
  invite_keys(9) [THEN dec_int_omit] invite_keys(10) [THEN dec_map_omit]
  invite_keys(3,4,5,11,12,13) [THEN dec_member]
  data_keys(1,2) [THEN dec_str_field] data_keys(3) [THEN dec_member]
  send_request_keys(4-9,11,12) [THEN dec_str_omit] send_request_keys(10) [THEN dec_str_field]
  send_request_keys(13) [THEN dec_int_omit] send_request_keys(14) [THEN dec_map_omit]

section \<open>Parts\<close>

lemma dec_enc_ApiRecipient [json_simps]:
  "validApiRecipient p \<Longrightarrow> dec_struct api_recipient_fields (enc_ApiRecipient p) zeroApiRecipient = Some p"
  by (simp add: valid_api_defs dec_struct_def enc_ApiRecipient_def json_simps zeroApiRecipient_def)

lemma dec_enc_ApiInviter [json_simps]:
  "validApiInviter p \<Longrightarrow> dec_struct api_inviter_fields (enc_ApiInviter p) zeroApiInviter = Some p"
  by (simp add: valid_api_defs dec_struct_def enc_ApiInviter_def json_simps zeroApiInviter_def)

lemma dec_enc_ApiResource [json_simps]:
  "validApiResource p \<Longrightarrow> dec_struct api_resource_fields (enc_ApiResource p) zeroApiResource = Some p"
  by (simp add: valid_api_defs dec_struct_def enc_ApiResource_def json_simps zeroApiResource_def)

lemma wfj_api_parts [json_simps]:
  assumes "1 < d"
  shows "wfj d (enc_ApiRecipient p)" "wfj d (enc_ApiInviter q)" "wfj d (enc_ApiResource s)"
  using assms by (simp_all add: enc_ApiRecipient_def enc_ApiInviter_def enc_ApiResource_def json_simps del: wfj.simps)

section \<open>Invites\<close>

text \<open>The times of an invite as members.\<close>

lemma invite_members_times:
  assumes "invite_members r = Some ms"
  obtains ts where
    "time_members ([(''created_at'', ai_CreatedAt r), (''expires_at'', ai_ExpiresAt r)]
       @ (case ai_AcceptedAt r of None \<Rightarrow> [] | Some t \<Rightarrow> [(''accepted_at'', t)])) = Some ts"
    "ms = str_field ''uid'' (ai_UID r) @ str_field ''status'' (ai_Status r)
           @ [(''recipient'', enc_ApiRecipient (ai_Recipient r)), (''inviter'', enc_ApiInviter (ai_Inviter r)),
              (''resource'', enc_ApiResource (ai_Resource r))]
           @ str_field ''role'' (ai_Role r) @ str_omit ''org_name'' (ai_OrgName r)
           @ str_omit ''return_url'' (ai_ReturnURL r)
           @ int_omit ''expiration_days'' (ai_ExpirationDays r)
           @ map_omit ''custom_claims'' (ai_CustomClaims r) @ ts
           @ str_omit ''accepted_by'' (ai_AcceptedBy r)"
  using assms by (auto simp: invite_members_def split: option.splits)

lemma wfms_invite_members: "invite_members r = Some ms \<Longrightarrow> 2 < d \<Longrightarrow> wfms d ms"
proof (erule invite_members_times)
  fix ts
  assume "time_members ([(''created_at'', ai_CreatedAt r), (''expires_at'', ai_ExpiresAt r)]
       @ (case ai_AcceptedAt r of None \<Rightarrow> [] | Some t \<Rightarrow> [(''accepted_at'', t)])) = Some ts"
  then have "wfms d ts" by (rule wfms_time_members) (auto simp: json_simps split: option.splits)
  moreover assume "2 < d"
  moreover assume "ms = str_field ''uid'' (ai_UID r) @ str_field ''status'' (ai_Status r)
           @ [(''recipient'', enc_ApiRecipient (ai_Recipient r)), (''inviter'', enc_ApiInviter (ai_Inviter r)),
              (''resource'', enc_ApiResource (ai_Resource r))]
           @ str_field ''role'' (ai_Role r) @ str_omit ''org_name'' (ai_OrgName r)
           @ str_omit ''return_url'' (ai_ReturnURL r) @ int_omit ''expiration_days'' (ai_ExpirationDays r)
           @ map_omit ''custom_claims'' (ai_CustomClaims r) @ ts @ str_omit ''accepted_by'' (ai_AcceptedBy r)"
  ultimately show "wfms d ms" by (simp add: json_simps del: wfj.simps)
qed

theorem dec_invite_members:
  assumes "validInvite r" "invite_members r = Some ms"
  shows "dec_members invite_fields ms zeroInvite = Some r"
proof -
  obtain c e where ce: "enc_time (ai_CreatedAt r) = Some c" "enc_time (ai_ExpiresAt r) = Some e"
    using assms(1) validTime_enc unfolding validInvite_def by metis
  note d = ce [THEN dec_time_enc]
  have v: "validStrings [ai_UID r, ai_Status r, ai_Role r, ai_OrgName r, ai_ReturnURL r, ai_AcceptedBy r]"
    "validApiRecipient (ai_Recipient r)" "validApiInviter (ai_Inviter r)" "validApiResource (ai_Resource r)"
    "- (2 ^ 63) \<le> ai_ExpirationDays r" "ai_ExpirationDays r < 2 ^ 63" "wf_map (ai_CustomClaims r)"
    "\<forall>(k, v) \<in> set (ai_CustomClaims r). validUTF8 k \<and> validUTF8 v"
    using assms(1) by (auto simp: validInvite_def validClaims_def list_all_iff)
  show ?thesis
  proof (cases "ai_AcceptedAt r")
    case None
    with assms(2) ce v d show ?thesis
      by (auto simp: invite_members_def json_simps fld_def zeroInvite_def validStrings_def)
  next
    case (Some a)
    then obtain ja where ja: "enc_time a = Some ja"
      using assms(1) validTime_enc by (auto simp: validInvite_def)
    then have p: "dec_ptr dec_time zeroTime ja None = Some (Some a)"
      using dec_time_enc [OF ja, of zeroTime] by (auto simp: dec_ptr_def enc_time_def)
    from Some assms(2) ce v d ja p show ?thesis
      by (auto simp: invite_members_def json_simps fld_def zeroInvite_def validStrings_def)
  qed
qed

lemma validInvite_members: "validInvite r \<Longrightarrow> \<exists>ms. invite_members r = Some ms"
proof -
  assume v: "validInvite r"
  then obtain c e where "enc_time (ai_CreatedAt r) = Some c" "enc_time (ai_ExpiresAt r) = Some e"
    using validTime_enc unfolding validInvite_def by metis
  moreover have "\<exists>j. enc_time a = Some j" if "ai_AcceptedAt r = Some a" for a
    using v that validTime_enc by (simp add: validInvite_def)
  ultimately show ?thesis by (cases "ai_AcceptedAt r") (auto simp: invite_members_def)
qed

section \<open>Embedded structs\<close>

text \<open>All keys of the members are fields, spelled exactly.\<close>

definition hasKey :: "'s fields \<Rightarrow> string \<Rightarrow> bool" where
  "hasKey fs k \<longleftrightarrow> list_all plainChar k \<and> map_of fs k \<noteq> None"

definition fieldKeys :: "'s fields \<Rightarrow> (string \<times> json) list \<Rightarrow> bool" where
  "fieldKeys fs ms \<longleftrightarrow> list_all (hasKey fs) (map fst ms)"

lemma map_of_embed: "map_of (embed get upd fs) k = map_option (\<lambda>f. fld f get upd) (map_of fs k)"
  by (induction fs) (auto simp: embed_def)

lemma dec_embed:
  assumes "fieldKeys fs ms" "\<And>v w s. upd (\<lambda>_. v) (upd (\<lambda>_. w) s) = upd (\<lambda>_. v) s" "\<And>v s. get (upd (\<lambda>_. v) s) = v"
    "\<And>s. upd (\<lambda>_. get s) s = s"
  shows "dec_members (embed get upd fs) ms s = map_option (\<lambda>v. upd (\<lambda>_. v) s) (dec_members fs ms (get s))"
  using assms(1)
proof (induction ms arbitrary: s)
  case Nil
  then show ?case by (simp add: assms(4))
next
  case (Cons m ms)
  obtain k j where m: "m = (k, j)" by (cases m)
  with Cons.prems obtain f where f: "unquote k = k" "map_of fs k = Some f" and ms: "fieldKeys fs ms"
    by (auto simp: fieldKeys_def hasKey_def unquote_plain)
  then show ?case
    using Cons.IH [OF ms]
    by (auto simp: m dec_members.simps(2) field_for_def map_of_embed fld_def assms(2,3) comp_def
        split: option.splits intro!: option.map_cong)
qed

lemma map_of_embed_ptr:
  "map_of (embed_ptr get upd zero fs) k =
   map_option (\<lambda>f. fld (\<lambda>j cur. map_option Some (f j (case cur of None \<Rightarrow> zero | Some v \<Rightarrow> v))) get upd) (map_of fs k)"
  by (induction fs) (auto simp: embed_ptr_def)

lemma dec_embed_Some:
  assumes "fieldKeys fs ms" "\<And>v w s. upd (\<lambda>_. v) (upd (\<lambda>_. w) s) = upd (\<lambda>_. v) s" "\<And>v s. get (upd (\<lambda>_. v) s) = v"
    "\<And>s. upd (\<lambda>_. get s) s = s" "get s = Some c"
  shows "dec_members (embed_ptr get upd zero fs @ extra) ms s =
    map_option (\<lambda>v. upd (\<lambda>_. Some v) s) (dec_members fs ms c)"
  using assms(1,5)
proof (induction ms arbitrary: s c)
  case Nil
  then show ?case using assms(4) [of s] by simp
next
  case (Cons m ms)
  obtain k j where m: "m = (k, j)" by (cases m)
  with Cons.prems obtain f where f: "unquote k = k" "map_of fs k = Some f" and ms: "fieldKeys fs ms"
    by (auto simp: fieldKeys_def hasKey_def unquote_plain)
  show ?case
  proof (cases "f j c")
    case None
    with f Cons.prems(2) show ?thesis
      by (simp add: m dec_members.simps(2) field_for_def map_of_embed_ptr map_add_def fld_def)
  next
    case (Some v)
    with f Cons.prems(2) Cons.IH [OF ms, of "upd (\<lambda>_. Some v) s" v] show ?thesis
      by (simp add: m dec_members.simps(2) field_for_def map_of_embed_ptr map_add_def fld_def assms(2,3))
  qed
qed

lemma dec_embed_None:
  assumes "fieldKeys fs (m # ms)" "\<And>v w s. upd (\<lambda>_. v) (upd (\<lambda>_. w) s) = upd (\<lambda>_. v) s" "\<And>v s. get (upd (\<lambda>_. v) s) = v"
    "\<And>s. upd (\<lambda>_. get s) s = s" "get s = None"
  shows "dec_members (embed_ptr get upd zero fs @ extra) (m # ms) s =
    map_option (\<lambda>v. upd (\<lambda>_. Some v) s) (dec_members fs (m # ms) zero)"
proof -
  obtain k j where m: "m = (k, j)" by (cases m)
  with assms(1) obtain f where f: "unquote k = k" "map_of fs k = Some f" and ms: "fieldKeys fs ms"
    by (auto simp: fieldKeys_def hasKey_def unquote_plain)
  show ?thesis
  proof (cases "f j zero")
    case None
    with f assms(5) show ?thesis
      by (simp add: m dec_members.simps(2) field_for_def map_of_embed_ptr map_add_def fld_def)
  next
    case (Some v)
    with f assms(5) dec_embed_Some [OF ms assms(2-4), of "upd (\<lambda>_. Some v) s" v] show ?thesis
      by (simp add: m dec_members.simps(2) field_for_def map_of_embed_ptr map_add_def fld_def assms(2,3))
  qed
qed

lemma fieldKeys_simps:
  "fieldKeys fs []" "fieldKeys fs (ms @ ns) \<longleftrightarrow> fieldKeys fs ms \<and> fieldKeys fs ns"
  "fieldKeys fs ((k, j) # ms) \<longleftrightarrow> hasKey fs k \<and> fieldKeys fs ms"
  by (simp_all add: fieldKeys_def)

lemma fieldKeys_parts:
  "hasKey fs k \<Longrightarrow> fieldKeys fs (str_field k v)" "hasKey fs k \<Longrightarrow> fieldKeys fs (str_omit k v)"
  "hasKey fs k \<Longrightarrow> fieldKeys fs (int_omit k n)" "hasKey fs k \<Longrightarrow> fieldKeys fs (map_omit k m)"
  by (simp_all add: fieldKeys_def str_field_def str_omit_def int_omit_def map_omit_def)

lemma fieldKeys_times:
  "time_members ts = Some ms \<Longrightarrow> list_all (hasKey fs) (map fst ts) \<Longrightarrow> fieldKeys fs ms"
  by (induction ts arbitrary: ms rule: time_members.induct) (auto simp: fieldKeys_simps split: option.splits)

lemma field_names:
  "list_all (hasKey invite_fields) (map fst invite_fields)" "list_all (hasKey data_fields) (map fst data_fields)"
  by (simp_all add: invite_fields_def data_fields_def hasKey_def key_simps)

lemmas has_keys = field_names [unfolded invite_fields_def [THEN arg_cong, of "map fst"] data_fields_def [THEN arg_cong, of "map fst"],
    simplified]

lemma fieldKeys_invite: "invite_members r = Some ms \<Longrightarrow> fieldKeys invite_fields ms"
proof (erule invite_members_times)
  fix ts
  assume "time_members ([(''created_at'', ai_CreatedAt r), (''expires_at'', ai_ExpiresAt r)]
       @ (case ai_AcceptedAt r of None \<Rightarrow> [] | Some t \<Rightarrow> [(''accepted_at'', t)])) = Some ts"
  then have "fieldKeys invite_fields ts"
    by (rule fieldKeys_times) (use has_keys in \<open>simp split: option.splits\<close>)
  moreover assume "ms = str_field ''uid'' (ai_UID r) @ str_field ''status'' (ai_Status r)
           @ [(''recipient'', enc_ApiRecipient (ai_Recipient r)), (''inviter'', enc_ApiInviter (ai_Inviter r)),
              (''resource'', enc_ApiResource (ai_Resource r))]
           @ str_field ''role'' (ai_Role r) @ str_omit ''org_name'' (ai_OrgName r)
           @ str_omit ''return_url'' (ai_ReturnURL r) @ int_omit ''expiration_days'' (ai_ExpirationDays r)
           @ map_omit ''custom_claims'' (ai_CustomClaims r) @ ts @ str_omit ''accepted_by'' (ai_AcceptedBy r)"
  ultimately show "fieldKeys invite_fields ms"
    using has_keys by (simp add: fieldKeys_simps fieldKeys_parts)
qed

lemma invite_members_nonempty: "invite_members r = Some ms \<Longrightarrow> ms \<noteq> []"
  by (erule invite_members_times) (simp add: str_field_def)

section \<open>Replies and events\<close>

lemma unmarshal_obj: "wfms 9999 ms \<Longrightarrow> unmarshal (dec_struct fs) z (jprint (JObj ms)) = dec_members fs ms z"
proof -
  assume "wfms 9999 ms"
  then have "wfj maxDepth (JObj ms)" by (simp add: maxDepth_def wfj_JObj del: wfj.simps)
  then show ?thesis by (simp add: unmarshal_def json_parse_jprint dec_struct_def del: jprint.simps wfj.simps)
qed

lemma response_keys:
  "plainKey send_response_fields ''error'' (fld dec_string sresp_Error sresp_Error_update)"
  "plainKey get_response_fields ''error'' (fld dec_string gresp_Error gresp_Error_update)"
  "plainKey list_response_fields ''error'' (fld dec_string eresp_Error eresp_Error_update)"
  "plainKey list_response_fields ''invites'' (fld (dec_slice (dec_struct invite_fields) zeroInvite) eresp_Invites eresp_Invites_update)"
  by (simp_all add: send_response_fields_def get_response_fields_def list_response_fields_def embed_ptr_def
      data_fields_def invite_fields_def key_simps)

theorem event_roundtrip:
  assumes "validInvite r"
  shows "\<exists>d. marshalInviteServiceAcceptedEvent \<lparr>acc_Invite = r\<rparr> = Some d
    \<and> unmarshalInviteServiceAcceptedEvent d = Some \<lparr>acc_Invite = r\<rparr>"
proof -
  obtain ms where ms: "invite_members r = Some ms" using validInvite_members [OF assms] by blast
  have "dec_members (embed acc_Invite acc_Invite_update invite_fields) ms \<lparr>acc_Invite = zeroInvite\<rparr> = Some \<lparr>acc_Invite = r\<rparr>"
    by (subst dec_embed [OF fieldKeys_invite [OF ms]]) (simp_all add: dec_invite_members [OF assms ms])
  moreover have "wfms 9999 ms" by (rule wfms_invite_members [OF ms]) simp
  ultimately show ?thesis
    using ms by (simp add: marshalInviteServiceAcceptedEvent_def unmarshalInviteServiceAcceptedEvent_def
        unmarshal_obj del: jprint.simps)
qed

theorem get_response_roundtrip:
  assumes "validUTF8 (gresp_Error resp)" "pred_option validInvite (gresp_Invite resp)"
  shows "\<exists>d. marshalGetInviteResponse resp = Some d \<and> unmarshalGetInviteResponse d = Some resp"
proof -
  note err = response_keys(2) [THEN dec_str_omit, OF assms(1)]
  show ?thesis
  proof (cases "gresp_Invite resp")
    case None
    have "wfms 9999 (str_omit ''error'' (gresp_Error resp))"
      by (simp add: json_simps del: wfj.simps)
    with None show ?thesis
      by (simp add: marshalGetInviteResponse_def unmarshalGetInviteResponse_def unmarshal_obj err del: jprint.simps)
  next
    case (Some r)
    then have v: "validInvite r" using assms(2) by simp
    obtain ms where ms: "invite_members r = Some ms" using validInvite_members [OF v] by blast
    then obtain m ms' where c: "ms = m # ms'" using invite_members_nonempty by (cases ms) auto
    have "dec_members get_response_fields ms \<lparr>gresp_Invite = None, gresp_Error = []\<rparr> = Some \<lparr>gresp_Invite = Some r, gresp_Error = []\<rparr>"
      using fieldKeys_invite [OF ms] dec_invite_members [OF v ms] unfolding get_response_fields_def c
      by (subst dec_embed_None) simp_all
    moreover have "wfms 9999 (ms @ str_omit ''error'' (gresp_Error resp))"
      using wfms_invite_members [OF ms, of 9999] by (simp add: json_simps del: wfj.simps)
    ultimately show ?thesis
      using Some ms by (simp add: marshalGetInviteResponse_def unmarshalGetInviteResponse_def unmarshal_obj
          dec_members_append err del: jprint.simps)
  qed
qed

theorem send_response_roundtrip:
  assumes "validUTF8 (sresp_Error resp)"
    "pred_option (\<lambda>d. validUTF8 (dat_UID d) \<and> validUTF8 (dat_Email d) \<and> validTime (dat_ExpiresAt d)) (sresp_InviteData resp)"
  shows "\<exists>d. marshalSendInviteResponse resp = Some d \<and> unmarshalSendInviteResponse d = Some resp"
proof -
  note err = response_keys(1) [THEN dec_str_omit, OF assms(1)]
  show ?thesis
  proof (cases "sresp_InviteData resp")
    case None
    have "wfms 9999 (str_omit ''error'' (sresp_Error resp))"
      by (simp add: json_simps del: wfj.simps)
    with None show ?thesis
      by (simp add: marshalSendInviteResponse_def unmarshalSendInviteResponse_def unmarshal_obj err del: jprint.simps)
  next
    case (Some d)
    then have v: "validUTF8 (dat_UID d)" "validUTF8 (dat_Email d)" "validTime (dat_ExpiresAt d)" using assms(2) by simp_all
    obtain e where e: "enc_time (dat_ExpiresAt d) = Some e" using v(3) validTime_enc by blast
    define ms where "ms = str_field ''uid'' (dat_UID d) @ str_field ''email'' (dat_Email d) @ [(''expires_at'', e)]"
    then obtain m ms' where c: "ms = m # ms'" by (simp add: str_field_def)
    have k: "fieldKeys data_fields ms" using has_keys by (simp add: ms_def fieldKeys_simps fieldKeys_parts)
    have "dec_members data_fields ms zeroInviteData = Some d"
      using v(1,2) dec_time_enc [OF e] by (simp add: ms_def json_simps fld_def zeroInviteData_def)
    with k have "dec_members send_response_fields ms \<lparr>sresp_InviteData = None, sresp_Error = []\<rparr>
        = Some \<lparr>sresp_InviteData = Some d, sresp_Error = []\<rparr>"
      unfolding send_response_fields_def c by (subst dec_embed_None) simp_all
    moreover have "wfms 9999 (ms @ str_omit ''error'' (sresp_Error resp))"
      using e by (simp add: ms_def json_simps del: wfj.simps)
    moreover have "marshalSendInviteResponse resp = Some (jprint (JObj (ms @ str_omit ''error'' (sresp_Error resp))))"
      using Some e by (simp add: marshalSendInviteResponse_def ms_def del: jprint.simps)
    ultimately show ?thesis
      using Some by (simp add: unmarshalSendInviteResponse_def unmarshal_obj dec_members_append err del: jprint.simps)
  qed
qed

lemma enc_Invites_decoded:
  "list_all validInvite is \<Longrightarrow>
   \<exists>js. enc_Invites is = Some js \<and> dec_elems (dec_struct invite_fields) zeroInvite js [] = Some is \<and> list_all (wfj 9998) js"
proof (induction "is")
  case (Cons i "is")
  then obtain js where js: "enc_Invites is = Some js" "dec_elems (dec_struct invite_fields) zeroInvite js [] = Some is"
    "list_all (wfj 9998) js" by auto
  have v: "validInvite i" using Cons.prems by simp
  obtain ms where ms: "invite_members i = Some ms" using validInvite_members [OF v] by blast
  have "wfj 9998 (JObj ms)" using wfms_invite_members [OF ms, of 9997] by (simp add: wfj_JObj del: wfj.simps)
  with js ms dec_invite_members [OF v ms] show ?case by (simp add: dec_struct_JObj del: wfj.simps)
qed simp

theorem list_response_roundtrip:
  assumes "validUTF8 (eresp_Error resp)" "pred_option (list_all validInvite) (eresp_Invites resp)"
  shows "\<exists>d. marshalGetInvitesByEmailResponse resp = Some d \<and> unmarshalGetInvitesByEmailResponse d = Some resp"
proof -
  note keys = response_keys(3) [THEN dec_str_omit, OF assms(1)] response_keys(4) [THEN dec_member]
  show ?thesis
  proof (cases "eresp_Invites resp")
    case None
    have "wfms 9999 ((''invites'', JNull) # str_omit ''error'' (eresp_Error resp))"
      by (simp add: json_simps)
    with None show ?thesis
      by (simp add: marshalGetInvitesByEmailResponse_def unmarshalGetInvitesByEmailResponse_def
          unmarshal_obj keys fld_def dec_slice_def del: jprint.simps)
  next
    case (Some "is")
    with assms(2) obtain js where js: "enc_Invites is = Some js"
      "dec_elems (dec_struct invite_fields) zeroInvite js [] = Some is" "list_all (wfj 9998) js"
      using enc_Invites_decoded by force
    have "wfms 9999 ((''invites'', JArr js) # str_omit ''error'' (eresp_Error resp))"
      using js(3) by (simp add: json_simps list_all_iff)
    with Some js show ?thesis
      by (simp add: marshalGetInvitesByEmailResponse_def unmarshalGetInvitesByEmailResponse_def
          unmarshal_obj keys fld_def dec_slice_def del: jprint.simps)
  qed
qed

section \<open>Requests\<close>

lemma enc_part_cases:
  "\<exists>ms. enc_ApiRecipient p = JObj ms" "\<exists>ms. enc_ApiInviter q = JObj ms" "\<exists>ms. enc_ApiResource s = JObj ms"
  by (simp_all add: enc_ApiRecipient_def enc_ApiInviter_def enc_ApiResource_def)

lemma dec_ptr_omit:
  assumes "plainKey fs k (fld (dec_ptr dec z) g u)" "\<And>v. p = Some v \<Longrightarrow> dec (enc v) z = Some v"
    "\<And>v. \<exists>ms. enc v = JObj ms" "g s = None" "u (\<lambda>_. None) s = s"
  shows "dec_members fs (ptr_omit k enc p) s = Some (u (\<lambda>_. p) s)"
proof (cases p)
  case (Some v)
  obtain ms where "enc v = JObj ms" using assms(3) by blast
  with Some assms(2) [OF Some] assms(4) show ?thesis
    by (simp add: ptr_omit_def dec_member [OF assms(1)] fld_def dec_ptr_def)
qed (simp add: ptr_omit_def assms(5))

lemma dec_bool_omit:
  "plainKey fs k (fld dec_bool g u) \<Longrightarrow> u (\<lambda>_. False) s = s \<Longrightarrow> dec_members fs (bool_omit k b) s = Some (u (\<lambda>_. b) s)"
  by (simp add: bool_omit_def dec_member [where f = "fld dec_bool g u"] fld_def dec_bool_def)

lemma wfms_omits [json_simps]:
  "strOK k \<Longrightarrow> (\<And>v. wfj d (enc v)) \<Longrightarrow> wfms d (ptr_omit k enc p)" "strOK k \<Longrightarrow> wfms d (bool_omit k b)"
  by (simp_all add: ptr_omit_def bool_omit_def json_simps split: option.splits)

theorem send_request_roundtrip:
  assumes "apiRequestOK r"
  shows "unmarshalSendInviteRequest (marshalSendInviteRequest r) = Some r"
proof -
  have v: "pred_option validApiRecipient (areq_Recipient r)" "pred_option validApiInviter (areq_Inviter r)"
    "pred_option validApiResource (areq_Resource r)" "- (2 ^ 63) \<le> areq_ExpirationDays r" "areq_ExpirationDays r < 2 ^ 63"
    "wf_map (areq_CustomClaims r)" "\<forall>(k, v) \<in> set (areq_CustomClaims r). validUTF8 k \<and> validUTF8 v"
    "validStrings [areq_RecipientEmail r, areq_RecipientName r, areq_InviterName r, areq_ResourceUID r,
       areq_ResourceName r, areq_ResourceType r, areq_Role r, areq_ReturnURL r, areq_OrgName r]"
    using assms by (auto simp: apiRequestOK_def requestOK_def apiToModelRequest_def valid_api_defs valid_defs
        validClaims_def list_all_iff option.pred_map comp_def pred_option_def)
  have p: "\<And>p. areq_Recipient r = Some p \<Longrightarrow> dec_struct api_recipient_fields (enc_ApiRecipient p) zeroApiRecipient = Some p"
    "\<And>p. areq_Inviter r = Some p \<Longrightarrow> dec_struct api_inviter_fields (enc_ApiInviter p) zeroApiInviter = Some p"
    "\<And>p. areq_Resource r = Some p \<Longrightarrow> dec_struct api_resource_fields (enc_ApiResource p) zeroApiResource = Some p"
    using v(1-3) by (simp_all add: json_simps)
  note ptrs = dec_ptr_omit [OF send_request_keys(1) p(1) enc_part_cases(1)] dec_ptr_omit [OF send_request_keys(2) p(2) enc_part_cases(2)]
    dec_ptr_omit [OF send_request_keys(3) p(3) enc_part_cases(3)]
  show ?thesis
    unfolding marshalSendInviteRequest_def unmarshalSendInviteRequest_def enc_ApiSendInviteRequest_def
    by (subst unmarshal_obj)
       (use v in \<open>simp_all add: json_simps ptrs dec_bool_omit [OF send_request_keys(15)] validStrings_def zeroApiSendInviteRequest_def del: wfj.simps\<close>)
qed

lemma unmarshal_event:
  assumes "validUTF8 (evt_InviteUID e)" "validUTF8 (evt_Username e)" "validUTF8 (evt_Token e)"
  shows "unmarshalInviteAcceptedEvent (marshalInviteAcceptedEvent e) = Some e"
proof -
  let ?fs = "[(''invite_uid'', fld dec_string evt_InviteUID evt_InviteUID_update),
        (''username'', fld dec_string evt_Username evt_Username_update),
        (''token'', fld dec_string evt_Token evt_Token_update)]"
  have "plainKey ?fs ''invite_uid'' (fld dec_string evt_InviteUID evt_InviteUID_update)"
    "plainKey ?fs ''username'' (fld dec_string evt_Username evt_Username_update)"
    "plainKey ?fs ''token'' (fld dec_string evt_Token evt_Token_update)"
    by (simp_all add: key_simps)
  note k = this [THEN dec_str_field]
  show ?thesis
    unfolding unmarshalInviteAcceptedEvent_def marshalInviteAcceptedEvent_def
    by (subst unmarshal_obj)
       (use assms in \<open>simp_all add: json_simps dec_members_append k zeroInviteAcceptedEvent_def del: wfj.simps\<close>)
qed

lemma unmarshal_queries:
  "validUTF8 (greq_UID q) \<Longrightarrow> unmarshalGetInviteRequest (marshalGetInviteRequest q) = Some q"
  "validUTF8 (ereq_Email p) \<Longrightarrow> unmarshalGetInvitesByEmailRequest (marshalGetInvitesByEmailRequest p) = Some p"
proof -
  have "plainKey [(''uid'', fld dec_string greq_UID greq_UID_update)] ''uid'' (fld dec_string greq_UID greq_UID_update)"
    "plainKey [(''email'', fld dec_string ereq_Email ereq_Email_update)] ''email'' (fld dec_string ereq_Email ereq_Email_update)"
    by (simp_all add: key_simps)
  note k = this [THEN dec_str_field]
  show "validUTF8 (greq_UID q) \<Longrightarrow> unmarshalGetInviteRequest (marshalGetInviteRequest q) = Some q"
    unfolding unmarshalGetInviteRequest_def marshalGetInviteRequest_def
    by (subst unmarshal_obj) (simp_all add: json_simps k zeroGetInviteRequest_def del: wfj.simps)
  show "validUTF8 (ereq_Email p) \<Longrightarrow> unmarshalGetInvitesByEmailRequest (marshalGetInvitesByEmailRequest p) = Some p"
    unfolding unmarshalGetInvitesByEmailRequest_def marshalGetInvitesByEmailRequest_def
    by (subst unmarshal_obj) (simp_all add: json_simps k zeroGetInvitesByEmailRequest_def del: wfj.simps)
qed

end
