(* ===== verification/Samples.thy ===== *)
theory Samples
  imports Send_Laws Api_Client_Laws
begin

text \<open>
  Concrete values for the witnesses: an invite in an in-memory bucket, the platform of third party
  code with small executable stand-ins, and the messages a client sends.
\<close>

section \<open>The trace of a run\<close>

primrec traceOf :: "'s env \<Rightarrow> 'a prog \<Rightarrow> 's \<Rightarrow> event list" where
  "traceOf e (Return a) s = []"
| "traceOf e (Now f) s = (case env_now e s of (x, s') \<Rightarrow> ENow x # traceOf e (f x) s')"
| "traceOf e (NewUUID f) s = (case env_uuid e s of (x, s') \<Rightarrow> EUUID x # traceOf e (f x) s')"
| "traceOf e (CtxErr f) s = (case env_ctxErr e s of (x, s') \<Rightarrow> ECtxErr x # traceOf e (f x) s')"
| "traceOf e (RangeMap m f) s =
     (case env_range e m s of (x, s') \<Rightarrow> ERange m (asOrder m x) # traceOf e (f (asOrder m x)) s')"
| "traceOf e (KvGet k f) s = (case env_get e k s of (x, s') \<Rightarrow> EGet k x # traceOf e (f x) s')"
| "traceOf e (KvPut k v f) s = (case env_put e k v s of (x, s') \<Rightarrow> EPut k v x # traceOf e (f x) s')"
| "traceOf e (KvUpdate k v r f) s = (case env_update e k v r s of (x, s') \<Rightarrow> EUpdate k v r x # traceOf e (f x) s')"
| "traceOf e (KvDelete k f) s = (case env_delete e k s of (x, s') \<Rightarrow> EDelete k x # traceOf e (f x) s')"
| "traceOf e (KvListKeys f) s = (case env_keys e s of (x, s') \<Rightarrow> EListKeys x # traceOf e (f x) s')"
| "traceOf e (NatsRequest c d f) s = (case env_request e c d s of (x, s') \<Rightarrow> ERequest c d x # traceOf e (f x) s')"
| "traceOf e (NatsPublish c d f) s = (case env_publish e c d s of (x, s') \<Rightarrow> EPublish c d x # traceOf e (f x) s')"
| "traceOf e (MsgReply d f) s = (case env_reply e d s of (x, s') \<Rightarrow> EReply d x # traceOf e (f x) s')"
| "traceOf e (Audit a p) s = EAudit a # traceOf e p (env_audit e a s)"

lemma exec_traceOf: "exec p (traceOf e p s) (fst (run e p s))"
  by (induction p arbitrary: s) (auto intro: exec.intros split: prod.splits)

lemma traceOf_bind [prog_simps]:
  "traceOf e (bind p g) s = traceOf e p s @ (case run e p s of (a, s') \<Rightarrow> traceOf e (g a) s')"
  by (induction p arbitrary: s) (auto split: prod.splits)

section \<open>An invite\<close>

definition sampleRecord :: InviteRecord where
  "sampleRecord = zeroInviteRecord
     \<lparr>rec_UID := ''7'', rec_Status := InviteStatusPending,
      rec_Recipient := zeroRecipient\<lparr>rcp_Email := ''ada@lfx.dev''\<rparr>, rec_Role := ''Writer'',
      rec_CreatedAt := 0, rec_ExpiresAt := 10 * nsPerSecond\<rparr>"

definition recordData :: "InviteRecord \<Rightarrow> string" where
  "recordData r = (case marshalInviteRecord r of Some d \<Rightarrow> d | None \<Rightarrow> [])"

lemma is_ascii_Char: "is_ascii (Char b0 b1 b2 b3 b4 b5 b6 b7) \<longleftrightarrow> \<not> b7"
  by (simp add: is_ascii_def byte_def)

lemma validUTF8_samples [simp]:
  "validUTF8 ''7''" "validUTF8 ''ada@lfx.dev''" "validUTF8 ''Writer''" "validUTF8 ''ada''" "validUTF8 InviteStatusPending"
  "validUTF8 ''https://lfx.dev''" "validUTF8 InviteStatusAccepted" "validUTF8 ''bob''" "validUTF8 ''p1''"
  by (simp_all add: validUTF8_ascii is_ascii_Char InviteStatusPending_def InviteStatusAccepted_def)

lemma validTime_year:
  "0 \<le> yearOfDay (t div nsPerSecond div 86400 + epochDay) \<and> yearOfDay (t div nsPerSecond div 86400 + epochDay) \<le> 9999 \<Longrightarrow>
   validTime t"
  by (simp add: validTime_def formatTime_def civil_def Let_def)

lemma validTime_seconds: "0 \<le> n \<Longrightarrow> n < 86400 \<Longrightarrow> validTime (n * nsPerSecond)"
  by (rule validTime_year) (simp add: nsPerSecond_def, simp add: yearOfDay_def epochDay_def)

lemma validTime_zero: "validTime zeroTime"
  by (rule validTime_year) (simp add: yearOfDay_def nsPerSecond_def epochDay_def zeroTime_def)

lemmas validTime_samples =
  validTime_seconds [of 0, simplified] validTime_seconds [of 10, simplified] validTime_seconds [of 5, simplified]
  validTime_zero

lemma sampleRecord_simps [simp]:
  "rec_UID sampleRecord = ''7''" "rec_Status sampleRecord = InviteStatusPending"
  "rec_ExpiresAt sampleRecord = 10 * nsPerSecond" "rcp_Email (rec_Recipient sampleRecord) = ''ada@lfx.dev''"
  "rcp_Username (rec_Recipient sampleRecord) = []" "rec_AcceptedAt sampleRecord = None"
  by (simp_all add: sampleRecord_def zeroRecipient_def zeroInviteRecord_def)

lemma decoded_sampleRecord: "decodedRecord sampleRecord"
  by (simp add: decodedRecord_def sampleRecord_def zeroInviteRecord_def zeroRecipient_def zeroInviter_def
      zeroResource_def valid_defs validClaims_def wf_map_def)

lemma valid_sampleRecord: "validRecord sampleRecord"
  using decoded_sampleRecord validTime_samples
  by (simp add: decodedRecord_def validRecord_def) (simp add: sampleRecord_def zeroInviteRecord_def)

lemma marshal_recordData: "validRecord r \<Longrightarrow> marshalInviteRecord r = Some (recordData r)"
  using marshal_validRecord [of r] by (auto simp: recordData_def)

lemma unmarshal_recordData: "validRecord r \<Longrightarrow> unmarshalInviteRecord (recordData r) = Some r"
  using marshal_recordData unmarshal_marshal_InviteRecord by blast

section \<open>A bucket that holds it\<close>

definition sampleMem :: mem where
  "sampleMem = mem_empty\<lparr>mem_entries := [(''7'', 1, Some (recordData sampleRecord))], mem_next := 2, mem_clock := 5 * nsPerSecond\<rparr>"

lemma sampleMem_records [simp]: "recordsOf mem_kv sampleMem ''7'' = Some sampleRecord"
  by (simp add: recordsOf_def mem_kv_def sampleMem_def unmarshal_recordData valid_sampleRecord)

lemma mem_empty_records [simp]: "recordsOf mem_kv mem_empty uid = None"
  by (simp add: recordsOf_def mem_kv_def mem_empty_def)

section \<open>A platform\<close>

definition sampleError :: liberr where
  "sampleError = \<lparr>le_notFound = False, le_apiCode = None, le_text = ''refused''\<rparr>"

text \<open>A library that signs nothing and reads one token.\<close>

definition sampleJwt :: jwtlib where
  "sampleJwt =
     \<lparr>jwt_SignedString = (\<lambda>alg key c. Inr ''t''),
      jwt_ParseWithClaims = (\<lambda>opts key now token.
        if token = ''t'' then Inr [(''email'', ClaimStr ''ada@lfx.dev''), (''invite_uid'', ClaimStr ''7''),
                                   (''jti'', ClaimStr ''7'')]
        else Inl sampleError)\<rparr>"

definition sampleGolib :: golib where
  "sampleGolib =
     \<lparr>lib_lower = (\<lambda>r. r), lib_ParseAddress = (\<lambda>a. if CHR ''@'' \<in> set a \<and> validUTF8 a then Inr a else Inl sampleError),
      lib_ParseURL = (\<lambda>u. if hasPrefix u ''https://'' then Inr (''https'', drop 8 u) else Inl sampleError)\<rparr>"

definition sampleEmail :: emaillib where
  "sampleEmail =
     \<lparr>eml_marshal = (\<lambda>e. Inr (eml_To e)), eml_error = (\<lambda>reply. Inr reply)\<rparr>"

definition samplePlatform :: platform where
  "samplePlatform =
     \<lparr>plat_jwt = sampleJwt, plat_golib = sampleGolib, plat_email = sampleEmail, plat_emailSubject = ''email'',
      plat_nats = \<lparr>nats_Connect = (\<lambda>u opts. None), nats_QueueSubscribe = (\<lambda>s q. None), js_New = None,
        js_KeyValue = (\<lambda>b. None), js_CreateOrUpdateConsumer = (\<lambda>s. None), js_Consume = (\<lambda>s. None)\<rparr>\<rparr>"

definition sampleConfig :: AppConfig where
  "sampleConfig = AppConfigFromEnv (\<lambda>n. if n = ''INVITE_JWT_SECRET'' then replicate 32 (CHR ''k'') else [])"

text \<open>The same platform with the reference library of the JWT contract.\<close>

definition refPlatform :: platform where
  "refPlatform = samplePlatform\<lparr>plat_jwt := refJwt\<rparr>"

section \<open>Messages\<close>

definition acceptEvent :: InviteAcceptedEvent where
  "acceptEvent = \<lparr>evt_InviteUID = ''7'', evt_Username = ''ada'', evt_Token = ''t''\<rparr>"

definition acceptMsg :: natsMsg where
  "acceptMsg = \<lparr>msg_Data = marshalInviteAcceptedEvent acceptEvent, msg_Subject = InviteAcceptedSubject, msg_ReplyTo = []\<rparr>"

lemma acceptMsg_event: "unmarshalInviteAcceptedEvent (msg_Data acceptMsg) = Some acceptEvent"
  unfolding acceptMsg_def natsMsg.select_convs
  by (rule unmarshal_event) (simp_all add: acceptEvent_def validUTF8_ascii is_ascii_Char)

definition sendRequest :: SendInviteRequest where
  "sendRequest =
     \<lparr>req_Recipient = None, req_Inviter = None, req_Resource = None, req_RecipientEmail = ''ada@lfx.dev'',
      req_RecipientName = ''ada'', req_InviterName = ''bob'', req_ResourceUID = ''p1'', req_ResourceName = [],
      req_ResourceType = [], req_Role = ''Writer'', req_ReturnURL = [], req_OrgName = [],
      req_ExpirationDays = 7, req_CustomClaims = [], req_RecipientHasAccount = False\<rparr>"

section \<open>An acceptance\<close>

definition acceptedSample :: InviteRecord where
  "acceptedSample = acceptRecord sampleRecord ''ada'' (5 * nsPerSecond)"

lemma valid_acceptedSample: "validRecord acceptedSample"
  using valid_sampleRecord validTime_samples
  by (simp add: acceptedSample_def acceptRecord_def validRecord_def validStrings_def)

definition acceptedEventData :: string where
  "acceptedEventData = (case marshalInviteServiceAcceptedEvent
      \<lparr>acc_Invite = (domainToAPIInvite acceptedSample)\<lparr>ai_Status := ApiInviteStatusAccepted\<rparr>\<rparr> of Some d \<Rightarrow> d | None \<Rightarrow> [])"

lemma acceptedEventData: "marshalInviteServiceAcceptedEvent
    \<lparr>acc_Invite = (domainToAPIInvite acceptedSample)\<lparr>ai_Status := ApiInviteStatusAccepted\<rparr>\<rparr> = Some acceptedEventData"
proof -
  have "marshalInviteServiceAcceptedEvent
    \<lparr>acc_Invite = (domainToAPIInvite acceptedSample)\<lparr>ai_Status := ApiInviteStatusAccepted\<rparr>\<rparr> \<noteq> None"
    using valid_acceptedSample [unfolded validRecord_def]
    by (auto simp: marshalInviteServiceAcceptedEvent_def invite_members_def domainToAPIInvite_def acceptedSample_def
       acceptRecord_def dest!: validTime_enc)
  then show ?thesis by (auto simp: acceptedEventData_def)
qed

definition sampleTrace :: "event list" where
  "sampleTrace =
     [EGet ''7'' (Inr (recordData sampleRecord, 1)), ENow (5 * nsPerSecond), ENow (5 * nsPerSecond),
      EGet ''7'' (Inr (recordData sampleRecord, 1)), ENow (5 * nsPerSecond),
      EUpdate ''7'' (recordData acceptedSample) 1 (Inr 2),
      EGet ''7'' (Inr (recordData acceptedSample, 2)),
      EPublish InviteServiceAcceptedSubject acceptedEventData None]"

lemma acceptRecord_status: "rec_Status (acceptRecord r username t) = InviteStatusAccepted"
  by (simp add: acceptRecord_def)

lemma acceptedSample_status: "rec_Status acceptedSample = InviteStatusAccepted"
  by (simp add: acceptedSample_def acceptRecord_status)

lemma acceptedSample_neq: "acceptedSample \<noteq> sampleRecord"
  by (metis acceptedSample_status sampleRecord_simps(2) status_distinct(1))

lemma sample_bucket:
  "mem_kv sampleMem ''7'' = (1, Some (recordData sampleRecord))" "mem_next sampleMem = 2"
  "mem_clock sampleMem = 5 * nsPerSecond"
  by (simp_all add: mem_kv_def sampleMem_def)

lemma before_samples: "before (5 * nsPerSecond) (10 * nsPerSecond)"
  by (simp add: before_def nsPerSecond_def)

lemma three_attempts: "maxMarkAcceptedRetries = Suc (Suc (Suc 0))"
  by (simp add: maxMarkAcceptedRetries_def)

lemmas sample_json = unmarshal_recordData [OF valid_sampleRecord] unmarshal_recordData [OF valid_acceptedSample]
  marshal_recordData [OF valid_acceptedSample]

lemmas sample_eval = GetByUID_def mem_env_def sample_bucket sample_json before_samples three_attempts prog_simps
  Let_def MarkAccepted_def acceptedSample_def [symmetric]

lemma sample_mark: "\<exists>s'. run mem_env (MarkAccepted ''7'' ''ada'' (5 * nsPerSecond)) sampleMem = (None, s')"
  by (simp add: sample_eval)

lemmas accept_eval = HandleInviteAccepted_def acceptEvent_def verifyAcceptance_def Verify_def sampleJwt_def claimString_def
  publishAccepted_def Publish_def acceptedEventData

lemma sample_acceptance:
  "traceOf mem_env (HandleInviteAccepted (acceptanceService (\<lambda>r. r) sampleJwt secret) acceptEvent) sampleMem = sampleTrace"
  by (simp add: sample_eval accept_eval sampleTrace_def)

lemma sample_run:
  "\<exists>s'. run mem_env (HandleInviteAccepted (acceptanceService (\<lambda>r. r) sampleJwt secret) acceptEvent) sampleMem = ((), s')
     \<and> recordsOf mem_kv s' ''7'' = Some acceptedSample"
  by (simp add: sample_eval accept_eval recordsOf_def)

lemma sample_handle:
  "handleInviteAccepted (wireServer samplePlatform sampleConfig) acceptMsg =
   HandleInviteAccepted (acceptanceService (\<lambda>r. r) sampleJwt (app_InviteJWTSecret sampleConfig)) acceptEvent"
  using acceptMsg_event
  by (simp add: handleInviteAccepted_def wireServer_acceptSvc samplePlatform_def sampleGolib_def)

lemma sample_dispatch:
  "dispatchMsg (plat_golib samplePlatform) (wireServer samplePlatform sampleConfig) acceptMsg =
   HandleInviteAccepted (acceptanceService (\<lambda>r. r) sampleJwt (app_InviteJWTSecret sampleConfig)) acceptEvent"
  unfolding sample_handle [symmetric] by (simp add: dispatchMsg_def acceptMsg_def subject_defs)

lemmas sample_acceptance_exec =
  exec_traceOf [of "dispatchMsg (plat_golib samplePlatform) (wireServer samplePlatform sampleConfig) acceptMsg" mem_env
    sampleMem, unfolded sample_dispatch, unfolded sample_acceptance, folded sample_dispatch]

end
