(* ===== verification/Acceptance_Total.thy ===== *)
theory Acceptance_Total
  imports Samples
begin

text \<open>
  Acceptance on a reliable bucket is a total function of the records and the clock: what
  \<open>MarkAccepted\<close> answers on every branch, and that an event with a valid token is accepted.
\<close>

section \<open>The abstract outcome\<close>

fun markOutcome :: "InviteRecord option \<Rightarrow> time \<Rightarrow> time \<Rightarrow> sentinel option" where
  "markOutcome None t now = Some ErrInviteNotFound"
| "markOutcome (Some r) t now =
     (if rec_Status r = InviteStatusAccepted then Some ErrAlreadyAccepted
      else if \<not> before t (rec_ExpiresAt r) \<or> \<not> before now (rec_ExpiresAt r) then Some ErrInviteExpired
      else None)"

text \<open>The key of an invite holds nothing, or a record that can be written back as accepted.\<close>

definition storable :: "bucket \<Rightarrow> string \<Rightarrow> string \<Rightarrow> time \<Rightarrow> bool" where
  "storable K uid username t \<longleftrightarrow>
     (case snd (K uid) of None \<Rightarrow> True
      | Some v \<Rightarrow> (case unmarshalInviteRecord v of None \<Rightarrow> False
                   | Some r \<Rightarrow> validRecord (acceptRecord r username t)))"

text \<open>A reading of the clock during a run.\<close>

definition clockReads :: "'s env \<Rightarrow> 'a prog \<Rightarrow> 's \<Rightarrow> time \<Rightarrow> bool" where
  "clockReads e p s t \<longleftrightarrow> ENow t \<in> set (traceOf e p s)"

lemma clockReads_bind:
  "clockReads e p s t \<Longrightarrow> clockReads e (bind p g) s t"
  "run e p s = (a, s') \<Longrightarrow> clockReads e (g a) s' t \<Longrightarrow> clockReads e (bind p g) s t"
  by (simp_all add: clockReads_def traceOf_bind)

context kv_reliable
begin

lemma get_reliable:
  "env_get env k s = (g, s') \<Longrightarrow>
   (case snd (kv s k) of None \<Rightarrow> \<exists>e. g = Inl e \<and> le_notFound e | Some v \<Rightarrow> g = Inr (v, fst (kv s k)))"
  using get_live [of s k] get_dead [of s k] by (cases "snd (kv s k)") auto

abbreviation outcomeAt where
  "outcomeAt uid username t s x s' now \<equiv>
     x = map_option Sentinel (markOutcome (recordsOf kv s uid) t now)
     \<and> recordsOf kv s' = (if x = None then (recordsOf kv s)(uid := map_option (\<lambda>r. acceptRecord r username t) (recordsOf kv s uid))
                          else recordsOf kv s)"

lemma MarkAccepted_reliable:
  assumes run: "run env (MarkAccepted uid username t) s = (x, s')" and st: "storable (kv s) uid username t"
  shows "\<exists>now. (markOutcome (recordsOf kv s uid) t t = None \<longrightarrow> clockReads env (MarkAccepted uid username t) s now)
    \<and> outcomeAt uid username t s x s' now"
proof -
  obtain g s1 where g: "env_get env uid s = (g, s1)" by (cases "env_get env uid s")
  have k1: "kv s1 = kv s" using get_kv [OF g] .
  note gr = get_reliable [OF g]
  have early: "?thesis" if "\<And>now. x = map_option Sentinel (markOutcome (recordsOf kv s uid) t now)" "x \<noteq> None" "kv s' = kv s"
    by (rule exI [of _ t]) (use that(1) [of t] that(2,3) recordsOf_cong [OF that(3)] in auto)
  note unfolds = MarkAccepted_def three_attempts Let_def
  show ?thesis
  proof (cases "recordsOf kv s uid")
    case None
    with st have "snd (kv s uid) = None" by (auto simp: recordsOf_def storable_def split: option.splits)
    with gr obtain e where "g = Inl e" "le_notFound e" by auto
    with run g None k1 show ?thesis by (intro early) (auto simp: unfolds)
  next
    case (Some r)
    with st obtain v where r: "snd (kv s uid) = Some v" "unmarshalInviteRecord v = Some r" "validRecord (acceptRecord r username t)"
      by (auto simp: storable_def recordsOf_def split: option.splits)
    from r(1) gr have gv: "g = Inr (v, fst (kv s uid))" by simp
    show ?thesis
    proof (cases "rec_Status r = InviteStatusAccepted \<or> \<not> before t (rec_ExpiresAt r)")
      case True
      with run g gv r Some k1 show ?thesis by (intro early) (auto simp: unfolds split: if_splits)
    next
      case open_: False
      obtain now s2 where now: "env_now env s1 = (now, s2)" by (cases "env_now env s1")
      have k2: "kv s2 = kv s" using now_kv [OF now] k1 by simp
      have c: "clockReads env (MarkAccepted uid username t) s now"
        using g gv r open_ now by (simp add: unfolds clockReads_def)
      show ?thesis
      proof (cases "before now (rec_ExpiresAt r)")
        case late: False
        with run g gv r open_ now have "x = Some (Sentinel ErrInviteExpired)" "s' = s2" by (simp_all add: unfolds)
        with Some open_ late recordsOf_cong [OF k2] c show ?thesis by (intro exI [of _ now]) simp
      next
        case True
        note data = marshal_recordData [OF r(3)]
        have "fst (kv s2 uid) = fst (kv s uid)" using k2 by simp
        from update_total [OF this, of "recordData (acceptRecord r username t)"] obtain n s3 where
          u: "env_update env uid (recordData (acceptRecord r username t)) (fst (kv s uid)) s2 = (Inr n, s3)" by blast
        with run g gv r open_ now True data have x: "x = None" "s' = s3" by (simp_all add: unfolds)
        have "kv s3 = (kv s)(uid := (n, Some (recordData (acceptRecord r username t))))"
          using update_ok [OF u] k2 by simp
        from recordsOf_upd [of kv, OF this] x Some open_ True unmarshal_recordData [OF r(3)] c
        show ?thesis by (intro exI [of _ now]) (simp add: fun_upd_def)
      qed
    qed
  qed
qed

end

text \<open>C14: On a reliable bucket the outcome of \<open>MarkAccepted\<close> is the one the abstract specification gives
  for the stored record, the given time and the clock that the run reads, on every branch: not found, already
  accepted, expired, or success; and the records change by that acceptance exactly on success.\<close>

theorem MarkAccepted_outcome:
  assumes "kv_reliable env kv" "storable (kv s) uid username t" "run env (MarkAccepted uid username t) s = (x, s')"
  shows "\<exists>now. (markOutcome (recordsOf kv s uid) t t = None \<longrightarrow> clockReads env (MarkAccepted uid username t) s now)
    \<and> x = map_option Sentinel (markOutcome (recordsOf kv s uid) t now)
    \<and> recordsOf kv s' = (if x = None then (recordsOf kv s)(uid := map_option (\<lambda>r. acceptRecord r username t) (recordsOf kv s uid))
                         else recordsOf kv s)"
  using kv_reliable.MarkAccepted_reliable [OF assms(1,3,2)] .

theorem MarkAccepted_outcome_witness:
  "\<exists>s'. recordsOf mem_kv s' ''7'' = Some acceptedSample"
proof -
  have "storable (mem_kv sampleMem) ''7'' ''ada'' (5 * nsPerSecond)"
    by (simp add: storable_def sample_bucket sample_json valid_acceptedSample [unfolded acceptedSample_def])
  moreover obtain s' where r: "run mem_env (MarkAccepted ''7'' ''ada'' (5 * nsPerSecond)) sampleMem = (None, s')"
    using sample_mark by blast
  ultimately show ?thesis
    using MarkAccepted_outcome [OF mem_reliable _ r] by (intro exI [of _ s']) (auto simp: acceptedSample_def)
qed

end
