(* ===== verification/Send_Samples.thy ===== *)
theory Send_Samples
  imports Samples
begin

text \<open>
  Concrete runs of the send-invite use case for the witnesses: a request that is stored and mailed,
  and the same request when the email service answers with an error.
\<close>

section \<open>A request that is sent\<close>

definition sendMem :: mem where
  "sendMem = mem_empty\<lparr>mem_clock := 5 * nsPerSecond\<rparr>"

definition sentResult :: SendInviteResult where
  "sentResult = \<lparr>sir_InviteUID = ''1'', sir_RecipientEmail = ''ada@lfx.dev'', sir_ExpiresAt = 604805 * nsPerSecond\<rparr>"

definition sentSample :: InviteRecord where
  "sentSample = sentRecord sampleConfig sendRequest sentResult (5 * nsPerSecond)"

lemma validTime_week: "validTime (604805 * nsPerSecond)"
  by (rule validTime_year) (simp add: nsPerSecond_def, simp add: yearOfDay_def epochDay_def)

lemma sampleConfig_simps [simp]:
  "app_InviteJWTSecret sampleConfig = replicate 32 (CHR ''k'')"
  "app_SelfServeBaseURL sampleConfig = ''https://app.dev.lfx.dev''"
  "app_DefaultReturnURL sampleConfig = ''https://app.dev.lfx.dev''"
  "app_AllowedReturnURLHosts sampleConfig = [''*.lfx.dev'', ''*.linuxfoundation.org'']"
  by (simp_all add: sampleConfig_def AppConfigFromEnv_def Let_def parseAllowedReturnURLHosts_def)

lemma samplePlatform_simps [simp]:
  "plat_jwt samplePlatform = sampleJwt" "plat_golib samplePlatform = sampleGolib"
  "plat_email samplePlatform = sampleEmail" "plat_emailSubject samplePlatform = ''email''"
  by (simp_all add: samplePlatform_def)

lemma sampleGolib_simps [simp]: "lib_lower sampleGolib = (\<lambda>r. r)"
  by (simp add: sampleGolib_def)

lemma sendRequest_trim [simp]: "trimSpace (req_Role sendRequest) = ''Writer''"
  unfolding sendRequest_def SendInviteRequest.simps by (rule trimSpace_visible) (simp_all add: visible_def byte_def)

lemma sendRequest_OK: "requestOK sendRequest"
  by (simp add: requestOK_def sendRequest_def valid_defs validClaims_def wf_map_def)

lemma sendRequest_valid:
  "validateSend sampleGolib (notificationConfig sampleConfig) sendRequest = Inr (''ada@lfx.dev'', ''Writer'')"
  by (simp add: validateSend_ok) (simp add: sendRequest_def resolve sampleGolib_def)

lemma valid_sentSample: "validRecord sentSample"
proof -
  have "validUTF8 ''1''" "validUTF8 ''https://app.dev.lfx.dev''" by (simp_all add: validUTF8_ascii is_ascii_Char)
  then have "decodedRecord sentSample"
    unfolding sentSample_def sentRecord_def using sendRequest_OK
    by (intro decodedRecord_request) (simp_all add: sentResult_def)
  then show ?thesis
    using validTime_samples validTime_week
    by (simp add: decodedRecord_def validRecord_def) (simp add: sentSample_def sentRecord_def sentResult_def)
qed

definition sentAudit :: NotificationAuditEntry where
  "sentAudit = (auditEntry sendRequest ''ada@lfx.dev'' ''Writer'' DeliveryStateSent None)
     \<lparr>aud_RecipientEmail := redactEmail ''ada@lfx.dev''\<rparr>"

abbreviation sampleIndexKey :: string where
  "sampleIndexKey \<equiv> emailIndexKey (\<lambda>r. r) ''ada@lfx.dev'' ''1''"

definition sentTrace :: "event list" where
  "sentTrace =
     [ENow (5 * nsPerSecond), EUUID ''1'', ERange [] [], ENow (5 * nsPerSecond),
      EPut ''1'' (recordData sentSample) (Inr 1), EPut sampleIndexKey ''1'' (Inr 2),
      ERequest ''email'' ''ada@lfx.dev'' (Inr []), EAudit sentAudit]"

lemma sendMem_simps [simp]: "mem_clock sendMem = 5 * nsPerSecond" "mem_uuids sendMem = 1" "mem_next sendMem = 1"
  "mem_answer sendMem = []" "mem_kv sendMem = (\<lambda>k. (0, None))"
  by (simp_all add: sendMem_def mem_empty_def mem_kv_def fun_eq_iff)

lemma sendRequest_simps [simp]: "req_ExpirationDays sendRequest = 7" "req_CustomClaims sendRequest = []"
  by (simp_all add: sendRequest_def)

lemma sample_lifetime: "addDur (5 * nsPerSecond) (tokenLifetime 7) = 604805 * nsPerSecond"
  by (simp add: addDur_def tokenLifetime_def maxExpirationDays_def nsPerHour_def nsPerSecond_def)


lemmas mem_env_simps = mem_env_def [THEN arg_cong, of env_now] mem_env_def [THEN arg_cong, of env_uuid]
  mem_env_def [THEN arg_cong, of env_range] mem_env_def [THEN arg_cong, of env_put]
  mem_env_def [THEN arg_cong, of env_get] mem_env_def [THEN arg_cong, of env_delete]
  mem_env_def [THEN arg_cong, of env_request] mem_env_def [THEN arg_cong, of env_audit]
  mem_env_def [THEN arg_cong, of env_reply]

text \<open>The platforms of the samples differ in their JWT library only, and so in the token of the link.\<close>

definition samplePf :: "platform \<Rightarrow> bool" where
  "samplePf pf \<longleftrightarrow> plat_golib pf = sampleGolib \<and> plat_email pf = sampleEmail \<and> plat_emailSubject pf = ''email''"

lemma samplePf_samples [simp]: "samplePf samplePlatform" "samplePf refPlatform"
  by (simp_all add: samplePf_def refPlatform_def)

abbreviation serviceOf :: "platform \<Rightarrow> NotificationService" where
  "serviceOf pf \<equiv> notificationService pf sampleConfig"

abbreviation sampleService :: NotificationService where
  "sampleService \<equiv> serviceOf samplePlatform"

definition linkWith :: "string \<Rightarrow> GeneratedLink" where
  "linkWith token = \<lparr>gl_Link = ''https://app.dev.lfx.dev/invite?token='' @ token, gl_InviteUID = ''1'',
     gl_ExpiresAt = 604805 * nsPerSecond, gl_AcceptedClaims = []\<rparr>"

abbreviation sampleDest :: string where
  "sampleDest \<equiv> destinationURL (notificationConfig sampleConfig) sendRequest"

definition sampleClaims :: claims where
  "sampleClaims = serviceClaims (5 * nsPerSecond) (604805 * nsPerSecond) ''1''
     (linkPayload sendRequest ''ada@lfx.dev'' sampleDest ''Writer'')"

definition signs :: "platform \<Rightarrow> string \<Rightarrow> bool" where
  "signs pf token \<longleftrightarrow> jwt_SignedString (plat_jwt pf) ''HS256'' (replicate 32 (CHR ''k'')) sampleClaims = Inr token"

lemma signs_samples: "signs samplePlatform ''t''" "signs refPlatform (jprint (refToken ''HS256'' (replicate 32 (CHR ''k'')) sampleClaims))"
  by (simp_all add: signs_def sampleJwt_def refPlatform_def refJwt_def)

lemma showNat_one [simp]: "showNat (Suc 0) = ''1''"
  by code_simp

lemma sample_link:
  assumes "mem_clock s = 5 * nsPerSecond" "mem_uuids s = 1" "signs pf token"
  shows "run mem_env (ns_linkGenerator (serviceOf pf) (linkPayload sendRequest ''ada@lfx.dev'' sampleDest ''Writer'')) s =
      (Inr (linkWith token), s\<lparr>mem_uuids := 2\<rparr>)"
    "traceOf mem_env (ns_linkGenerator (serviceOf pf) (linkPayload sendRequest ''ada@lfx.dev'' sampleDest ''Writer'')) s =
       [ENow (5 * nsPerSecond), EUUID ''1'', ERange [] []]"
proof -
  have lp: "lp_CustomClaims (linkPayload sendRequest ''ada@lfx.dev'' sampleDest ''Writer'') = []"
    "lp_ExpirationDays (linkPayload sendRequest ''ada@lfx.dev'' sampleDest ''Writer'') = 7"
    by (simp_all add: linkPayload_def)
  show "run mem_env (ns_linkGenerator (serviceOf pf) (linkPayload sendRequest ''ada@lfx.dev'' sampleDest ''Writer'')) s =
      (Inr (linkWith token), s\<lparr>mem_uuids := 2\<rparr>)"
    "traceOf mem_env (ns_linkGenerator (serviceOf pf) (linkPayload sendRequest ''ada@lfx.dev'' sampleDest ''Writer'')) s =
       [ENow (5 * nsPerSecond), EUUID ''1'', ERange [] []]"
    using assms
    by (simp_all add: Generate_def lp mem_env_simps sample_lifetime Let_def asOrder_def maxCustomClaims_def linkWith_def
        signs_def sampleClaims_def)
qed

lemma sentSample_at:
  "inviteRecordAt (5 * nsPerSecond) ''1'' sendRequest ''ada@lfx.dev'' sampleDest ''Writer'' (604805 * nsPerSecond) [] = sentSample"
  by (simp add: sentSample_def sentRecord_def sentResult_def)

lemma sample_simps [simp]:
  "gl_InviteUID (linkWith token) = ''1''" "gl_ExpiresAt (linkWith token) = 604805 * nsPerSecond"
  "gl_AcceptedClaims (linkWith token) = []"
  "rec_UID sentSample = ''1''" "rcp_Email (rec_Recipient sentSample) = ''ada@lfx.dev''"
  "rec_Status sentSample = InviteStatusPending" "rec_ExpiresAt sentSample = 604805 * nsPerSecond"
  "rcp_Username (rec_Recipient sentSample) = []"
  by (simp_all add: linkWith_def)
     (simp_all add: sentSample_def sentRecord_def sentResult_def inviteRecordAt_def Let_def sendRequest_def zeroRecipient_def)

lemma mem_write_simps [simp]:
  "mem_answer (mem_write k v s) = mem_answer s" "mem_next (mem_write k v s) = mem_next s + 1"
  by (simp_all add: mem_write_def)

abbreviation samplePersist :: "platform \<Rightarrow> string \<Rightarrow> (goerr + SendInviteResult) prog" where
  "samplePersist pf token \<equiv>
     persistInvite (serviceOf pf) sendRequest ''ada@lfx.dev'' sampleDest ''Writer'' (linkWith token)"

abbreviation sampleMail :: "platform \<Rightarrow> string \<Rightarrow> (goerr + SendInviteResult) prog" where
  "sampleMail pf token \<equiv> dispatchInvite (serviceOf pf) sendRequest ''ada@lfx.dev'' ''Writer'' (linkWith token)"

lemma sample_persist:
  assumes "mem_clock s = 5 * nsPerSecond" "samplePf pf"
  shows "run mem_env (samplePersist pf token) s =
     run mem_env (sampleMail pf token)
       (mem_write sampleIndexKey (Some ''1'') (mem_write ''1'' (Some (recordData sentSample)) s))"
    "traceOf mem_env (samplePersist pf token) s =
     [ENow (5 * nsPerSecond), EPut ''1'' (recordData sentSample) (Inr (mem_next s)),
      EPut sampleIndexKey ''1'' (Inr (mem_next s + 1))]
     @ traceOf mem_env (sampleMail pf token)
       (mem_write sampleIndexKey (Some ''1'') (mem_write ''1'' (Some (recordData sentSample)) s))"
  using assms marshal_recordData [OF valid_sentSample]
  by (simp_all add: persistInvite_def buildInviteRecord_def mem_env_simps sentSample_at Create_def samplePf_def)

lemma sample_dispatch_sent:
  assumes "mem_answer s = []" "samplePf pf"
  shows "run mem_env (sampleMail pf token) s = (Inr sentResult, s\<lparr>mem_sent := mem_sent s @ [(''email'', ''ada@lfx.dev'')]\<rparr>)"
    "traceOf mem_env (sampleMail pf token) s = [ERequest ''email'' ''ada@lfx.dev'' (Inr []), EAudit sentAudit]"
  using assms
  by (simp_all add: dispatchInvite_def SendNotification_def Request_def sampleEmail_def emailEnvelopeOf_def emailPayload_def
    emailSent_def auditNotification_def prog_simps mem_env_simps sentResult_def sentAudit_def Let_def auditEntry_def samplePf_def)

text \<open>The email service answers with an error: the record and its index entry are deleted again.\<close>

definition mailError :: goerr where
  "mailError = newServiceUnavailable ''email service returned error'' (Some (Errorf [T ''down'']))"

lemma sample_dispatch_failed:
  assumes "mem_answer s = ''down''" "mem_kv s ''1'' = (n, Some (recordData sentSample))" "samplePf pf"
  shows "run mem_env (sampleMail pf token) s =
      (Inl (dispatchError sendRequest mailError),
       mem_write sampleIndexKey None (mem_write ''1'' None (s\<lparr>mem_sent := mem_sent s @ [(''email'', ''ada@lfx.dev'')]\<rparr>)))"
proof -
  have "run mem_env (DeleteInvite (\<lambda>r. r) ''1'') (s\<lparr>mem_sent := mem_sent s @ [(''email'', ''ada@lfx.dev'')]\<rparr>) =
     (None, mem_write sampleIndexKey None (mem_write ''1'' None (s\<lparr>mem_sent := mem_sent s @ [(''email'', ''ada@lfx.dev'')]\<rparr>)))"
    using assms(2) unmarshal_recordData [OF valid_sentSample] by (simp add: DeleteInvite_def mem_env_simps)
  then show ?thesis
  using assms
  by (simp add: dispatchInvite_def SendNotification_def Request_def sampleEmail_def emailEnvelopeOf_def emailPayload_def
    emailFailed_def auditNotification_def prog_simps mem_env_simps mailError_def Let_def samplePf_def)
qed

lemma sampleIndexKey_neq [simp]: "sampleIndexKey \<noteq> ''1''" "''1'' \<noteq> sampleIndexKey"
  using isUid_neq_indexKey [of "''1''"] by (simp_all add: isUid_def hasPrefix_def emailIndexPrefix_def) metis

abbreviation sampleSend :: "platform \<Rightarrow> (goerr + SendInviteResult) prog" where
  "sampleSend pf \<equiv> HandleSendInvite sampleGolib (serviceOf pf) sendRequest"

lemma sample_send:
  assumes "mem_clock s = 5 * nsPerSecond" "mem_uuids s = 1" "signs pf token"
  shows "run mem_env (sampleSend pf) s = run mem_env (samplePersist pf token) (s\<lparr>mem_uuids := 2\<rparr>)"
    "traceOf mem_env (sampleSend pf) s =
     [ENow (5 * nsPerSecond), EUUID ''1'', ERange [] []] @ traceOf mem_env (samplePersist pf token) (s\<lparr>mem_uuids := 2\<rparr>)"
  using sample_link [OF assms]
  by (simp_all add: HandleSendInvite_def sendRequest_valid Let_def prog_simps del: notificationService_simps(3,4))

lemma send_runs:
  assumes "samplePf pf" "signs pf token"
  shows "\<exists>s'. run mem_env (sampleSend pf) sendMem = (Inr sentResult, s')
     \<and> mem_kv s' = (\<lambda>k. (0, None))(''1'' := (1, Some (recordData sentSample)), sampleIndexKey := (2, Some ''1''))"
    "traceOf mem_env (sampleSend pf) sendMem = sentTrace"
  by (simp_all add: sample_send [OF _ _ assms(2)] sample_persist [OF _ assms(1)] sample_dispatch_sent [OF _ assms(1)]
      sentTrace_def numeral_2_eq_2)

lemmas sample_sent = send_runs [OF samplePf_samples(1) signs_samples(1)]

definition downMem :: mem where
  "downMem = sendMem\<lparr>mem_answer := ''down''\<rparr>"

lemma sample_failed:
  "\<exists>s'. run mem_env (HandleSendInvite sampleGolib sampleService sendRequest) downMem
     = (Inl (dispatchError sendRequest mailError), s')
     \<and> mem_kv s' = (\<lambda>k. (0, None))(''1'' := (3, None), sampleIndexKey := (4, None))"
  by (simp add: sample_send [OF _ _ signs_samples(1)] sample_persist sample_dispatch_failed downMem_def eval_nat_numeral)
   (simp add: sendMem_def mem_empty_def mem_kv_def fun_eq_iff)

end
