(* ===== verification/Handler_Laws.thy ===== *)
theory Handler_Laws
  imports Send_Laws
begin

text \<open>
  Which calls the handlers can make. \<open>calls P p\<close> says that every call of p, with every answer,
  satisfies P; it is computed along the program, so that one rewriting pass over a handler shows
  what it never does.
\<close>

named_theorems call_simps \<open>the calls of a program\<close>

section \<open>The calls of a program\<close>

primrec calls :: "(event \<Rightarrow> bool) \<Rightarrow> 'a prog \<Rightarrow> bool" where
  "calls P (Return a) = True"
| "calls P (Now f) = (\<forall>x. P (ENow x) \<and> calls P (f x))"
| "calls P (NewUUID f) = (\<forall>x. P (EUUID x) \<and> calls P (f x))"
| "calls P (CtxErr f) = (\<forall>x. P (ECtxErr x) \<and> calls P (f x))"
| "calls P (RangeMap m f) = (\<forall>x. P (ERange m x) \<and> calls P (f x))"
| "calls P (KvGet k f) = (\<forall>x. P (EGet k x) \<and> calls P (f x))"
| "calls P (KvPut k v f) = (\<forall>x. P (EPut k v x) \<and> calls P (f x))"
| "calls P (KvUpdate k v r f) = (\<forall>x. P (EUpdate k v r x) \<and> calls P (f x))"
| "calls P (KvDelete k f) = (\<forall>x. P (EDelete k x) \<and> calls P (f x))"
| "calls P (KvListKeys f) = (\<forall>x. P (EListKeys x) \<and> calls P (f x))"
| "calls P (NatsRequest c d f) = (\<forall>x. P (ERequest c d x) \<and> calls P (f x))"
| "calls P (NatsPublish c d f) = (\<forall>x. P (EPublish c d x) \<and> calls P (f x))"
| "calls P (MsgReply d f) = (\<forall>x. P (EReply d x) \<and> calls P (f x))"
| "calls P (Audit e p) = (P (EAudit e) \<and> calls P p)"

lemma exec_calls: "exec p tr a \<Longrightarrow> calls P p \<Longrightarrow> list_all P tr"
  by (induction rule: exec.induct) auto

lemma calls_bind [call_simps]: "calls P p \<Longrightarrow> (\<And>a. calls P (g a)) \<Longrightarrow> calls P (bind p g)"
  by (induction p) auto

lemma calls_choice [call_simps]:
  "(\<And>x. calls P (f x)) \<Longrightarrow> (\<And>y. calls P (g y)) \<Longrightarrow> calls P (case_sum f g s)"
  "calls P p \<Longrightarrow> (\<And>x. calls P (h x)) \<Longrightarrow> calls P (case_option p h m)"
  "(\<And>x y. calls P (k x y)) \<Longrightarrow> calls P (case_prod k v)"
  "calls P p \<Longrightarrow> calls P q \<Longrightarrow> calls P (if c then p else q)"
  by (auto split: sum.splits option.splits prod.splits)

lemmas call_intros = calls_bind calls_choice

section \<open>The operations\<close>

text \<open>A call that accepts an invite or announces it.\<close>

fun isAcceptance :: "event \<Rightarrow> bool" where
  "isAcceptance (EUpdate k v n r) = True"
| "isAcceptance (EPublish c d r) = True"
| "isAcceptance _ = False"

abbreviation silent :: "event \<Rightarrow> bool" where
  "silent e \<equiv> \<not> isReply e"

abbreviation readOnly :: "event \<Rightarrow> bool" where
  "readOnly e \<equiv> \<not> isWrite e \<and> \<not> isSend e \<and> \<not> isReply e"

abbreviation inert :: "event \<Rightarrow> bool" where
  "inert e \<equiv> \<not> isAcceptance e \<and> \<not> isReply e"

lemma calls_mono: "calls P p \<Longrightarrow> (\<And>e. P e \<Longrightarrow> R e) \<Longrightarrow> calls R p"
  by (induction p) auto

lemma acceptance_is_effect: "isAcceptance e \<Longrightarrow> isWrite e \<or> isSend e"
  by (cases e) auto

lemma calls_readOnly:
  "calls readOnly p \<Longrightarrow> calls inert p"
  "calls readOnly p \<Longrightarrow> calls silent p"
  by (erule calls_mono, use acceptance_is_effect in blast)+

lemma GetByUID_calls: "calls readOnly (GetByUID uid)"
  unfolding GetByUID_def by (auto intro!: call_intros)

lemma loadRecords_calls: "calls readOnly (loadRecords uids acc)"
  by (induction uids arbitrary: acc) (auto intro!: call_intros GetByUID_calls split: sum.splits)

lemma GetByEmail_calls: "calls readOnly (GetByEmail u email)"
  unfolding GetByEmail_def Let_def by (auto intro!: call_intros loadRecords_calls split: sum.splits option.splits)

lemma Verify_calls: "calls readOnly (Verify jwt secret token)"
  unfolding Verify_def Let_def by (auto intro!: call_intros split: sum.splits)

lemma Generate_calls: "calls readOnly (Generate jwt secret base p)"
  unfolding Generate_def Let_def by (auto intro!: call_intros split: sum.splits)

lemma Create_calls: "calls inert (Create u r)"
  unfolding Create_def by (auto intro!: call_intros split: sum.splits option.splits)

lemma DeleteInvite_calls: "calls inert (DeleteInvite u uid)"
  unfolding DeleteInvite_def by (auto intro!: call_intros split: sum.splits option.splits)

lemma SendNotification_calls: "calls inert (SendNotification elib subj payload)"
  unfolding SendNotification_def Request_def by (auto intro!: call_intros split: sum.splits)

lemma MarkAccepted_calls: "calls silent (MarkAccepted uid username t)"
proof -
  have "calls silent (markAttempts n uid username t)" for n
    by (induction n) (auto simp: Let_def intro!: call_intros split: sum.splits option.splits)
  then show ?thesis by (simp add: MarkAccepted_def)
qed

lemma HandleSendInvite_calls: "calls inert (HandleSendInvite lib (notificationService pf cfg) req)"
  unfolding HandleSendInvite_def persistInvite_def buildInviteRecord_def dispatchInvite_def emailFailed_def
    emailSent_def auditNotification_def Let_def
  by (auto intro!: call_intros Generate_calls [THEN calls_readOnly(1)] Create_calls SendNotification_calls
      DeleteInvite_calls split: sum.splits)

lemma Publish_calls: "calls silent (Publish subj d)"
  unfolding Publish_def by (auto split: option.splits)

lemma HandleInviteAccepted_calls: "calls silent (HandleInviteAccepted (acceptanceService u jwt secret) evt)"
  unfolding HandleInviteAccepted_def verifyAcceptance_def publishAccepted_def Let_def
  by (auto intro!: call_intros Publish_calls Verify_calls [THEN calls_readOnly(2)] GetByUID_calls [THEN calls_readOnly(2)]
      MarkAccepted_calls split: sum.splits option.splits)

lemma GetInvite_calls: "calls readOnly (GetInvite (NATSInviteRepository u) uid)"
  unfolding GetInvite_def by (auto intro!: call_intros GetByUID_calls split: sum.splits)

lemma GetInvitesByEmail_calls: "calls readOnly (GetInvitesByEmail lib (NATSInviteRepository u) email)"
  unfolding GetInvitesByEmail_def by (auto intro!: call_intros GetByEmail_calls split: sum.splits)

section \<open>Replies of the handlers\<close>

definition replies :: "event list \<Rightarrow> nat" where
  "replies tr = length (filter isReply tr)"

lemma replies_simps [simp]:
  "replies [] = 0" "replies (tr @ tr') = replies tr + replies tr'"
  "replies (e # tr) = (if isReply e then Suc (replies tr) else replies tr)"
  by (simp_all add: replies_def)

lemma calls_silent_replies: "calls silent p \<Longrightarrow> exec p tr a \<Longrightarrow> replies tr = 0"
  using exec_calls [of p tr a silent] by (simp add: replies_def filter_empty_conv list_all_iff)

lemma calls_inert_silent: "calls inert p \<Longrightarrow> calls silent p"
  by (erule calls_mono) blast

text \<open>Programs that reply exactly once when the message asks for a reply.\<close>

definition once :: "natsMsg \<Rightarrow> 'a prog \<Rightarrow> bool" where
  "once m p \<longleftrightarrow> (\<forall>tr x. exec p tr x \<longrightarrow> replies tr = (if msg_ReplyTo m = [] then 0 else 1))"

lemma once_Reply: "once m (bind (Reply m d) (\<lambda>e. Return ()))"
  unfolding once_def Reply_def by (auto simp: prog_simps exec_bind)

lemma once_errors:
  "once m (replyError m code)" "once m (replyGetInviteError m code)" "once m (replyGetByEmailError m code)"
  unfolding replyError_def replyGetInviteError_def replyGetByEmailError_def by (rule once_Reply)+

lemma once_choice:
  "(\<And>x. once m (f x)) \<Longrightarrow> (\<And>y. once m (g y)) \<Longrightarrow> once m (case_sum f g s)"
  "once m p \<Longrightarrow> (\<And>x. once m (h x)) \<Longrightarrow> once m (case_option p h v)"
  "once m p \<Longrightarrow> once m q \<Longrightarrow> once m (if c then p else q)"
  by (auto split: sum.splits option.splits)

lemma once_bind: "calls silent p \<Longrightarrow> (\<And>a. once m (g a)) \<Longrightarrow> once m (bind p g)"
  unfolding once_def exec_bind using calls_silent_replies by fastforce

lemmas once_intros = once_choice once_errors once_Reply

lemma wireServer_simps [simp]:
  "srv_notifSvc (wireServer pf cfg) = notificationService pf cfg"
  "srv_acceptSvc (wireServer pf cfg) = acceptanceService (lib_lower (plat_golib pf)) (plat_jwt pf) (app_InviteJWTSecret cfg)"
  "srv_readStore (wireServer pf cfg) = NATSInviteRepository (lib_lower (plat_golib pf))"
  by (simp_all add: notificationService_def wireServer_acceptSvc) (simp add: wireServer_def NewServer_def NewInviteReadService_def Let_def)

lemma handleSendInvite_once: "once m (handleSendInvite lib (wireServer pf cfg) m)"
  unfolding handleSendInvite_def Let_def wireServer_simps
  by (intro once_choice(2) once_errors once_bind [OF calls_inert_silent [OF HandleSendInvite_calls]] once_intros)

lemma handleGetInvite_once: "once m (handleGetInvite (wireServer pf cfg) m)"
  unfolding handleGetInvite_def Let_def wireServer_simps
  by (intro once_choice(2) once_errors once_bind [OF calls_readOnly(2) [OF GetInvite_calls]] once_intros)

lemma handleGetInvitesByEmail_once: "once m (handleGetInvitesByEmail lib (wireServer pf cfg) m)"
  unfolding handleGetInvitesByEmail_def wireServer_simps
  by (intro once_choice(2) once_errors once_bind [OF calls_readOnly(2) [OF GetInvitesByEmail_calls]] once_intros)

lemma handleInviteAccepted_replies:
  "exec (handleInviteAccepted (wireServer pf cfg) m) tr x \<Longrightarrow> replies tr = 0"
  unfolding handleInviteAccepted_def
  by (cases "unmarshalInviteAcceptedEvent (msg_Data m)")
     (auto simp: prog_simps intro: calls_silent_replies [OF HandleInviteAccepted_calls])

section \<open>Handlers that accept nothing\<close>

lemma reply_calls:
  "calls (\<lambda>e. \<not> isAcceptance e) (replyError m code)"
  "calls (\<lambda>e. \<not> isAcceptance e) (replyGetInviteError m code)"
  "calls (\<lambda>e. \<not> isAcceptance e) (replyGetByEmailError m code)"
  "calls (\<lambda>e. \<not> isAcceptance e) (Reply m d)"
  unfolding replyError_def replyGetInviteError_def replyGetByEmailError_def Reply_def by (auto intro!: call_intros)

lemma calls_inert_acceptance: "calls inert p \<Longrightarrow> calls (\<lambda>e. \<not> isAcceptance e) p"
  by (erule calls_mono) blast

lemma other_handlers_calls:
  "calls (\<lambda>e. \<not> isAcceptance e) (handleSendInvite lib (wireServer pf cfg) m)"
  "calls (\<lambda>e. \<not> isAcceptance e) (handleGetInvite (wireServer pf cfg) m)"
  "calls (\<lambda>e. \<not> isAcceptance e) (handleGetInvitesByEmail lib (wireServer pf cfg) m)"
  unfolding handleSendInvite_def handleGetInvite_def handleGetInvitesByEmail_def Let_def
  by (auto intro!: call_intros reply_calls HandleSendInvite_calls [THEN calls_inert_acceptance]
      GetInvite_calls [THEN calls_readOnly(1), THEN calls_inert_acceptance]
      GetInvitesByEmail_calls [THEN calls_readOnly(1), THEN calls_inert_acceptance] split: sum.splits option.splits)

end
