(* ===== verification/Query_Laws.thy ===== *)
theory Query_Laws
  imports Handler_Laws
begin

text \<open>
  The two queries on a bucket: what they find, and that on a reliable bucket they answer whenever
  the stored values decode.
\<close>

section \<open>What the queries find\<close>

text \<open>The address a query by email looks up.\<close>

definition lookupAddress :: "golib \<Rightarrow> string \<Rightarrow> string" where
  "lookupAddress lib email = (case lib_ParseAddress lib email of Inr address \<Rightarrow> address | Inl err \<Rightarrow> email)"

lemma indexedOf_normalized:
  "normalizeEmail u e = normalizeEmail u e' \<Longrightarrow> indexedOf u kv s e uid = indexedOf u kv s e' uid"
  by (simp add: indexedOf_def emailIndexKey_def encodeEmailForKey_def)

text \<open>A live value under the key decodes.\<close>

definition readable :: "bucket \<Rightarrow> string \<Rightarrow> bool" where
  "readable K uid \<longleftrightarrow> (case snd (K uid) of None \<Rightarrow> True | Some v \<Rightarrow> unmarshalInviteRecord v \<noteq> None)"

context kv_contract
begin

lemma GetInvite_run:
  assumes "run env (GetInvite (NATSInviteRepository u) uid) s = (x, s')" "recordsOf kv s uid = Some r" "uid \<noteq> []"
  shows "x = Inr (domainToAPIInvite r) \<or> (\<exists>e. x = Inl e \<and> \<not> errors_Is e ErrInviteNotFound)"
proof -
  obtain y s1 where y: "run env (GetByUID uid) s = (y, s1)" by (cases "run env (GetByUID uid) s")
  show ?thesis
  proof (cases y)
    case (Inl e)
    with assms y GetByUID_run(3) [OF y Inl] show ?thesis by (auto simp: GetInvite_def prog_simps)
  next
    case (Inr r')
    with assms y GetByUID_run(2) [OF y Inr] show ?thesis by (simp add: GetInvite_def prog_simps)
  qed
qed

lemma GetInvitesByEmail_run:
  assumes "run env (GetInvitesByEmail lib (NATSInviteRepository u) email) s = (Inr invites, s')"
  shows "email \<noteq> []"
    "set invites = domainToAPIInvite ` {r. \<exists>uid. indexedOf u kv s (lookupAddress lib email) uid \<and> recordsOf kv s uid = Some r}"
proof -
  show "email \<noteq> []" using assms by (auto simp: GetInvitesByEmail_def)
  obtain y s1 where y: "run env (GetByEmail u (lookupAddress lib email)) s = (y, s1)"
    by (cases "run env (GetByEmail u (lookupAddress lib email)) s")
  with assms obtain rs where rs: "y = Inr rs" "invites = map domainToAPIInvite rs"
    by (cases y) (auto simp: GetInvitesByEmail_def prog_simps lookupAddress_def split: if_splits)
  from GetByEmail_run(2) [OF y rs(1)] rs(2)
  show "set invites = domainToAPIInvite ` {r. \<exists>uid. indexedOf u kv s (lookupAddress lib email) uid \<and> recordsOf kv s uid = Some r}"
    by simp
qed

end

section \<open>Queries on a reliable bucket\<close>

context kv_reliable
begin

lemma GetByUID_reliable:
  assumes "run env (GetByUID uid) s = (x, s')" "readable (kv s) uid"
  shows "x = (case recordsOf kv s uid of None \<Rightarrow> Inl (Sentinel ErrInviteNotFound) | Some r \<Rightarrow> Inr r)"
proof -
  obtain g s1 where g: "env_get env uid s = (g, s1)" by (cases "env_get env uid s")
  show ?thesis
  proof (cases "snd (kv s uid)")
    case None
    with get_dead [OF None] g obtain e where "g = Inl e" "le_notFound e" by auto
    with assms g None show ?thesis by (simp add: GetByUID_def recordsOf_def)
  next
    case (Some v)
    with get_live [OF Some] g have "g = Inr (v, fst (kv s uid))" by auto
    with assms g Some show ?thesis by (auto simp: GetByUID_def recordsOf_def readable_def)
  qed
qed

lemma loadRecords_reliable:
  "list_all (readable (kv s)) uids \<Longrightarrow>
   \<exists>s'. run env (loadRecords uids acc) s = (Inr (acc @ List.map_filter (recordsOf kv s) uids), s')"
proof (induction uids arbitrary: acc s)
  case Nil
  then show ?case by (simp add: List.map_filter_simps)
next
  case (Cons uid uids)
  obtain y s1 where y: "run env (GetByUID uid) s = (y, s1)" by (cases "run env (GetByUID uid) s")
  have k: "kv s1 = kv s" using GetByUID_run(1) [OF y] .
  note r = recordsOf_cong [OF k]
  have IH: "\<exists>s'. run env (loadRecords uids acc') s1 = (Inr (acc' @ List.map_filter (recordsOf kv s) uids), s')" for acc'
    using Cons.IH [of s1 acc'] Cons.prems k r by simp
  from GetByUID_reliable [OF y] Cons.prems
  have "y = (case recordsOf kv s uid of None \<Rightarrow> Inl (Sentinel ErrInviteNotFound) | Some r \<Rightarrow> Inr r)" by simp
  with y IH [of acc] IH [of "acc @ [the (recordsOf kv s uid)]"] show ?case
    by (cases "recordsOf kv s uid") (simp_all add: prog_simps List.map_filter_simps)
qed

lemma GetByEmail_reliable:
  assumes "\<And>uid. indexedOf u kv s email uid \<Longrightarrow> readable (kv s) uid"
  shows "\<exists>rs s'. run env (GetByEmail u email) s = (Inr rs, s')"
proof -
  obtain keys s1 where ks: "env_keys env s = (Inr keys, s1)" using keys_total by metis
  obtain s2 where c: "env_ctxErr env s1 = (None, s2)" using ctxErr_none by metis
  let ?pre = "emailIndexPrefix @ encodeEmailForKey u email @ ''/''"
  let ?uids = "map (\<lambda>key. trimPrefix key ?pre) (filter (\<lambda>key. hasPrefix key ?pre) keys)"
  have k2: "kv s2 = kv s" using keys_kv [OF ks] ctxErr_kv [OF c] by simp
  have "readable (kv s) uid" if "uid \<in> set ?uids" for uid
  proof -
    have "emailIndexKey u email uid \<in> set keys" using that unfolding index_uids .
    then have "indexedOf u kv s email uid" using keys_live [OF ks] by (simp add: indexedOf_def)
    then show ?thesis by (rule assms)
  qed
  then have "list_all (readable (kv s2)) ?uids" using k2 by (simp only: list_all_iff) blast
  from loadRecords_reliable [OF this, of "[]"] obtain rs s' where "run env (loadRecords ?uids []) s2 = (Inr rs, s')" by blast
  with ks c show ?thesis by (cases "?uids = []") (simp_all add: GetByEmail_def Let_def)
qed

lemma GetInvitesByEmail_reliable:
  assumes "\<And>uid. indexedOf u kv s (lookupAddress lib email) uid \<Longrightarrow> readable (kv s) uid" "email \<noteq> []"
  shows "\<exists>invites s'. run env (GetInvitesByEmail lib (NATSInviteRepository u) email) s = (Inr invites, s')"
proof -
  from GetByEmail_reliable [OF assms(1)] obtain rs s' where
    "run env (GetByEmail u (lookupAddress lib email)) s = (Inr rs, s')" by blast
  with assms(2) show ?thesis by (simp add: GetInvitesByEmail_def prog_simps lookupAddress_def)
qed

end

end
