(* ===== verification/Send_Properties.thy ===== *)
theory Send_Properties
  imports Send_Samples Query_Laws
begin

text \<open>
  What sending an invite promises: no email without a record, the email carries the link of that
  record, a sent invite can be read back, a failed dispatch leaves nothing behind, and the code of
  an error tells what happened.
\<close>

section \<open>Lemmas\<close>

abbreviation sends :: "platform \<Rightarrow> AppConfig \<Rightarrow> SendInviteRequest \<Rightarrow> event list \<Rightarrow> goerr + SendInviteResult \<Rightarrow> bool" where
  "sends pf cfg req tr x \<equiv> exec (HandleSendInvite (plat_golib pf) (notificationService pf cfg) req) tr x"

lemma concat_sublist: "x \<in> set xs \<Longrightarrow> sublist x (concat xs)"
  by (metis concat.simps(2) concat_append in_set_conv_decomp sublist_appendI)

lemma plain_contains_link: "sublist (pay_InviteLink p) (ren_Plain (RenderInviteEmail p))"
proof -
  have "TField ted_ReturnURL \<in> set plainTmpl" by (simp add: plainTmpl_def)
  then have "sublist (execNode (buildTemplateData p) (TField ted_ReturnURL)) (execTemplate plainTmpl (buildTemplateData p))"
    unfolding execTemplate_def by (intro concat_sublist) (simp only: set_map image_eqI)
  then show ?thesis by (simp add: RenderInviteEmail_def Let_def renderPart_def buildTemplateData_def)
qed

text \<open>The only request of a send is the one of the email sender, after the record was stored.\<close>

lemma mailed_exec:
  assumes "sends pf cfg req tr x" "ERequest c d q \<in> set tr" "wf_map (req_CustomClaims req)"
  obtains email role created t0 claims token data m env and g :: GeneratedLink where
    "eml_marshal (plat_email pf) env = Inr d" "c = plat_emailSubject pf" "eml_To env = email"
    "sublist (app_SelfServeBaseURL cfg @ ''/invite?token='' @ token) (eml_Text env)"
    "jwt_SignedString (plat_jwt pf) ''HS256'' (app_InviteJWTSecret cfg) claims = Inr token"
    "map_of claims = tokenClaims t0 (gl_InviteUID g) (linkPayload req email (destinationURL (notificationConfig cfg) req) role)"
    "marshalInviteRecord (inviteRecordAt created (gl_InviteUID g) req email (destinationURL (notificationConfig cfg) req)
       role (gl_ExpiresAt g) (nonReserved (req_CustomClaims req))) = Some data"
    "gl_ExpiresAt g = addDur t0 (tokenLifetime (req_ExpirationDays req))"
    "EPut (gl_InviteUID g) data (Inr m) \<in> set tr" "wf_map claims" "ENow t0 \<in> set tr" "EUUID (gl_InviteUID g) \<in> set tr"
    "validateSend (plat_golib pf) (notificationConfig cfg) req = Inr (email, role)"
proof (cases rule: HandleSendInvite_exec [OF assms(1) notificationService_simps(1), case_names invalid nolink persisted])
  case (nolink email role e)
  then have "noSend tr" using Generate_quiet by (auto simp: noEffect_iff)
  with assms(2) show thesis by (auto simp: noSend_def list_all_iff)
next
  case (persisted email role g trg now tr2 tr3 y)
  let ?lp = "linkPayload req email (destinationURL (notificationConfig cfg) req) role"
  have wf: "wf_map (lp_CustomClaims ?lp)" using assms(3) by (simp add: linkPayload_def)
  have gen: "exec (Generate (plat_jwt pf) (app_InviteJWTSecret cfg) (app_SelfServeBaseURL cfg) ?lp) trg (Inr g)"
    using persisted(2) by simp
  from Generate_exec [OF gen wf] obtain t0 uid c' signed where g:
    "jwt_SignedString (plat_jwt pf) ''HS256'' (app_InviteJWTSecret cfg) c' = Inr signed"
    "map_of c' = tokenClaims t0 (gl_InviteUID g) ?lp" "gl_Link g = app_SelfServeBaseURL cfg @ ''/invite?token='' @ signed"
    "gl_ExpiresAt g = addDur t0 (tokenLifetime (lp_ExpirationDays ?lp))"
    "gl_AcceptedClaims g = nonReserved (lp_CustomClaims ?lp)" "wf_map c'" "ENow t0 \<in> set trg" "EUUID (gl_InviteUID g) \<in> set trg"
    by (metis GeneratedLink.select_convs list.set_intros)
  have trg: "noSend trg" using Generate_quiet [OF gen] by (simp add: noEffect_iff)
  have tr2: "noSend tr2" using Create_quiet persisted(4) by auto
  have mail: "ERequest c d q \<in> set tr3"
    using assms(2) persisted(3) trg tr2 by (auto simp: noSend_def list_all_iff)
  then have y: "y = None" and disp: "exec (dispatchInvite (notificationService pf cfg) req email role g) tr3 x"
    using persisted(5) by auto
  obtain data m where stored: "marshalInviteRecord (inviteRecordAt now (gl_InviteUID g) req email (destinationURL (notificationConfig cfg) req)
       role (gl_ExpiresAt g) (nonReserved (req_CustomClaims req))) = Some data" "EPut (gl_InviteUID g) data (Inr m) \<in> set tr"
  proof -
    have "gl_AcceptedClaims g = nonReserved (req_CustomClaims req)" using g(5) by (simp add: linkPayload_def)
    with persisted(4) y persisted(3) that show thesis by (auto simp: Create_None) metis
  qed
  have "\<exists>trm z trd. exec (SendNotification (plat_email pf) (plat_emailSubject pf) (emailPayload req email role (gl_Link g))) trm z
      \<and> ERequest c d q \<in> set trm"
  proof (cases rule: dispatchInvite_exec [OF disp notificationService_simps(1), case_names sent failed])
    case (sent trm entry)
    with mail show ?thesis by auto
  next
    case (failed trm err entry trd de)
    then have "noSend trd" using Delete_quiet by auto
    with failed(1,2) mail show ?thesis by (auto simp: noSend_def list_all_iff)
  qed
  then have env: "eml_marshal (plat_email pf) (emailEnvelopeOf (plat_email pf) (emailPayload req email role (gl_Link g))) = Inr d"
    "c = plat_emailSubject pf"
    by (auto dest!: SendNotification_exec)
  have to: "eml_To (emailEnvelopeOf (plat_email pf) (emailPayload req email role (gl_Link g))) = email"
    and link: "sublist (app_SelfServeBaseURL cfg @ ''/invite?token='' @ signed)
       (eml_Text (emailEnvelopeOf (plat_email pf) (emailPayload req email role (gl_Link g))))"
    using plain_contains_link [of "emailPayload req email role (gl_Link g)"]
    by (simp_all add: emailEnvelopeOf_def Let_def emailPayload_def g(3))
  have expiry: "gl_ExpiresAt g = addDur t0 (tokenLifetime (req_ExpirationDays req))"
    using g(4) by (simp add: linkPayload_def)
  have calls: "ENow t0 \<in> set tr" "EUUID (gl_InviteUID g) \<in> set tr" using g(7,8) persisted(3) by simp_all
  show thesis
    by (rule that [OF env to link g(1,2) stored(1) expiry stored(2) g(6) calls]) (use persisted(1) in simp)
qed (use assms(2) in simp)

lemma noSend_request: "noSend tr \<Longrightarrow> ERequest c d q \<notin> set tr"
  by (auto simp: noSend_def list_all_iff)

lemma sample_sends: "sends samplePlatform sampleConfig sendRequest sentTrace (Inr sentResult)"
  using exec_traceOf [of "HandleSendInvite sampleGolib sampleService sendRequest" mem_env sendMem] sample_sent by auto

section \<open>No email without a record\<close>

text \<open>C8: The request succeeds exactly when the email service was sent a message and accepted it; without a
  message it fails. An execution sends at most one message, to the email service, and only after the
  pending record and its index entry were both acknowledged by the bucket.\<close>

theorem email_after_record:
  assumes "sends pf cfg req tr x"
  shows "((\<exists>res. x = Inr res) \<longleftrightarrow>
        (\<exists>d q. ERequest (plat_emailSubject pf) d q \<in> set tr \<and> acceptedReply (plat_email pf) q))
    \<and> (\<forall>pre e post. tr = pre @ e # post \<longrightarrow> isSend e \<longrightarrow>
        (\<exists>r data m n d q. marshalInviteRecord r = Some data \<and> rec_Status r = InviteStatusPending
         \<and> EPut (rec_UID r) data (Inr m) \<in> set pre
         \<and> EPut (emailIndexKey (lib_lower (plat_golib pf)) (rcp_Email (rec_Recipient r)) (rec_UID r)) (rec_UID r) (Inr n) \<in> set pre
         \<and> e = ERequest (plat_emailSubject pf) d q \<and> noSend pre \<and> noSend post))"
proof (cases rule: send_exec_cases [OF assms(1), case_names quiet stored])
  case quiet
  then show ?thesis using noSend_request by (auto simp: noSend_def)
next
  case (stored A r data m n B)
  show ?thesis
  proof (cases "noSend B")
    case True
    then have "noSend tr" using stored(1,2) by (simp add: noSend_def)
    with True stored(9) noSend_request show ?thesis by (auto simp: noSend_def)
  next
    case False
    with stored(7) obtain d q B' where B: "B = ERequest (plat_emailSubject pf) d q # B'" "noSend B'"
      "(\<exists>res. x = Inr res) \<longleftrightarrow> acceptedReply (plat_email pf) q" by blast
    have "(\<exists>d' q'. ERequest (plat_emailSubject pf) d' q' \<in> set tr \<and> acceptedReply (plat_email pf) q')
        \<longleftrightarrow> acceptedReply (plat_email pf) q"
      using stored(1) B(1) noSend_request [OF stored(2)] noSend_request [OF B(2)] by auto
    moreover have "pre = A \<and> e = ERequest (plat_emailSubject pf) d q \<and> post = B'" if "tr = pre @ e # post" "isSend e" for pre e post
      using noSend_split [of A "ERequest (plat_emailSubject pf) d q" B' pre e post] stored(1,2) B(1,2) that by auto
    ultimately show ?thesis using stored(2-6) B by (intro conjI allI impI) (simp, blast)
  qed
qed

theorem email_after_record_witness:
  "acceptedReply sampleEmail (Inr [])
   \<and> (\<exists>r data m. marshalInviteRecord r = Some data \<and> EPut (rec_UID r) data (Inr m) \<in> set (take 6 sentTrace))"
proof -
  have "sentTrace = take 6 sentTrace @ ERequest ''email'' ''ada@lfx.dev'' (Inr []) # [EAudit sentAudit]"
    by (simp add: sentTrace_def)
  with email_after_record [OF sample_sends] have
    "\<exists>r data m. marshalInviteRecord r = Some data \<and> EPut (rec_UID r) data (Inr m) \<in> set (take 6 sentTrace)"
    by (metis isSend.simps(1))
  then show ?thesis by (simp add: acceptedReply_def)
qed

section \<open>The link of the record\<close>

text \<open>C11: The email goes to the recipient of the stored record and its plain text carries a link whose
  token signs that record's UID and that email address, and expires when the record does.\<close>

theorem email_carries_link:
  assumes "sends pf cfg req tr x" "ERequest c d q \<in> set tr" "wf_map (req_CustomClaims req)"
  shows "\<exists>env r data m claims token. eml_marshal (plat_email pf) env = Inr d \<and> c = plat_emailSubject pf
    \<and> marshalInviteRecord r = Some data \<and> EPut (rec_UID r) data (Inr m) \<in> set tr
    \<and> eml_To env = rcp_Email (rec_Recipient r)
    \<and> sublist (app_SelfServeBaseURL cfg @ ''/invite?token='' @ token) (eml_Text env)
    \<and> jwt_SignedString (plat_jwt pf) ''HS256'' (app_InviteJWTSecret cfg) claims = Inr token
    \<and> map_of claims ''jti'' = Some (ClaimStr (rec_UID r)) \<and> map_of claims ''invite_uid'' = Some (ClaimStr (rec_UID r))
    \<and> map_of claims ''email'' = Some (ClaimStr (rcp_Email (rec_Recipient r)))
    \<and> map_of claims ''exp'' = Some (ClaimInt (unixSeconds (rec_ExpiresAt r)))"
proof -
  from mailed_exec [OF assms] obtain email role created t0 claims token data m env and g :: GeneratedLink where *:
    "eml_marshal (plat_email pf) env = Inr d" "c = plat_emailSubject pf" "eml_To env = email"
    "sublist (app_SelfServeBaseURL cfg @ ''/invite?token='' @ token) (eml_Text env)"
    "jwt_SignedString (plat_jwt pf) ''HS256'' (app_InviteJWTSecret cfg) claims = Inr token"
    "map_of claims = tokenClaims t0 (gl_InviteUID g) (linkPayload req email (destinationURL (notificationConfig cfg) req) role)"
    "marshalInviteRecord (inviteRecordAt created (gl_InviteUID g) req email (destinationURL (notificationConfig cfg) req)
       role (gl_ExpiresAt g) (nonReserved (req_CustomClaims req))) = Some data"
    "gl_ExpiresAt g = addDur t0 (tokenLifetime (req_ExpirationDays req))"
    "EPut (gl_InviteUID g) data (Inr m) \<in> set tr" by metis
  let ?r = "inviteRecordAt created (gl_InviteUID g) req email (destinationURL (notificationConfig cfg) req)
       role (gl_ExpiresAt g) (nonReserved (req_CustomClaims req))"
  have "map_of claims ''jti'' = Some (ClaimStr (rec_UID ?r))" "map_of claims ''invite_uid'' = Some (ClaimStr (rec_UID ?r))"
    "map_of claims ''email'' = Some (ClaimStr (rcp_Email (rec_Recipient ?r)))"
    "map_of claims ''exp'' = Some (ClaimInt (unixSeconds (rec_ExpiresAt ?r)))"
    by (simp_all add: *(6) tokenClaims_service) (simp_all add: linkPayload_def *(8))
  moreover have "eml_To env = rcp_Email (rec_Recipient ?r)" "EPut (rec_UID ?r) data (Inr m) \<in> set tr"
    by (simp_all add: *(3,9))
  ultimately show ?thesis using *(1,2,4,5,7) by blast
qed

theorem email_carries_link_witness:
  "\<exists>env r data m. eml_marshal sampleEmail env = Inr ''ada@lfx.dev'' \<and> marshalInviteRecord r = Some data \<and> EPut (rec_UID r) data (Inr m) \<in> set sentTrace
     \<and> eml_To env = rcp_Email (rec_Recipient r)"
proof -
  have m: "ERequest ''email'' ''ada@lfx.dev'' (Inr []) \<in> set sentTrace" by (simp add: sentTrace_def)
  have w: "wf_map (req_CustomClaims sendRequest)" by (simp add: wf_map_def)
  show ?thesis
    using email_carries_link [OF sample_sends m w] unfolding samplePlatform_simps by blast
qed

section \<open>A sent invite is found\<close>

text \<open>C12: After a send that succeeded the bucket holds the pending record under the returned UID, with the
  request's data; a query by UID does not miss it, and a query by any spelling of the recipient's
  address that normalizes to the same key lists it. Other records are as before.\<close>

theorem sent_invite_found:
  assumes "kv_contract env kv"
    and run: "run env (HandleSendInvite (plat_golib pf) (notificationService pf cfg) req) s = (Inr result, s1)"
    and "requestOK req" "validUTF8 (sir_InviteUID result)" "validUTF8 (sir_RecipientEmail result)"
      "validUTF8 (app_DefaultReturnURL cfg)" "isUid (sir_InviteUID result)" "sir_InviteUID result \<noteq> []"
    and get: "run env (GetInvite (NATSInviteRepository (lib_lower (plat_golib pf))) (sir_InviteUID result)) s1 = (found, s2)"
    and list: "run env (GetInvitesByEmail (plat_golib pf) (NATSInviteRepository (lib_lower (plat_golib pf))) email) s1
       = (Inr invites, s3)"
    and same: "normalizeEmail (lib_lower (plat_golib pf)) (lookupAddress (plat_golib pf) email)
       = normalizeEmail (lib_lower (plat_golib pf)) (sir_RecipientEmail result)"
  shows "\<exists>created. recordsOf kv s1 (sir_InviteUID result) = Some (sentRecord cfg req result created)
    \<and> (\<forall>k. k \<noteq> sir_InviteUID result \<longrightarrow> isUid k \<longrightarrow> recordsOf kv s1 k = recordsOf kv s k)
    \<and> (found = Inr (domainToAPIInvite (sentRecord cfg req result created))
       \<or> (\<exists>e. found = Inl e \<and> \<not> errors_Is e ErrInviteNotFound))
    \<and> domainToAPIInvite (sentRecord cfg req result created) \<in> set invites"
proof -
  from kv_contract.send_success_run [OF assms(1-7)] obtain created where c:
    "recordsOf kv s1 (sir_InviteUID result) = Some (sentRecord cfg req result created)"
    "indexedOf (lib_lower (plat_golib pf)) kv s1 (sir_RecipientEmail result) (sir_InviteUID result)"
    "\<And>k. k \<noteq> sir_InviteUID result \<Longrightarrow> isUid k \<Longrightarrow> recordsOf kv s1 k = recordsOf kv s k" by metis
  have "indexedOf (lib_lower (plat_golib pf)) kv s1 (lookupAddress (plat_golib pf) email) (sir_InviteUID result)"
    using c(2) by (simp only: indexedOf_normalized [OF same])
  with c(1) have "domainToAPIInvite (sentRecord cfg req result created) \<in> set invites"
    using kv_contract.GetInvitesByEmail_run(2) [OF assms(1) list] by blast
  with c kv_contract.GetInvite_run [OF assms(1) get c(1) assms(8)] show ?thesis by blast
qed

lemma lookup_ada: "lookupAddress sampleGolib ''ada@lfx.dev'' = ''ada@lfx.dev''"
  by (simp add: lookupAddress_def sampleGolib_def)

lemma sent_indexed:
  assumes k: "mem_kv s = (\<lambda>k. (0, None))(''1'' := (1, Some (recordData sentSample)), sampleIndexKey := (2, Some ''1''))"
    and i: "indexedOf (\<lambda>r. r) mem_kv s (lookupAddress sampleGolib ''ada@lfx.dev'') uid"
  shows "uid = ''1''"
proof -
  have "isUid ''1''" by (simp add: isUid_def hasPrefix_def emailIndexPrefix_def)
  then have "emailIndexKey (\<lambda>r. r) ''ada@lfx.dev'' uid \<noteq> ''1''"
    using isUid_neq_indexKey by metis
  with i show ?thesis unfolding lookup_ada by (auto simp: indexedOf_def k emailIndexKey_def split: if_splits)
qed

lemma sent_readable:
  assumes k: "mem_kv s = (\<lambda>k. (0, None))(''1'' := (1, Some (recordData sentSample)), sampleIndexKey := (2, Some ''1''))"
    and i: "indexedOf (\<lambda>r. r) mem_kv s (lookupAddress sampleGolib ''ada@lfx.dev'') uid"
  shows "readable (mem_kv s) uid"
  using sent_indexed [OF assms] by (simp add: readable_def k unmarshal_recordData valid_sentSample)

theorem sent_invite_found_witness:
  "\<exists>s1 created invites. recordsOf mem_kv s1 ''1'' = Some (sentRecord sampleConfig sendRequest sentResult created)
     \<and> domainToAPIInvite (sentRecord sampleConfig sendRequest sentResult created) \<in> set invites"
proof -
  obtain s1 where r: "run mem_env (HandleSendInvite sampleGolib sampleService sendRequest) sendMem = (Inr sentResult, s1)"
    and k: "mem_kv s1 = (\<lambda>k. (0, None))(''1'' := (1, Some (recordData sentSample)), sampleIndexKey := (2, Some ''1''))"
    using sample_sent by blast
  have uid: "isUid ''1''" by (simp add: isUid_def hasPrefix_def emailIndexPrefix_def)
  from kv_reliable.GetInvitesByEmail_reliable [OF mem_reliable sent_readable [OF k]] obtain invites s3 where
    l: "run mem_env (GetInvitesByEmail sampleGolib (NATSInviteRepository (\<lambda>r. r)) ''ada@lfx.dev'') s1 = (Inr invites, s3)"
    by blast
  obtain found s2 where g: "run mem_env (GetInvite (NATSInviteRepository (\<lambda>r. r)) ''1'') s1 = (found, s2)"
    by (cases "run mem_env (GetInvite (NATSInviteRepository (\<lambda>r. r)) ''1'') s1")
  have "validUTF8 ''1''" "validUTF8 ''https://app.dev.lfx.dev''" by (simp_all add: validUTF8_ascii is_ascii_Char)
  with sent_invite_found [OF mem_contract, of samplePlatform sampleConfig sendRequest sendMem sentResult s1 found s2
      "''ada@lfx.dev''" invites s3] r g l sendRequest_OK uid
  show ?thesis by (fastforce simp: sentResult_def lookup_ada)
qed

section \<open>A failed send\<close>

text \<open>C13: On a reliable bucket a request whose email could not be dispatched leaves the bucket as it was:
  the record and its index entry, which had been written under a fresh UID, are gone again and no
  other key changed.\<close>

theorem send_rolled_back:
  assumes "kv_reliable env kv"
    "run env (HandleSendInvite (plat_golib pf) (notificationService pf cfg) req) s = (Inl err, s')"
    "errors_Is err ErrEmailDispatchFailed" "requestOK req" "validUTF8 (app_DefaultReturnURL cfg)"
    "\<forall>a e. lib_ParseAddress (plat_golib pf) a = Inr e \<longrightarrow> validUTF8 e"
  shows "\<exists>uid email. uuidText uid \<and> recordsOf kv s' uid = None
    \<and> \<not> indexedOf (lib_lower (plat_golib pf)) kv s' email uid
    \<and> (\<forall>k. k \<noteq> uid \<longrightarrow> k \<noteq> emailIndexKey (lib_lower (plat_golib pf)) email uid \<longrightarrow> kv s' k = kv s k)"
proof -
  have lib: "validUTF8 e" if "lib_ParseAddress (plat_golib pf) a = Inr e" for a e using assms(6) that by blast
  show ?thesis
  proof (rule kv_reliable.send_failed_run [OF assms(1-5) lib])
    fix uid email
    assume "uuidText uid" "snd (kv s' uid) = None" "snd (kv s' (emailIndexKey (lib_lower (plat_golib pf)) email uid)) = None"
      "\<And>k. k \<noteq> uid \<Longrightarrow> k \<noteq> emailIndexKey (lib_lower (plat_golib pf)) email uid \<Longrightarrow> kv s' k = kv s k"
    then show ?thesis unfolding recordsOf_def indexedOf_def by (intro exI [of _ uid] exI [of _ email]) simp
  qed
qed

lemma mailError_code: "errors_Is (dispatchError req mailError) ErrEmailDispatchFailed"
  by (simp add: dispatchError_def)

theorem send_rolled_back_witness:
  "\<exists>s' uid. run mem_env (HandleSendInvite sampleGolib sampleService sendRequest) downMem
     = (Inl (dispatchError sendRequest mailError), s') \<and> uuidText uid \<and> recordsOf mem_kv s' uid = None"
proof -
  obtain s' where r: "run mem_env (HandleSendInvite (plat_golib samplePlatform) sampleService sendRequest) downMem
     = (Inl (dispatchError sendRequest mailError), s')" using sample_failed by auto
  have d: "validUTF8 (app_DefaultReturnURL sampleConfig)" by (simp add: validUTF8_ascii is_ascii_Char)
  have l: "\<forall>a e. lib_ParseAddress (plat_golib samplePlatform) a = Inr e \<longrightarrow> validUTF8 e"
    by (auto simp: sampleGolib_def split: if_splits)
  from send_rolled_back [OF mem_reliable r mailError_code sendRequest_OK d l] obtain uid where
    "uuidText uid" "recordsOf mem_kv s' uid = None" by blast
  with r show ?thesis by auto
qed

text \<open>C22: The error code of a reply tells what happened: \<open>invalid_request\<close> means that nothing was written
  or sent, \<open>internal_error\<close> that no email was sent, and \<open>email_dispatch_failed\<close> that the record was
  stored and that no request to the email service was accepted.\<close>

theorem send_error_codes:
  assumes "sends pf cfg req tr (Inl err)"
  shows "(sendInviteErrorCode err = ''invalid_request'' \<longrightarrow> noEffect tr)
    \<and> (sendInviteErrorCode err = ''internal_error'' \<longrightarrow> noSend tr)
    \<and> (sendInviteErrorCode err = ''email_dispatch_failed'' \<longrightarrow>
        (\<exists>r data m. marshalInviteRecord r = Some data \<and> EPut (rec_UID r) data (Inr m) \<in> set tr)
        \<and> (\<forall>c d q. ERequest c d q \<in> set tr \<longrightarrow> \<not> acceptedReply (plat_email pf) q))
    \<and> sendInviteErrorCode err \<in> {''invalid_request'', ''internal_error'', ''email_dispatch_failed''}"
proof (cases rule: send_exec_cases [OF assms, case_names quiet stored])
  case quiet
  then show ?thesis by (simp add: sendInviteErrorCode_def noEffect_iff)
next
  case (stored A r data m n B)
  have "ERequest c d q \<in> set tr \<Longrightarrow> \<not> acceptedReply (plat_email pf) q" for c d q
    using stored(1,2,7) noSend_request by auto
  moreover have "EPut (rec_UID r) data (Inr m) \<in> set tr" using stored(1,5) by simp
  ultimately show ?thesis
    using stored(3,8) by (auto simp: sendInviteErrorCode_def)
qed

theorem send_error_codes_witness:
  "\<exists>tr r data m. marshalInviteRecord r = Some data \<and> EPut (rec_UID r) data (Inr m) \<in> set tr
    \<and> sends samplePlatform sampleConfig sendRequest tr (Inl (dispatchError sendRequest mailError))"
proof -
  let ?p = "HandleSendInvite sampleGolib sampleService sendRequest"
  have e: "sends samplePlatform sampleConfig sendRequest (traceOf mem_env ?p downMem) (Inl (dispatchError sendRequest mailError))"
    using exec_traceOf [of ?p mem_env downMem] sample_failed by auto
  have "sendInviteErrorCode (dispatchError sendRequest mailError) = ''email_dispatch_failed''"
    by (simp add: sendInviteErrorCode_def dispatchError_def mailError_def newServiceUnavailable_def)
  with send_error_codes [OF e] e show ?thesis by auto
qed

end
