(* ===== verification/Acceptance_Live.thy ===== *)
theory Acceptance_Live
  imports Acceptance_Total Send_Properties
begin

text \<open>
  The happy path from end to end: on a reliable bucket, with a JWT library that keeps its contract,
  the link of the email accepts the invite as long as it has not expired.
\<close>

lemma Verify_answers:
  assumes "exec (Verify jwt secret token) [ENow t] x" "env_now env s = (t, s1)"
  shows "run env (Verify jwt secret token) s = (x, s1)"
  using assms unfolding Verify_def by (auto simp: prog_simps Let_def split: sum.splits)

context kv_reliable
begin

lemma publish_frame_service:
  "run env (publishAccepted (acceptanceService u jwt secret) uid) s = (x, s') \<Longrightarrow> recordsOf kv s' = recordsOf kv s"
  by (rule acc.publishAccepted_frame [unfolded acceptanceOn_service])

lemma accept_live:
  assumes rec: "recordsOf kv s (evt_InviteUID evt) = Some r" "rec_UID r = evt_InviteUID evt" "rec_Status r \<noteq> InviteStatusAccepted"
    and ids: "evt_InviteUID evt \<noteq> []" "evt_Username evt \<noteq> []" "evt_Token evt \<noteq> []"
    and user: "rcp_Username (rec_Recipient r) = [] \<or> rcp_Username (rec_Recipient r) = evt_Username evt"
    and token: "\<And>t. P t \<Longrightarrow> exec (Verify jwt secret (evt_Token evt)) [ENow t]
          (Inr \<lparr>tc_InviteUID = rec_UID r, tc_Email = rcp_Email (rec_Recipient r)\<rparr>)"
    and clock: "\<And>t. clockReads env (HandleInviteAccepted (acceptanceService u jwt secret) evt) s t \<Longrightarrow>
          P t \<and> before t (rec_ExpiresAt r) \<and> validRecord (acceptRecord r (evt_Username evt) t)"
    and run: "run env (HandleInviteAccepted (acceptanceService u jwt secret) evt) s = (x, s')"
  shows "\<exists>t. P t \<and> recordsOf kv s' = (recordsOf kv s)(evt_InviteUID evt := Some (acceptRecord r (evt_Username evt) t))"
proof -
  let ?uid = "evt_InviteUID evt"
  obtain v n where v: "kv s ?uid = (n, Some v)" "unmarshalInviteRecord v = Some r"
    using rec(1) by (cases "kv s ?uid") (auto simp: recordsOf_def split: option.splits)
  obtain g s1 where g: "run env (GetByUID ?uid) s = (g, s1)" by (cases "run env (GetByUID ?uid) s")
  have k1: "kv s1 = kv s" using GetByUID_run(1) [OF g] .
  have gr: "g = Inr r" using GetByUID_reliable [OF g] rec(1) v by (simp add: readable_def)
  obtain now s2 where now: "env_now env s1 = (now, s2)" by (cases "env_now env s1")
  obtain t s3 where t: "env_now env s2 = (t, s3)" by (cases "env_now env s2")
  have k3: "kv s3 = kv s" using k1 now_kv [OF now] now_kv [OF t] by simp
  have step: "clockReads env (bind (verifyAcceptance (acceptanceService u jwt secret) evt r now) h) s2 t'
      \<Longrightarrow> P t' \<and> before t' (rec_ExpiresAt r) \<and> validRecord (acceptRecord r (evt_Username evt) t')"
    if "h = (\<lambda>r. case r of Some err \<Rightarrow> Return ()
      | None \<Rightarrow> bind (MarkAccepted ?uid (evt_Username evt) now) (\<lambda>r. case r of Some err \<Rightarrow> Return ()
          | None \<Rightarrow> publishAccepted (acceptanceService u jwt secret) ?uid))" for h t'
    using that clock [of t'] g gr rec(3) ids now
    by (simp add: HandleInviteAccepted_def clockReads_def traceOf_bind)
  have now_ok: "P now \<and> before now (rec_ExpiresAt r) \<and> validRecord (acceptRecord r (evt_Username evt) now)"
    using clock [of now] g gr rec(3) ids now by (simp add: HandleInviteAccepted_def clockReads_def traceOf_bind)
  have "clockReads env (verifyAcceptance (acceptanceService u jwt secret) evt r now) s2 t"
    using t ids(3) now_ok by (simp add: verifyAcceptance_def Verify_def clockReads_def traceOf_bind)
  from step [OF refl clockReads_bind(1) [OF this]] have t_ok: "P t" by blast
  have verify: "run env (verifyAcceptance (acceptanceService u jwt secret) evt r now) s2 = (None, s3)"
    using Verify_answers [OF token t] t_ok now_ok ids(3) user by (auto simp: verifyAcceptance_def prog_simps)
  obtain m s4 where m: "run env (MarkAccepted ?uid (evt_Username evt) now) s3 = (m, s4)"
    by (cases "run env (MarkAccepted ?uid (evt_Username evt) now) s3")
  have "storable (kv s3) ?uid (evt_Username evt) now"
    using now_ok v k3 by (simp add: storable_def)
  from MarkAccepted_reliable [OF m this] obtain now' where mo':
    "(markOutcome (recordsOf kv s3 ?uid) now now = None \<longrightarrow> clockReads env (MarkAccepted ?uid (evt_Username evt) now) s3 now')
     \<and> outcomeAt ?uid (evt_Username evt) now s3 m s4 now'" by (rule exE)
  note mo = mo' [THEN conjunct1] mo' [THEN conjunct2, THEN conjunct1] mo' [THEN conjunct2, THEN conjunct2]
  have read: "clockReads env (MarkAccepted ?uid (evt_Username evt) now) s3 now'"
    using mo(1) rec now_ok recordsOf_cong [OF k3] by simp
  note marked = step [OF refl, OF clockReads_bind(2) [OF verify], unfolded option.case]
  have expiry: "before now' (rec_ExpiresAt r)" using marked [OF clockReads_bind(1) [OF read]] by simp
  have "m = None"
    using mo(2) rec recordsOf_cong [OF k3] now_ok expiry by simp
  with run g gr now rec(3) ids verify m have "run env (publishAccepted (acceptanceService u jwt secret) ?uid) s4 = (x, s')"
    by (simp add: HandleInviteAccepted_def prog_simps)
  from publish_frame_service [OF this] mo(3) \<open>m = None\<close> rec(1) recordsOf_cong [OF k3] now_ok
  show ?thesis by (intro exI [of _ now]) simp
qed

end

section \<open>The link of a decoded request\<close>

lemma linkPayload_OK:
  assumes "requestOK req" "validUTF8 email" "validUTF8 (app_DefaultReturnURL cfg)" "validUTF8 role"
  shows "payloadOK (linkPayload req email (destinationURL (notificationConfig cfg) req) role)"
proof -
  have "validUTF8 (destinationURL (notificationConfig cfg) req)"
    using assms by (auto simp: destinationURL_def notificationConfig_def requestOK_def validStrings_def)
  then show ?thesis
    using assms resolved_valid [OF assms(1)] by (simp add: payloadOK_def linkPayload_def requestOK_def)
qed

lemma accept_valid:
  assumes "decodedRecord r" "marshalInviteRecord r = Some data" "validUTF8 username" "validTime t"
  shows "validRecord (acceptRecord r username t)"
proof -
  have "decodedRecord (acceptRecord r username t)" using assms(1,3) by (rule decoded_accept)
  then show ?thesis
    using marshal_times [OF assms(2)] assms(4) by (simp add: decodedRecord_def validRecord_def) (simp add: acceptRecord_def)
qed

lemma div_range:
  fixes k :: int
  assumes "0 \<le> x" "x < c * k" "0 < k"
  shows "0 \<le> x div k \<and> x div k < c"
proof -
  have "x div k * k \<le> x" using pos_mod_sign [OF assms(3), of x] div_mult_mod_eq [of x k] by linarith
  with assms(2,3) have "\<not> c \<le> x div k" using mult_right_mono [of c "x div k" k] by linarith
  with assms(1,3) show ?thesis by (simp add: pos_imp_zdiv_nonneg_iff)
qed

lemma expiry_int64:
  assumes "0 \<le> t" "unixSeconds t < 2 ^ 62"
  shows "int64 (unixSeconds t)" "int64 (unixSeconds (addDur t (tokenLifetime d)))"
proof -
  show "int64 (unixSeconds t)" using assms by (simp add: int64_def unixSeconds_def nsPerSecond_def)
  have "tokenLifetime d \<le> 90 * 24 * nsPerHour" "0 < tokenLifetime d" using tokenLifetime_bounds by simp_all
  moreover have "unixSeconds t < 2 ^ 62 \<Longrightarrow> t < 2 ^ 62 * nsPerSecond"
    by (simp add: unixSeconds_def nsPerSecond_def)
  ultimately have "addDur t (tokenLifetime d) < (2 ^ 62 + 90 * 24 * 3600) * nsPerSecond" "0 \<le> addDur t (tokenLifetime d)"
    using assms by (simp_all add: addDur_def nsPerHour_def nsPerSecond_def)
  then show "int64 (unixSeconds (addDur t (tokenLifetime d)))"
    using div_range [of "addDur t (tokenLifetime d)"] by (fastforce simp: int64_def unixSeconds_def nsPerSecond_def)
qed

definition acceptingEvent :: "string \<Rightarrow> string \<Rightarrow> string \<Rightarrow> InviteAcceptedEvent" where
  "acceptingEvent uid username token = \<lparr>evt_InviteUID = uid, evt_Username = username, evt_Token = token\<rparr>"

abbreviation acceptWith :: "platform \<Rightarrow> AppConfig \<Rightarrow> string \<Rightarrow> string \<Rightarrow> string \<Rightarrow> unit prog" where
  "acceptWith pf cfg uid username token \<equiv>
     HandleInviteAccepted (acceptanceService (lib_lower (plat_golib pf)) (plat_jwt pf) (app_InviteJWTSecret cfg))
       (acceptingEvent uid username token)"

lemma acceptingEvent_simps [simp]:
  "evt_InviteUID (acceptingEvent uid username token) = uid" "evt_Username (acceptingEvent uid username token) = username"
  "evt_Token (acceptingEvent uid username token) = token"
  by (simp_all add: acceptingEvent_def)

text \<open>The clock of the in-memory environment stands still.\<close>

lemma mem_clock_reads: "ENow t \<in> set (traceOf mem_env p s) \<Longrightarrow> t = mem_clock s"
proof (induction p arbitrary: s)
  case (KvUpdate k v r f)
  then show ?case by (fastforce simp: mem_env_def mem_write_def split: if_splits)
qed (fastforce simp: mem_env_def mem_write_def split: prod.splits)+

text \<open>A token works for a record: accepting with it, on a state that still holds the record, at times from
  the issue until the record expires, leaves the invite accepted by the user.\<close>

definition linkWorks :: "'s env \<Rightarrow> ('s \<Rightarrow> bucket) \<Rightarrow> platform \<Rightarrow> AppConfig \<Rightarrow> InviteRecord \<Rightarrow> string \<Rightarrow> time \<Rightarrow> bool" where
  "linkWorks env kv pf cfg r token issued \<longleftrightarrow>
     (\<forall>username s y s'. recordsOf kv s (rec_UID r) = Some r \<longrightarrow> username \<noteq> [] \<longrightarrow> validUTF8 username \<longrightarrow>
        rcp_Username (rec_Recipient r) \<in> {[], username} \<longrightarrow>
        (\<forall>t. clockReads env (acceptWith pf cfg (rec_UID r) username token) s t \<longrightarrow>
           issued \<le> t \<and> before t (rec_ExpiresAt r) \<and> validTime t) \<longrightarrow>
        run env (acceptWith pf cfg (rec_UID r) username token) s = (y, s') \<longrightarrow>
        (\<exists>t. recordsOf kv s' = (recordsOf kv s)(rec_UID r := Some (acceptRecord r username t))))"

lemma linkWorksD:
  assumes "linkWorks env kv pf cfg r token issued" "recordsOf kv s (rec_UID r) = Some r" "username \<noteq> []" "validUTF8 username"
    "rcp_Username (rec_Recipient r) \<in> {[], username}"
    "\<And>t. clockReads env (acceptWith pf cfg (rec_UID r) username token) s t \<Longrightarrow>
       issued \<le> t \<and> before t (rec_ExpiresAt r) \<and> validTime t"
    "run env (acceptWith pf cfg (rec_UID r) username token) s = (y, s')"
  shows "\<exists>t. recordsOf kv s' = (recordsOf kv s)(rec_UID r := Some (acceptRecord r username t))"
  using assms unfolding linkWorks_def by blast

text \<open>C4: The link that is mailed works. On a reliable bucket, with a JWT library that keeps its contract:
  for every email a send has dispatched there are a record, a token and a time of issue such that
  the record was stored, the text of the email carries the link with the token, and handling an
  acceptance event with that token, at any time from the issue until the record expires and as
  long as the bucket still holds the pending record, leaves the invite accepted by that user.\<close>

theorem mailed_link_accepts:
  assumes bucket: "kv_reliable env kv" and jwt: "jwt_contract (plat_jwt pf)"
    and sent: "sends pf cfg req tr x" "ERequest c d q \<in> set tr"
    and req: "requestOK req" "validUTF8 (app_DefaultReturnURL cfg)"
    and lib: "\<forall>a e. lib_ParseAddress (plat_golib pf) a = Inr e \<longrightarrow> e \<noteq> [] \<and> validUTF8 e"
    and answers: "\<forall>u. EUUID u \<in> set tr \<longrightarrow> uuidText u" "\<forall>t. ENow t \<in> set tr \<longrightarrow> 0 \<le> t \<and> unixSeconds t < 2 ^ 62"
  shows "\<exists>mail r data m token issued. eml_marshal (plat_email pf) mail = Inr d
    \<and> sublist (app_SelfServeBaseURL cfg @ ''/invite?token='' @ token) (eml_Text mail)
    \<and> unmarshalInviteRecord data = Some r \<and> EPut (rec_UID r) data (Inr m) \<in> set tr
    \<and> EUUID (rec_UID r) \<in> set tr \<and> ENow issued \<in> set tr
    \<and> linkWorks env kv pf cfg r token issued"
proof -
  have wf: "wf_map (req_CustomClaims req)" using req(1) by (simp add: requestOK_def validClaims_def)
  from mailed_exec [OF sent wf] obtain email role created t0 claims token data m mail and g :: GeneratedLink where *:
    "eml_marshal (plat_email pf) mail = Inr d" "eml_To mail = email"
    "sublist (app_SelfServeBaseURL cfg @ ''/invite?token='' @ token) (eml_Text mail)"
    "jwt_SignedString (plat_jwt pf) ''HS256'' (app_InviteJWTSecret cfg) claims = Inr token"
    "map_of claims = tokenClaims t0 (gl_InviteUID g) (linkPayload req email (destinationURL (notificationConfig cfg) req) role)"
    "marshalInviteRecord (inviteRecordAt created (gl_InviteUID g) req email (destinationURL (notificationConfig cfg) req)
       role (gl_ExpiresAt g) (nonReserved (req_CustomClaims req))) = Some data"
    "gl_ExpiresAt g = addDur t0 (tokenLifetime (req_ExpirationDays req))"
    "EPut (gl_InviteUID g) data (Inr m) \<in> set tr" "wf_map claims" "ENow t0 \<in> set tr" "EUUID (gl_InviteUID g) \<in> set tr"
    "validateSend (plat_golib pf) (notificationConfig cfg) req = Inr (email, role)" by metis
  let ?r = "inviteRecordAt created (gl_InviteUID g) req email (destinationURL (notificationConfig cfg) req)
       role (gl_ExpiresAt g) (nonReserved (req_CustomClaims req))"
  let ?lp = "linkPayload req email (destinationURL (notificationConfig cfg) req) role"
  have lp: "lp_RecipientEmail ?lp = email" "lp_ExpirationDays ?lp = req_ExpirationDays req" by (simp_all add: linkPayload_def)
  have email: "email \<noteq> []" "validUTF8 email" and role: "role = trimSpace (req_Role req)"
    using *(12) lib by (auto simp: validateSend_ok)
  have "validUTF8 role" using role req(1) trimSpace_valid by (auto simp: requestOK_def validStrings_def)
  note valid = req(1) email(2) req(2) this
  have uid: "uuidText (gl_InviteUID g)" using answers(1) *(11) by blast
  note uid2 = uuidText_valid [OF uid]
  have uid3: "gl_InviteUID g \<noteq> []" using uid by (simp add: uuidText_def)
  have decoded: "decodedRecord ?r" by (rule decodedRecord_request [OF req(1) uid2 email(2) req(2) \<open>validUTF8 role\<close>])
  have time: "0 \<le> t0" "unixSeconds t0 < 2 ^ 62" using answers(2) *(10) by blast+
  have "token \<noteq> []" using jwt_contract.signed_nonempty [OF jwt *(4)] .
  have verify: "exec (Verify (plat_jwt pf) (app_InviteJWTSecret cfg) token) [ENow t]
      (Inr \<lparr>tc_InviteUID = gl_InviteUID g, tc_Email = email\<rparr>)" if "t0 \<le> t \<and> before t (rec_ExpiresAt ?r)" for t
  proof -
    have "t \<le> addDur t0 (tokenLifetime (lp_ExpirationDays ?lp))" using that *(7) lp by (simp add: before_def)
    from jwt_contract.verify_signed [OF jwt *(4,9,5) linkPayload_OK [OF valid] _ uid3 uid2 _ this] that email lp
      expiry_int64 [OF time] show ?thesis by simp
  qed
  have final: "\<exists>t. recordsOf kv s' = (recordsOf kv s)(rec_UID ?r := Some (acceptRecord ?r username t))"
    if "recordsOf kv s (rec_UID ?r) = Some ?r" "username \<noteq> []" "validUTF8 username"
      "rcp_Username (rec_Recipient ?r) \<in> {[], username}"
      "\<forall>t. clockReads env (acceptWith pf cfg (rec_UID ?r) username token) s t \<longrightarrow> t0 \<le> t \<and> before t (rec_ExpiresAt ?r) \<and> validTime t"
      "run env (acceptWith pf cfg (rec_UID ?r) username token) s = (y, s')" for username s y s'
  proof -
    note reads = that(5)
    have clock: "(t0 \<le> t \<and> before t (rec_ExpiresAt ?r)) \<and> before t (rec_ExpiresAt ?r)
        \<and> validRecord (acceptRecord ?r (evt_Username (acceptingEvent (rec_UID ?r) username token)) t)"
      if "clockReads env (acceptWith pf cfg (rec_UID ?r) username token) s t" for t
      using that reads accept_valid [OF decoded *(6) \<open>validUTF8 username\<close>] by auto
    have "\<exists>t. (t0 \<le> t \<and> before t (rec_ExpiresAt ?r)) \<and> recordsOf kv s' = (recordsOf kv s)
       (evt_InviteUID (acceptingEvent (rec_UID ?r) username token) :=
         Some (acceptRecord ?r (evt_Username (acceptingEvent (rec_UID ?r) username token)) t))"
      by (rule kv_reliable.accept_live [OF bucket _ _ _ _ _ _ _ _ clock that(6)])
         (use that(1,2,4) uid3 \<open>token \<noteq> []\<close> verify in \<open>auto simp: InviteStatusPending_def InviteStatusAccepted_def\<close>)
    then show ?thesis by auto
  qed
  have put: "EPut (rec_UID ?r) data (Inr m) \<in> set tr" "EUUID (rec_UID ?r) \<in> set tr" using *(8,11) by simp_all
  show ?thesis
    unfolding linkWorks_def
    by (rule exI [of _ mail], rule exI [of _ ?r], rule exI [of _ data], rule exI [of _ m], rule exI [of _ token],
        rule exI [of _ t0], intro conjI allI impI *(1,3,10) reread [OF decoded *(6)] put) (rule final)
qed

theorem mailed_link_accepts_witness:
  "\<exists>mail token s s' t. eml_marshal (plat_email refPlatform) mail = Inr ''ada@lfx.dev''
    \<and> sublist (app_SelfServeBaseURL sampleConfig @ ''/invite?token='' @ token) (eml_Text mail)
    \<and> recordsOf mem_kv s ''1'' = Some sentSample
    \<and> run mem_env (acceptWith refPlatform sampleConfig ''1'' ''ada'' token) s = ((), s')
    \<and> recordsOf mem_kv s' = (recordsOf mem_kv s)(''1'' := Some (acceptRecord sentSample ''ada'' t))"
proof -
  have sent: "sends refPlatform sampleConfig sendRequest sentTrace (Inr sentResult)"
    using exec_traceOf [of "sampleSend refPlatform" mem_env sendMem] send_runs [OF samplePf_samples(2) signs_samples(2)]
    by (auto simp: refPlatform_def)
  have mailed: "ERequest ''email'' ''ada@lfx.dev'' (Inr []) \<in> set sentTrace" by (simp add: sentTrace_def)
  have jwt: "jwt_contract (plat_jwt refPlatform)" using refjwt.jwt_contract_axioms by (simp add: refPlatform_def)
  have dflt: "validUTF8 (app_DefaultReturnURL sampleConfig)" by (simp add: validUTF8_ascii is_ascii_Char)
  have lib: "\<forall>a e. lib_ParseAddress (plat_golib refPlatform) a = Inr e \<longrightarrow> e \<noteq> [] \<and> validUTF8 e"
    by (auto simp: refPlatform_def sampleGolib_def split: if_splits)
  have u: "\<forall>u. EUUID u \<in> set sentTrace \<longrightarrow> uuidText u"
    by (simp add: sentTrace_def uuidText_def is_digit_def byte_def)
  have c: "\<forall>t. ENow t \<in> set sentTrace \<longrightarrow> 0 \<le> t \<and> unixSeconds t < 2 ^ 62"
    by (simp add: sentTrace_def unixSeconds_def nsPerSecond_def)
  obtain mail r data m token issued where w: "eml_marshal (plat_email refPlatform) mail = Inr ''ada@lfx.dev''"
    "sublist (app_SelfServeBaseURL sampleConfig @ ''/invite?token='' @ token) (eml_Text mail)"
    "unmarshalInviteRecord data = Some r" "EPut (rec_UID r) data (Inr m) \<in> set sentTrace"
    "EUUID (rec_UID r) \<in> set sentTrace" "ENow issued \<in> set sentTrace"
    "linkWorks mem_env mem_kv refPlatform sampleConfig r token issued"
    using mailed_link_accepts [OF mem_reliable jwt sent mailed sendRequest_OK dflt lib u c] by (elim exE conjE) (rule that)
  have uid: "rec_UID r = ''1''" and issued: "issued = 5 * nsPerSecond" using w(5,6) by (auto simp: sentTrace_def)
  with w(4) have "data = recordData sentSample" by (auto simp: sentTrace_def)
  with w(3) unmarshal_recordData [OF valid_sentSample] have r: "r = sentSample" by simp
  let ?s = "mem_write ''1'' (Some (recordData sentSample)) sendMem"
  have rec: "recordsOf mem_kv ?s ''1'' = Some sentSample"
    by (simp add: recordsOf_def unmarshal_recordData [OF valid_sentSample])
  obtain s' where s': "run mem_env (acceptWith refPlatform sampleConfig ''1'' ''ada'' token) ?s = ((), s')"
    by (metis old.unit.exhaust surj_pair)
  have "mem_clock ?s = 5 * nsPerSecond" by (simp add: mem_write_def)
  then have "issued \<le> t \<and> before t (rec_ExpiresAt sentSample) \<and> validTime t"
    if "clockReads mem_env (acceptWith refPlatform sampleConfig ''1'' ''ada'' token) ?s t" for t
    using that issued mem_clock_reads validTime_samples by (fastforce simp: clockReads_def before_def nsPerSecond_def)
  note works = linkWorksD [OF w(7), unfolded r sample_simps(4), OF rec _ _ _ this s']
  have "\<exists>t. recordsOf mem_kv s' = (recordsOf mem_kv ?s)(''1'' := Some (acceptRecord sentSample ''ada'' t))"
    by (rule works) simp_all
  with rec s' w(1,2) show ?thesis by blast
qed

end
