(* ===== verification/Concurrency.thy ===== *)
theory Concurrency
  imports Handler_Laws
begin

text \<open>
  Several handlers at once, on several replicas: a pool of programs whose calls interleave on one
  bucket. Each call is atomic, as JetStream's are; between two calls of a handler any other
  handler may run. A write takes a revision above the last one of its key.
\<close>

section \<open>Interleavings\<close>

text \<open>One call of a program and its answer.\<close>

inductive pstep :: "'a prog \<Rightarrow> event \<Rightarrow> 'a prog \<Rightarrow> bool" where
  "pstep (Now f) (ENow x) (f x)"
| "pstep (NewUUID f) (EUUID x) (f x)"
| "pstep (CtxErr f) (ECtxErr x) (f x)"
| "mset x = mset m \<Longrightarrow> pstep (RangeMap m f) (ERange m x) (f x)"
| "pstep (KvGet k f) (EGet k x) (f x)"
| "pstep (KvPut k v f) (EPut k v x) (f x)"
| "pstep (KvUpdate k v r f) (EUpdate k v r x) (f x)"
| "pstep (KvDelete k f) (EDelete k x) (f x)"
| "pstep (KvListKeys f) (EListKeys x) (f x)"
| "pstep (NatsRequest c d f) (ERequest c d x) (f x)"
| "pstep (NatsPublish c d f) (EPublish c d x) (f x)"
| "pstep (MsgReply d f) (EReply d x) (f x)"
| "pstep (Audit e p) (EAudit e) p"

definition freshStep :: "event \<Rightarrow> bucket \<Rightarrow> bucket \<Rightarrow> bool" where
  "freshStep e K K' \<longleftrightarrow> kvStep e K K' \<and> (\<forall>k. K' k = K k \<or> fst (K k) < fst (K' k))"

text \<open>
  \<open>pool K ps tr K' ps'\<close>: the programs ps make the calls of tr, each with the index of its
  program, on the bucket K, and leave K' and the continuations ps'.
\<close>

inductive pool :: "bucket \<Rightarrow> 'a prog list \<Rightarrow> (nat \<times> event) list \<Rightarrow> bucket \<Rightarrow> 'a prog list \<Rightarrow> bool" where
  pool_start: "pool K ps [] K ps"
| pool_step: "pool K ps tr K1 qs \<Longrightarrow> i < length qs \<Longrightarrow> pstep (qs ! i) e q \<Longrightarrow> freshStep e K1 K2 \<Longrightarrow>
     pool K ps (tr @ [(i, e)]) K2 (qs[i := q])"

lemma pool_length: "pool K ps tr K' qs \<Longrightarrow> length qs = length ps"
  by (induction rule: pool.induct) auto

fun freshTrace :: "event list \<Rightarrow> bucket \<Rightarrow> bucket \<Rightarrow> bool" where
  "freshTrace [] K K' = (K' = K)"
| "freshTrace (e # tr) K K' = (\<exists>K1. freshStep e K K1 \<and> freshTrace tr K1 K')"

text \<open>An execution of one program is a schedule in which only it moves.\<close>

lemma exec_pstep: "exec p (e # tr) a \<Longrightarrow> \<exists>q. pstep p e q \<and> exec q tr a"
  by (erule exec.cases) (auto intro: pstep.intros)

lemma pool_exec:
  "exec p tr a \<Longrightarrow> pool K0 ps tr0 K qs \<Longrightarrow> i < length qs \<Longrightarrow> qs ! i = p \<Longrightarrow> freshTrace tr K K' \<Longrightarrow>
   pool K0 ps (tr0 @ map (Pair i) tr) K' (qs[i := Return a])"
proof (induction tr arbitrary: p tr0 K qs)
  case Nil
  then have "qs ! i = Return a" by (auto elim: exec.cases)
  then have "qs[i := Return a] = qs" by (metis list_update_id)
  with Nil show ?case by simp
next
  case (Cons e tr)
  obtain q where q: "pstep p e q" "exec q tr a" using exec_pstep [OF Cons.prems(1)] by blast
  obtain K1 where K1: "freshStep e K K1" "freshTrace tr K1 K'" using Cons.prems(5) by auto
  have "pool K0 ps (tr0 @ [(i, e)]) K1 (qs[i := q])"
    using Cons.prems q(1) K1(1) by (auto intro: pool_step)
  from Cons.IH [OF q(2) this _ _ K1(2)] Cons.prems(3) show ?case by simp
qed

section \<open>Guarded programs\<close>

definition pendingValue :: "string \<Rightarrow> bool" where
  "pendingValue v \<longleftrightarrow> (case unmarshalInviteRecord v of Some r \<Rightarrow> rec_Status r \<noteq> InviteStatusAccepted | None \<Rightarrow> False)"

definition acceptedValue :: "string \<Rightarrow> bool" where
  "acceptedValue v \<longleftrightarrow> (case unmarshalInviteRecord v of Some r \<Rightarrow> rec_Status r = InviteStatusAccepted | None \<Rightarrow> False)"

text \<open>
  \<open>guarded uid p seen\<close>: p writes the key uid only by a compare-and-set that stores an accepted
  record, on a revision in seen; seen grows with the revisions at which p read a pending record. A
  UUID that p draws is a new one, not uid.
\<close>

fun sees :: "string \<Rightarrow> string \<Rightarrow> liberr + (string \<times> nat) \<Rightarrow> nat set \<Rightarrow> nat set" where
  "sees uid k (Inr (v, n)) seen = (if k = uid \<and> pendingValue v then insert n seen else seen)"
| "sees uid k (Inl e) seen = seen"

primrec guarded :: "string \<Rightarrow> 'a prog \<Rightarrow> nat set \<Rightarrow> bool" where
  "guarded uid (Return a) seen = True"
| "guarded uid (Now f) seen = (\<forall>x. guarded uid (f x) seen)"
| "guarded uid (NewUUID f) seen = (\<forall>x. x \<noteq> uid \<longrightarrow> guarded uid (f x) seen)"
| "guarded uid (CtxErr f) seen = (\<forall>x. guarded uid (f x) seen)"
| "guarded uid (RangeMap m f) seen = (\<forall>x. guarded uid (f x) seen)"
| "guarded uid (KvGet k f) seen = (\<forall>x. guarded uid (f x) (sees uid k x seen))"
| "guarded uid (KvPut k v f) seen = (k \<noteq> uid \<and> (\<forall>x. guarded uid (f x) seen))"
| "guarded uid (KvUpdate k v r f) seen = ((k = uid \<longrightarrow> r \<in> seen \<and> acceptedValue v) \<and> (\<forall>x. guarded uid (f x) seen))"
| "guarded uid (KvDelete k f) seen = (k \<noteq> uid \<and> (\<forall>x. guarded uid (f x) seen))"
| "guarded uid (KvListKeys f) seen = (\<forall>x. guarded uid (f x) seen)"
| "guarded uid (NatsRequest c d f) seen = (\<forall>x. guarded uid (f x) seen)"
| "guarded uid (NatsPublish c d f) seen = (\<forall>x. guarded uid (f x) seen)"
| "guarded uid (MsgReply d f) seen = (\<forall>x. guarded uid (f x) seen)"
| "guarded uid (Audit e p) seen = guarded uid p seen"

lemma sees_mono: "seen \<subseteq> seen' \<Longrightarrow> sees uid k x seen \<subseteq> sees uid k x seen'"
  by (cases "(uid, k, x, seen)" rule: sees.cases) auto

lemma sees_extends: "seen \<subseteq> sees uid k x seen"
  by (cases "(uid, k, x, seen)" rule: sees.cases) auto

lemma guarded_mono: "guarded uid p seen \<Longrightarrow> seen \<subseteq> seen' \<Longrightarrow> guarded uid p seen'"
proof (induction p arbitrary: seen seen')
  case (KvGet k f)
  have "guarded uid (f x) (sees uid k x seen')" for x
    using KvGet.IH [of "f x" "sees uid k x seen" "sees uid k x seen'"] KvGet.prems sees_mono [OF KvGet.prems(2)] by simp
  then show ?case by simp
qed (simp_all, blast+)

lemma guarded_bind_from:
  assumes g: "\<And>a seen'. start \<subseteq> seen' \<Longrightarrow> guarded uid (g a) seen'"
  shows "guarded uid p seen \<Longrightarrow> start \<subseteq> seen \<Longrightarrow> guarded uid (bind p g) seen"
proof (induction p arbitrary: seen)
  case (Return a)
  then show ?case by (simp add: g)
next
  case (KvGet k f)
  have "guarded uid (bind (f x) g) (sees uid k x seen)" for x
    using KvGet.IH [of "f x" "sees uid k x seen"] KvGet.prems sees_extends [of seen uid k x] by simp
  then show ?case by simp
qed auto

lemma guarded_bind:
  "guarded uid p seen \<Longrightarrow> (\<And>a seen'. seen \<subseteq> seen' \<Longrightarrow> guarded uid (g a) seen') \<Longrightarrow> guarded uid (bind p g) seen"
  using guarded_bind_from [of seen uid g p seen] by blast

lemma guarded_readOnly: "calls readOnly p \<Longrightarrow> guarded uid p seen"
  by (induction p arbitrary: seen) auto

lemma guarded_choice:
  "(\<And>x. guarded uid (f x) seen) \<Longrightarrow> (\<And>y. guarded uid (g y) seen) \<Longrightarrow> guarded uid (case_sum f g s) seen"
  "guarded uid p seen \<Longrightarrow> (\<And>x. guarded uid (h x) seen) \<Longrightarrow> guarded uid (case_option p h v) seen"
  "guarded uid p seen \<Longrightarrow> guarded uid q seen \<Longrightarrow> guarded uid (if c then p else q) seen"
  by (auto split: sum.splits option.splits)

section \<open>One acceptance per invite\<close>

definition pendingAt :: "bucket \<Rightarrow> string \<Rightarrow> bool" where
  "pendingAt K uid \<longleftrightarrow> (\<exists>v. snd (K uid) = Some v \<and> pendingValue v)"

fun isSuccess :: "string \<Rightarrow> event \<Rightarrow> bool" where
  "isSuccess uid (EUpdate k v r (Inr n)) = (k = uid)"
| "isSuccess uid _ = False"

definition successes :: "string \<Rightarrow> (nat \<times> event) list \<Rightarrow> nat" where
  "successes uid tr = length (filter (isSuccess uid \<circ> snd) tr)"

lemma successes_snoc [simp]:
  "successes uid [] = 0" "successes uid (tr @ [(i, e)]) = successes uid tr + (if isSuccess uid e then 1 else 0)"
  by (simp_all add: successes_def)

text \<open>What a program knows is true of the bucket: a revision it saw is old, or still the pending one.\<close>

definition knows :: "string \<Rightarrow> bucket \<Rightarrow> 'a prog \<Rightarrow> bool" where
  "knows uid K p \<longleftrightarrow>
     (\<exists>seen. guarded uid p seen \<and> (\<forall>n \<in> seen. n \<le> fst (K uid) \<and> (n = fst (K uid) \<longrightarrow> pendingAt K uid)))"

lemma knows_fresh:
  assumes "knows uid K p" "K' uid = K uid \<or> fst (K uid) < fst (K' uid)"
  shows "knows uid K' p"
proof -
  obtain seen where s: "guarded uid p seen" "\<forall>n \<in> seen. n \<le> fst (K uid) \<and> (n = fst (K uid) \<longrightarrow> pendingAt K uid)"
    using assms(1) unfolding knows_def by blast
  have "\<forall>n \<in> seen. n \<le> fst (K' uid) \<and> (n = fst (K' uid) \<longrightarrow> pendingAt K' uid)"
    using s(2) assms(2) by (fastforce simp: pendingAt_def)
  with s(1) show ?thesis unfolding knows_def by blast
qed

text \<open>The effect of one call of a guarded program on the key.\<close>

lemma guarded_step:
  assumes "pstep p e q" "knows uid K p" "freshStep e K K'" "e \<noteq> EUUID uid"
  shows "knows uid K' q \<and> (K' uid = K uid \<and> \<not> isSuccess uid e \<or> pendingAt K uid \<and> \<not> pendingAt K' uid)"
proof -
  obtain seen where s: "guarded uid p seen" "\<forall>n \<in> seen. n \<le> fst (K uid) \<and> (n = fst (K uid) \<longrightarrow> pendingAt K uid)"
    using assms(2) unfolding knows_def by blast
  have k: "kvStep e K K'" "K' uid = K uid \<or> fst (K uid) < fst (K' uid)"
    using assms(3) unfolding freshStep_def by blast+
  have keep: "knows uid K' q \<and> (K' uid = K uid \<and> \<not> isSuccess uid e \<or> pendingAt K uid \<and> \<not> pendingAt K' uid)"
    if "guarded uid q seen" "K' uid = K uid \<and> \<not> isSuccess uid e \<or> pendingAt K uid \<and> \<not> pendingAt K' uid"
    using knows_fresh [where K' = K' and K = K and p = q and uid = uid] k(2) s(2) that unfolding knows_def by blast
  show ?thesis
    using assms(1)
  proof cases
    case (5 k f x)
    have K: "K' = K" using k(1) 5 by (auto dest: kvStep_noWrite)
    have "\<forall>n \<in> sees uid k x seen. n \<le> fst (K uid) \<and> (n = fst (K uid) \<longrightarrow> pendingAt K uid)"
    proof (cases x)
      case (Inr vn)
      obtain v n where vn: "vn = (v, n)" by (cases vn)
      with k(1) 5 Inr have "K k = (n, Some v)" by simp
      then have "fst (K k) = n" "snd (K k) = Some v" by simp_all
      with s(2) Inr vn show ?thesis by (auto simp: pendingAt_def)
    qed (use s(2) in simp)
    with 5 s(1) K show ?thesis unfolding knows_def by auto
  next
    case (6 k v f x)
    with s(1) k(1) show ?thesis by (intro keep) (cases x; auto)+
  next
    case (8 k f x)
    with s(1) k(1) show ?thesis by (intro keep) (cases x; auto)+
  next
    case (7 k v r f x)
    have g: "guarded uid q seen" using s(1) 7 by auto
    show ?thesis
    proof (cases "k = uid")
      case False
      with 7 k(1) g show ?thesis by (intro keep) (cases x; auto)+
    next
      case True
      with s(1) 7 have r: "r \<in> seen" "acceptedValue v" by auto
      then have "\<not> pendingValue v" by (auto simp: acceptedValue_def pendingValue_def split: option.splits)
      with True 7 k(1) r(1) s(2) g show ?thesis
        by (intro keep) (cases x; auto simp: pendingAt_def)+
    qed
  next
    case (9 f x)
    have "K' = K" using k(1) 9 by (auto dest: kvStep_noWrite)
    with s(1) 9 show ?thesis by (intro keep) auto
  qed (use s(1) k(1) keep assms(4) in auto)
qed

text \<open>The invariant of a pool of guarded programs.\<close>

lemma pool_once:
  assumes "pool K ps tr K' qs" "\<forall>p \<in> set ps. guarded uid p {}" "EUUID uid \<notin> snd ` set tr"
  shows "(\<forall>q \<in> set qs. knows uid K' q)
    \<and> successes uid tr + (if pendingAt K' uid then 1 else 0) \<le> (if pendingAt K uid then 1 else 0)
    \<and> (K' uid = K uid \<or> pendingAt K uid \<and> \<not> pendingAt K' uid)"
  using assms
proof (induction rule: pool.induct)
  case (pool_start K ps)
  then show ?case by (auto simp: knows_def)
next
  case (pool_step K ps tr K1 qs i e q K2)
  then have "EUUID uid \<notin> snd ` set tr" by auto
  with pool_step have IH: "\<forall>q \<in> set qs. knows uid K1 q"
    "successes uid tr + (if pendingAt K1 uid then 1 else 0) \<le> (if pendingAt K uid then 1 else 0)"
    "K1 uid = K uid \<or> pendingAt K uid \<and> \<not> pendingAt K1 uid" by blast+
  have k: "knows uid K1 (qs ! i)" using IH(1) pool_step by simp
  have "e \<noteq> EUUID uid" using pool_step(7) by auto
  note g = guarded_step [OF pool_step(3) k pool_step(4) this]
  have "K2 uid = K1 uid \<or> fst (K1 uid) < fst (K2 uid)" using pool_step(4) by (auto simp: freshStep_def)
  then have "\<forall>q \<in> set (qs[i := q]). knows uid K2 q"
    using IH(1) g knows_fresh [where K = K1 and K' = K2 and uid = uid] set_update_subset_insert [of qs i q] by blast
  moreover have "pendingAt K2 uid \<longleftrightarrow> pendingAt K1 uid" if "K2 uid = K1 uid" using that by (simp add: pendingAt_def)
  ultimately show ?case using IH(2,3) g by (auto split: if_splits)
qed

section \<open>Credit for announcements\<close>

text \<open>
  \<open>credit uid p c\<close>: with c successful acceptances of uid so far, p never publishes more often than
  it has accepted.
\<close>

primrec credit :: "string \<Rightarrow> 'a prog \<Rightarrow> nat \<Rightarrow> bool" where
  "credit uid (Return a) c = True"
| "credit uid (Now f) c = (\<forall>x. credit uid (f x) c)"
| "credit uid (NewUUID f) c = (\<forall>x. credit uid (f x) c)"
| "credit uid (CtxErr f) c = (\<forall>x. credit uid (f x) c)"
| "credit uid (RangeMap m f) c = (\<forall>x. credit uid (f x) c)"
| "credit uid (KvGet k f) c = (\<forall>x. credit uid (f x) c)"
| "credit uid (KvPut k v f) c = (\<forall>x. credit uid (f x) c)"
| "credit uid (KvUpdate k v r f) c =
     (\<forall>x. credit uid (f x) (if isSuccess uid (EUpdate k v r x) then Suc c else c))"
| "credit uid (KvDelete k f) c = (\<forall>x. credit uid (f x) c)"
| "credit uid (KvListKeys f) c = (\<forall>x. credit uid (f x) c)"
| "credit uid (NatsRequest n d f) c = (\<forall>x. credit uid (f x) c)"
| "credit uid (NatsPublish n d f) c = (0 < c \<and> (\<forall>x. credit uid (f x) (c - 1)))"
| "credit uid (MsgReply d f) c = (\<forall>x. credit uid (f x) c)"
| "credit uid (Audit e p) c = credit uid p c"

fun isPublish :: "event \<Rightarrow> bool" where
  "isPublish (EPublish c d r) = True"
| "isPublish _ = False"

text \<open>The announcements made by the programs with indices in I.\<close>

definition announced :: "nat set \<Rightarrow> (nat \<times> event) list \<Rightarrow> nat" where
  "announced I tr = length (filter (\<lambda>(i, e). i \<in> I \<and> isPublish e) tr)"

lemma announced_snoc [simp]:
  "announced I [] = 0" "announced I (tr @ [(i, e)]) = announced I tr + (if i \<in> I \<and> isPublish e then 1 else 0)"
  by (simp_all add: announced_def)

lemma credit_readOnly: "calls readOnly p \<Longrightarrow> credit uid p c"
  by (induction p arbitrary: c) auto

lemma credit_step:
  "pstep p e q \<Longrightarrow> credit uid p c \<Longrightarrow>
   \<exists>c'. credit uid q c' \<and> (if isPublish e then Suc c' = c else c' = c + (if isSuccess uid e then 1 else 0))"
  by (induction rule: pstep.induct) (auto split: if_splits)

lemma pool_credit:
  assumes "pool K ps tr K' qs" "I \<subseteq> {..<length ps}" "\<forall>i \<in> I. credit uid (ps ! i) 0"
  shows "\<exists>c. (\<forall>i \<in> I. credit uid (qs ! i) (c i)) \<and> announced I tr + (\<Sum>i\<in>I. c i) \<le> successes uid tr"
  using assms
proof (induction rule: pool.induct)
  case (pool_start K ps)
  then show ?case by (intro exI [of _ "\<lambda>_. 0"]) simp
next
  case (pool_step K ps tr K1 qs i e q K2)
  then obtain c where c: "\<forall>i \<in> I. credit uid (qs ! i) (c i)" "announced I tr + (\<Sum>i\<in>I. c i) \<le> successes uid tr"
    by blast
  show ?case
  proof (cases "i \<in> I")
    case False
    then have "\<forall>j \<in> I. credit uid (qs[i := q] ! j) (c j)" using c(1) by (metis nth_list_update_neq)
    with False c(2) show ?thesis by (intro exI [of _ c]) simp
  next
    case True
    with c(1) pool_step(3) obtain c' where
      c': "credit uid q c'" "if isPublish e then Suc c' = c i else c' = c i + (if isSuccess uid e then 1 else 0)"
      using credit_step by blast
    have fin: "finite I" using pool_step(6) finite_subset by blast
    have "\<forall>j \<in> I. credit uid (qs[i := q] ! j) ((c(i := c')) j)"
      using c(1) c'(1) pool_step(2) by (simp add: nth_list_update)
    moreover have "(\<Sum>j\<in>I. (c(i := c')) j) + c i = (\<Sum>j\<in>I. c j) + c'"
      using fin True by (simp add: sum.remove)
    moreover have "isPublish e \<Longrightarrow> \<not> isSuccess uid e" by (cases e) auto
    ultimately show ?thesis
      using c(2) c'(2) True by (intro exI [of _ "c(i := c')"]) (auto split: if_splits)
  qed
qed

end
