(* ===== verification/Acceptance_Properties.thy ===== *)
theory Acceptance_Properties
  imports Samples Concurrency
begin

text \<open>
  What holds of acceptance: who can accept, what the store's compare-and-set does on every
  branch, what is announced, and what concurrent deliveries of an event can do together.
\<close>

section \<open>Messages\<close>

lemma keeps_unmarshal: "keeps P dec \<Longrightarrow> P z \<Longrightarrow> unmarshal dec z d = Some v \<Longrightarrow> P v"
  unfolding keeps_def unmarshal_def by (simp split: option.splits)

lemma evt_valid: "unmarshalInviteAcceptedEvent d = Some evt \<Longrightarrow> validUTF8 (evt_Username evt)"
proof -
  assume d: "unmarshalInviteAcceptedEvent d = Some evt"
  have "keeps (\<lambda>e. validStrings [evt_InviteUID e, evt_Username e, evt_Token e]) (dec_struct
       [(''invite_uid'', fld dec_string evt_InviteUID evt_InviteUID_update),
        (''username'', fld dec_string evt_Username evt_Username_update),
        (''token'', fld dec_string evt_Token evt_Token_update)])"
    by (rule keeps_struct) (auto simp: validStrings_def intro!: keeps_fld dest: dec_string_valid)
  from keeps_unmarshal [OF this _ d [unfolded unmarshalInviteAcceptedEvent_def]] show ?thesis
    by (simp add: zeroInviteAcceptedEvent_def validStrings_def)
qed

lemma dispatchMsg_exec:
  assumes "exec (dispatchMsg lib (wireServer pf cfg) m) tr x" "e \<in> set tr" "isAcceptance e"
  obtains evt where "msg_Subject m = InviteAcceptedSubject" "unmarshalInviteAcceptedEvent (msg_Data m) = Some evt"
    "exec (HandleInviteAccepted (acceptanceService (lib_lower (plat_golib pf)) (plat_jwt pf) (app_InviteJWTSecret cfg)) evt) tr x"
    "\<not> noEffect tr"
proof -
  have n: "\<not> list_all (\<lambda>e. \<not> isAcceptance e) tr" using assms(2,3) by (auto simp: list_all_iff)
  have h: "exec (handleInviteAccepted (wireServer pf cfg) m) tr x" "msg_Subject m = InviteAcceptedSubject"
    using assms(1) n other_handlers_calls [THEN exec_calls [rotated]] assms(2)
    by (auto simp: dispatchMsg_def prog_simps split: if_splits)
  have "\<not> noEffect tr"
    using assms(2) acceptance_is_effect [OF assms(3)] by (auto simp: noEffect_def list_all_iff)
  with h assms(2) that show thesis
    by (auto simp: handleInviteAccepted_def prog_simps split: option.splits)
qed

section \<open>Attempts of the compare-and-set\<close>

fun isUpdate :: "event \<Rightarrow> bool" where
  "isUpdate (EUpdate k v r x) = True"
| "isUpdate _ = False"

definition updates :: "event list \<Rightarrow> nat" where
  "updates tr = length (filter isUpdate tr)"

lemma updates_simps [simp]:
  "updates [] = 0" "updates (tr @ tr') = updates tr + updates tr'"
  "updates (e # tr) = (if isUpdate e then Suc (updates tr) else updates tr)"
  by (simp_all add: updates_def)

text \<open>The last attempt of a successful one: read, clock, write.\<close>

definition winningAttempt :: "string \<Rightarrow> string \<Rightarrow> time \<Rightarrow> event list \<Rightarrow> bool" where
  "winningAttempt uid username t tr \<longleftrightarrow>
     (\<exists>v rev r now data n. tr = [EGet uid (Inr (v, rev)), ENow now, EUpdate uid data rev (Inr n)]
        \<and> unmarshalInviteRecord v = Some r \<and> rec_Status r \<noteq> InviteStatusAccepted
        \<and> before t (rec_ExpiresAt r) \<and> before now (rec_ExpiresAt r)
        \<and> marshalInviteRecord (acceptRecord r username t) = Some data)"

fun rejectedUpdate :: "string \<Rightarrow> event \<Rightarrow> bool" where
  "rejectedUpdate uid (EUpdate k v r x) = (k = uid \<and> (\<exists>e. x = Inl e \<and> isRejection e))"
| "rejectedUpdate uid e = True"

lemma markAttempts_exec:
  "exec (markAttempts n uid username t) tr x \<Longrightarrow>
   updates tr \<le> n \<and> list_all (\<lambda>e. \<not> isSuccess uid e) (if x = None then butlast tr else tr)
   \<and> (x = None \<longrightarrow> (\<exists>pre win. tr = pre @ win \<and> list_all (rejectedUpdate uid) pre \<and> winningAttempt uid username t win))"
proof (induction n arbitrary: tr)
  case 0
  then show ?case by (simp add: prog_simps)
next
  case (Suc n)
  from Suc.prems obtain g tr1 where g: "tr = EGet uid g # tr1" by (auto simp: Let_def prog_simps)
  consider (stop) y where "x = Some y" "updates tr \<le> 1" "list_all (\<lambda>e. \<not> isSuccess uid e) tr"
    | (win) "winningAttempt uid username t tr" "x = None"
    | (retry) now data rev e tr2 v where "tr = [EGet uid (Inr (v, rev)), ENow now, EUpdate uid data rev (Inl e)] @ tr2"
        "isRejection e" "exec (markAttempts n uid username t) tr2 x"
    using Suc.prems
    by (auto simp: Let_def prog_simps winningAttempt_def isRevisionMismatch_rejection)
  then show ?case
  proof cases
    case stop
    then show ?thesis by simp
  next
    case win
    have "updates tr = 1 \<and> list_all (\<lambda>e. \<not> isSuccess uid e) (butlast tr)"
      using win(1) by (auto simp: winningAttempt_def)
    moreover have "\<exists>pre win. tr = pre @ win \<and> list_all (rejectedUpdate uid) pre \<and> winningAttempt uid username t win"
      using win(1) by (intro exI [of _ "[]"] exI [of _ tr]) simp
    ultimately show ?thesis using win(2) by simp
  next
    case retry
    note IH = Suc.IH [OF retry(3)]
    have "butlast tr = [EGet uid (Inr (v, rev)), ENow now, EUpdate uid data rev (Inl e)] @ butlast tr2" if "x = None"
      using IH that retry(1) by (auto simp: winningAttempt_def butlast_append)
    moreover have "\<exists>pre win. tr = pre @ win \<and> list_all (rejectedUpdate uid) pre \<and> winningAttempt uid username t win" if "x = None"
    proof -
      from IH that obtain pre win where "tr2 = pre @ win" "list_all (rejectedUpdate uid) pre" "winningAttempt uid username t win"
        by blast
      with retry(1,2) show ?thesis
        by (intro exI [of _ "[EGet uid (Inr (v, rev)), ENow now, EUpdate uid data rev (Inl e)] @ pre"] exI [of _ win]) simp
    qed
    ultimately show ?thesis using IH retry(1) by auto
  qed
qed

section \<open>Who can accept\<close>

text \<open>C1: An invite is only ever marked accepted, and its acceptance only announced, while handling a
  message on the acceptance subject whose event carries a token that parses under the service's
  secret and options with the UID and the email of the stored, pending, unexpired record (and the
  record's username, when it has one). No message on any other subject does either.\<close>

theorem acceptance_needs_evidence:
  assumes "exec (dispatchMsg (plat_golib pf) (wireServer pf cfg) m) tr x" "e \<in> set tr" "isAcceptance e"
  shows "msg_Subject m = InviteAcceptedSubject \<and>
    (\<exists>evt v n r now rest. unmarshalInviteAcceptedEvent (msg_Data m) = Some evt
       \<and> tr = EGet (evt_InviteUID evt) (Inr (v, n)) # ENow now # rest
       \<and> unmarshalInviteRecord v = Some r
       \<and> acceptedBy (plat_jwt pf) (app_InviteJWTSecret cfg) evt r now)"
proof (rule dispatchMsg_exec [OF assms])
  fix evt
  assume m: "msg_Subject m = InviteAcceptedSubject" "unmarshalInviteAcceptedEvent (msg_Data m) = Some evt"
    and h: "exec (HandleInviteAccepted (acceptanceService (lib_lower (plat_golib pf)) (plat_jwt pf) (app_InviteJWTSecret cfg)) evt) tr x"
      "\<not> noEffect tr"
  from acceptance_exec [OF h] m show ?thesis by metis
qed

theorem acceptance_needs_evidence_witness:
  "\<exists>evt r now. acceptedBy sampleJwt (app_InviteJWTSecret sampleConfig) evt r now"
  using acceptance_needs_evidence [OF sample_acceptance_exec, of "EPublish InviteServiceAcceptedSubject acceptedEventData None"]
  by (auto simp: samplePlatform_def sampleTrace_def)

section \<open>What is announced\<close>

text \<open>An announcement follows a successful compare-and-set of the same handler.\<close>

lemma publishAccepted_exec:
  "exec (publishAccepted (acceptanceService u jwt secret) uid) tr x \<Longrightarrow>
   noEffect tr \<or> (\<exists>v n r data q. tr = [EGet uid (Inr (v, n)), EPublish InviteServiceAcceptedSubject data q]
      \<and> unmarshalInviteRecord v = Some r
      \<and> marshalInviteServiceAcceptedEvent \<lparr>acc_Invite = (domainToAPIInvite r)\<lparr>ai_Status := ApiInviteStatusAccepted\<rparr>\<rparr> = Some data)"
proof -
  assume e: "exec (publishAccepted (acceptanceService u jwt secret) uid) tr x"
  then obtain tr1 g tr2 where t: "tr = tr1 @ tr2" "exec (GetByUID uid) tr1 g" and b: "exec (case g of Inl err \<Rightarrow> Return () | Inr record \<Rightarrow>
         let inv = (domainToAPIInvite record)\<lparr>ai_Status := ApiInviteStatusAccepted\<rparr> in
         (case marshalInviteServiceAcceptedEvent \<lparr>acc_Invite = inv\<rparr> of
            None \<Rightarrow> Return ()
          | Some data \<Rightarrow> bind (Publish InviteServiceAcceptedSubject data) (\<lambda>err. Return ()))) tr2 x"
    unfolding publishAccepted_def acceptanceService_simps NATSInviteRepository_simps by (rule exec_bindE) (rule that)
  note quiet = GetByUID_noEffect [OF t(2)]
  show ?thesis
  proof (cases g)
    case (Inl e)
    with b t quiet show ?thesis by (simp add: prog_simps)
  next
    case (Inr r)
    with t(2) obtain v n where v: "tr1 = [EGet uid (Inr (v, n))]" "unmarshalInviteRecord v = Some r"
      by (auto simp: GetByUID_Inr)
    show ?thesis
    proof (cases "marshalInviteServiceAcceptedEvent \<lparr>acc_Invite = (domainToAPIInvite r)\<lparr>ai_Status := ApiInviteStatusAccepted\<rparr>\<rparr>")
      case None
      with b Inr have "tr2 = []" by (simp add: Let_def prog_simps)
      with t quiet show ?thesis by simp
    next
      case (Some data)
      with b Inr have "exec (bind (Publish InviteServiceAcceptedSubject data) (\<lambda>err. Return ())) tr2 x"
        by (simp add: Let_def)
      then obtain q where "tr2 = [EPublish InviteServiceAcceptedSubject data q]"
        by (auto simp: prog_simps exec_bind Publish_def)
      with t v Some show ?thesis by auto
    qed
  qed
qed

text \<open>C20: The acceptance of an invite is announced at most once per handled message, only after this
  handler's own compare-and-set on the invite has succeeded; the announcement goes to the service's
  subject and is the public view of the record read back from the bucket, with status accepted.\<close>

theorem announced_after_acceptance:
  assumes "exec (dispatchMsg (plat_golib pf) (wireServer pf cfg) m) tr x" "EPublish subj d q \<in> set tr"
  shows "\<exists>evt pre data rev n v n' r.
    unmarshalInviteAcceptedEvent (msg_Data m) = Some evt
    \<and> tr = pre @ [EUpdate (evt_InviteUID evt) data rev (Inr n), EGet (evt_InviteUID evt) (Inr (v, n')), EPublish subj d q]
    \<and> noSend pre \<and> subj = InviteServiceAcceptedSubject \<and> unmarshalInviteRecord v = Some r
    \<and> marshalInviteServiceAcceptedEvent \<lparr>acc_Invite = (domainToAPIInvite r)\<lparr>ai_Status := ''accepted''\<rparr>\<rparr> = Some d"
proof -
  have "isAcceptance (EPublish subj d q)" by simp
  from dispatchMsg_exec [OF assms this] obtain evt where
    evt: "unmarshalInviteAcceptedEvent (msg_Data m) = Some evt" and
    h: "exec (HandleInviteAccepted (acceptanceService (lib_lower (plat_golib pf)) (plat_jwt pf) (app_InviteJWTSecret cfg)) evt) tr x"
      "\<not> noEffect tr" by blast
  let ?svc = "acceptanceService (lib_lower (plat_golib pf)) (plat_jwt pf) (app_InviteJWTSecret cfg)"
  let ?uid = "evt_InviteUID evt"
  from acceptance_exec [OF h] obtain v n now tr2 tr3 tr4 y where
    t: "tr = EGet ?uid (Inr (v, n)) # ENow now # tr2 @ tr3 @ tr4" "noEffect tr2"
      "exec (MarkAccepted ?uid (evt_Username evt) now) tr3 y"
      "(y = None \<and> exec (publishAccepted ?svc ?uid) tr4 ()) \<or> (y \<noteq> None \<and> tr4 = [])" by metis
  have m: "noSend tr3"
  proof -
    have "calls (\<lambda>e. \<not> isSend e) (markAttempts k ?uid (evt_Username evt) now)" for k
      by (induction k) (auto simp: Let_def intro!: call_intros split: sum.splits option.splits)
    from exec_calls [OF t(3) [unfolded MarkAccepted_def] this] show ?thesis by (simp add: noSend_def)
  qed
  have "EPublish subj d q \<notin> set tr2" "EPublish subj d q \<notin> set tr3"
    using t(2) m by (auto simp: noEffect_def noSend_def list_all_iff)
  with assms(2) t(1) have p: "EPublish subj d q \<in> set tr4" by auto
  with t(4) have y: "y = None" "exec (publishAccepted ?svc ?uid) tr4 ()" by auto
  from publishAccepted_exec [OF y(2)] p obtain v' n' r where
    a: "tr4 = [EGet ?uid (Inr (v', n')), EPublish subj d q]" "subj = InviteServiceAcceptedSubject"
      "unmarshalInviteRecord v' = Some r"
      "marshalInviteServiceAcceptedEvent \<lparr>acc_Invite = (domainToAPIInvite r)\<lparr>ai_Status := ApiInviteStatusAccepted\<rparr>\<rparr> = Some d"
    by (auto simp: noEffect_def list_all_iff)
  from markAttempts_exec [OF t(3) [unfolded MarkAccepted_def]] y(1)
  obtain p0 win where "tr3 = p0 @ win" "winningAttempt ?uid (evt_Username evt) now win" by auto
  then obtain pre data rev k where w: "tr3 = pre @ [EUpdate ?uid data rev (Inr k)]"
    by (auto simp: winningAttempt_def)
  have "tr = (EGet ?uid (Inr (v, n)) # ENow now # tr2 @ pre) @ [EUpdate ?uid data rev (Inr k), EGet ?uid (Inr (v', n')), EPublish subj d q]"
    using t(1) w a(1) by simp
  moreover have "noSend (EGet ?uid (Inr (v, n)) # ENow now # tr2 @ pre)"
    using t(2) m w by (simp add: noEffect_iff)
  ultimately show ?thesis using evt a(2,3,4) unfolding ApiInviteStatusAccepted_def by blast
qed

theorem announced_after_acceptance_witness:
  "\<exists>pre data rev n v n' r. sampleTrace = pre @ [EUpdate ''7'' data rev (Inr n), EGet ''7'' (Inr (v, n')),
       EPublish InviteServiceAcceptedSubject acceptedEventData None]
     \<and> unmarshalInviteRecord v = Some r
     \<and> marshalInviteServiceAcceptedEvent \<lparr>acc_Invite = (domainToAPIInvite r)\<lparr>ai_Status := ''accepted''\<rparr>\<rparr> = Some acceptedEventData"
proof -
  have "EPublish InviteServiceAcceptedSubject acceptedEventData None \<in> set sampleTrace" by (simp add: sampleTrace_def)
  from announced_after_acceptance [OF sample_acceptance_exec this] show ?thesis
    using acceptMsg_event by (simp add: acceptEvent_def) blast
qed

section \<open>The records\<close>

text \<open>C9: On every bucket that keeps the JetStream contract (calls may fail, and a failed write may still
  have been applied) handling an acceptance message refines one optional step of the abstract map
  from UIDs to records: either no record changes, or exactly the record of the event's invite
  changes from a not accepted state, before its expiry and with the evidence of a verified token,
  to accepted, by the event's user, at the time read; all its other fields are kept.\<close>

theorem acceptance_refines_step:
  assumes "kv_contract env kv" "run env (handleInviteAccepted (wireServer pf cfg) m) s = (x, s')"
  shows "recordsOf kv s' = recordsOf kv s
    \<or> (\<exists>evt r now claims. unmarshalInviteAcceptedEvent (msg_Data m) = Some evt
         \<and> recordsOf kv s (evt_InviteUID evt) = Some r \<and> evidenceFor evt r now claims
         \<and> accepts (recordsOf kv s) (evt_InviteUID evt) (evt_Username evt) now (recordsOf kv s'))"
proof (cases "unmarshalInviteAcceptedEvent (msg_Data m)")
  case None
  with assms(2) show ?thesis by (simp add: handleInviteAccepted_def)
next
  case (Some evt)
  with assms(2) have "run env (HandleInviteAccepted (acceptanceService (lib_lower (plat_golib pf)) (plat_jwt pf)
      (app_InviteJWTSecret cfg)) evt) s = (x, s')"
    by (simp add: handleInviteAccepted_def)
  from kv_contract.acceptance_run [OF assms(1) this evt_valid [OF Some]] Some show ?thesis by metis
qed

theorem acceptance_refines_step_witness:
  "\<exists>s' now. accepts (recordsOf mem_kv sampleMem) ''7'' ''ada'' now (recordsOf mem_kv s')"
proof -
  obtain s' where r: "run mem_env (handleInviteAccepted (wireServer samplePlatform sampleConfig) acceptMsg) sampleMem = ((), s')"
    "recordsOf mem_kv s' ''7'' = Some acceptedSample"
    using sample_run sample_handle by metis
  moreover have "recordsOf mem_kv s' \<noteq> recordsOf mem_kv sampleMem"
    using r(2) acceptedSample_neq by (auto dest: fun_cong [of _ _ "''7''"])
  ultimately obtain evt now where e: "unmarshalInviteAcceptedEvent (msg_Data acceptMsg) = Some evt"
    "accepts (recordsOf mem_kv sampleMem) (evt_InviteUID evt) (evt_Username evt) now (recordsOf mem_kv s')"
    using acceptance_refines_step [OF mem_contract r(1)] by blast
  from e(1) have "evt = acceptEvent" using acceptMsg_event by simp
  with e(2) show ?thesis by (auto simp: acceptEvent_def)
qed

text \<open>C15: \<open>MarkAccepted\<close> against any bucket that keeps its contract. When it reports success, exactly the
  record of the UID has gone from not accepted and unexpired to accepted by the user at the given
  time. When it reports an error, either nothing changed, or (only with an error that is none of
  the service's own) that same acceptance was applied although its acknowledgement was lost.\<close>

theorem MarkAccepted_contract:
  assumes "kv_contract env kv" "validUTF8 username" "run env (MarkAccepted uid username t) s = (x, s')"
  shows "(x = None \<longrightarrow> accepts (recordsOf kv s) uid username t (recordsOf kv s'))
    \<and> (\<forall>e. x = Some e \<longrightarrow> kv s' = kv s \<or> noSentinel e \<and> accepts (recordsOf kv s) uid username t (recordsOf kv s'))"
  using kv_contract.markAttempts_run [OF assms(1,2) assms(3) [unfolded MarkAccepted_def]] .

theorem MarkAccepted_contract_witness:
  "\<exists>s'. accepts (recordsOf mem_kv sampleMem) ''7'' ''ada'' (5 * nsPerSecond) (recordsOf mem_kv s')"
proof -
  obtain s' where r: "run mem_env (MarkAccepted ''7'' ''ada'' (5 * nsPerSecond)) sampleMem = (None, s')"
    using sample_mark by blast
  from MarkAccepted_contract [OF mem_contract validUTF8_samples(4) r] show ?thesis by blast
qed

text \<open>C16: \<open>MarkAccepted\<close> makes at most three writes whatever the bucket answers. It succeeds only with
  its last write, a compare-and-set on the revision of a record it has just read as not accepted
  and found unexpired both at the given time and by the clock; every write before that one was
  rejected for its revision. When it fails, none of its writes succeeded.\<close>

theorem MarkAccepted_attempts:
  assumes "exec (MarkAccepted uid username t) tr x"
  shows "updates tr \<le> 3 \<and> list_all (\<lambda>e. \<not> isSuccess uid e) (if x = None then butlast tr else tr)
    \<and> (x = None \<longrightarrow> (\<exists>pre win. tr = pre @ win \<and> list_all (rejectedUpdate uid) pre
          \<and> winningAttempt uid username t win))"
  using markAttempts_exec [OF assms [unfolded MarkAccepted_def]] by (simp add: maxMarkAcceptedRetries_def)

theorem MarkAccepted_attempts_witness:
  "updates (traceOf mem_env (MarkAccepted ''7'' ''ada'' 0) sampleMem) \<le> 3"
  using MarkAccepted_attempts [OF exec_traceOf [of "MarkAccepted ''7'' ''ada'' 0" mem_env sampleMem]] by blast

end
