(* ===== verification/Concurrency_Properties.thy ===== *)
theory Concurrency_Properties
  imports Acceptance_Properties
begin

text \<open>
  Concurrent deliveries on any number of replicas: an invite is accepted, and announced, at most
  once. The handlers of the service are guarded programs of \<open>Concurrency\<close>.
\<close>

section \<open>The handlers are guarded\<close>

lemma acceptedValue_data:
  assumes "unmarshalInviteRecord v = Some r" "validUTF8 username"
    "marshalInviteRecord (acceptRecord r username t) = Some data"
  shows "acceptedValue data"
proof -
  have "decodedRecord (acceptRecord r username t)"
    using unmarshal_decoded [OF assms(1)] assms(2) by (rule decoded_accept)
  then have "unmarshalInviteRecord data = Some (acceptRecord r username t)" using assms(3) by (rule reread)
  then show ?thesis by (simp add: acceptedValue_def acceptRecord_status)
qed

lemma MarkAccepted_guarded:
  assumes "validUTF8 username"
  shows "guarded uid (MarkAccepted k username t) seen"
proof -
  have "guarded uid (markAttempts n k username t) seen" for n
  proof (induction n arbitrary: seen)
    case (Suc n)
    then show ?case
      using acceptedValue_data [OF _ assms]
      by (auto simp: Let_def pendingValue_def intro!: guarded_choice split: sum.splits option.splits)
  qed simp
  then show ?thesis by (simp add: MarkAccepted_def)
qed

lemma Publish_guarded: "guarded uid (Publish subj d) seen"
  unfolding Publish_def by (auto split: option.splits)

lemma verifyAcceptance_calls: "calls readOnly (verifyAcceptance (acceptanceService u jwt secret) evt rc now)"
  unfolding verifyAcceptance_def by (auto intro!: call_intros Verify_calls split: sum.splits)

lemma HandleInviteAccepted_guarded:
  assumes "validUTF8 (evt_Username evt)"
  shows "guarded uid (HandleInviteAccepted (acceptanceService u jwt secret) evt) seen"
  unfolding HandleInviteAccepted_def publishAccepted_def Let_def
  by (auto intro!: guarded_bind guarded_choice guarded_readOnly [OF GetByUID_calls]
      guarded_readOnly [OF verifyAcceptance_calls] MarkAccepted_guarded [OF assms] Publish_guarded split: sum.splits option.splits)

lemma reply_guarded: "guarded uid (Reply m d) seen"
  unfolding Reply_def by simp

lemma reply_errors_guarded:
  "guarded uid (replyError m code) seen" "guarded uid (replyGetInviteError m code) seen"
  "guarded uid (replyGetByEmailError m code) seen"
  unfolding replyError_def replyGetInviteError_def replyGetByEmailError_def
  by (auto intro!: guarded_bind reply_guarded)

text \<open>A send writes under a new UID: it never touches the key of another invite.\<close>

lemma send_guarded:
  assumes "isUid uid"
  shows "guarded uid (HandleSendInvite lib (notificationService pf cfg) req) seen"
proof -
  note index = isUid_neq_indexKey [OF assms, symmetric]
  have create: "guarded uid (Create u r) seen" if "rec_UID r \<noteq> uid" for u r seen
    unfolding Create_def using that index by (auto split: option.splits sum.splits)
  have delete: "guarded uid (DeleteInvite u k) seen" if "k \<noteq> uid" for u k seen
    unfolding DeleteInvite_def using that index by (auto split: option.splits sum.splits)
  have mail: "guarded uid (SendNotification elib subj payload) seen" for elib subj payload seen
    unfolding SendNotification_def Request_def by (auto intro!: guarded_bind split: sum.splits)
  have dispatch: "guarded uid (dispatchInvite (notificationService pf cfg) req email role g) seen"
    if "gl_InviteUID g \<noteq> uid" for email role g seen
    unfolding dispatchInvite_def emailFailed_def emailSent_def auditNotification_def using that
    by (auto intro!: guarded_bind mail delete split: option.splits)
  have persist: "guarded uid (persistInvite (notificationService pf cfg) req email dest role g) seen"
    if "gl_InviteUID g \<noteq> uid" for email dest role g seen
    unfolding persistInvite_def buildInviteRecord_def using that
    by (auto intro!: guarded_bind create dispatch split: option.splits)
  show ?thesis
    unfolding HandleSendInvite_def Let_def
    by (auto simp: Generate_def Let_def intro!: persist split: sum.splits)
qed

lemma handler_guarded:
  assumes "isUid uid"
  shows "guarded uid (dispatchMsg lib (wireServer pf cfg) m) seen"
proof -
  have "guarded uid (handleSendInvite lib (wireServer pf cfg) m) seen"
    unfolding handleSendInvite_def wireServer_simps Let_def
    by (intro guarded_choice guarded_bind send_guarded [OF assms] reply_errors_guarded reply_guarded) simp_all
  moreover have "guarded uid (handleInviteAccepted (wireServer pf cfg) m) seen"
    unfolding handleInviteAccepted_def
    by (auto intro: HandleInviteAccepted_guarded evt_valid split: option.splits)
  moreover have "guarded uid (handleGetInvite (wireServer pf cfg) m) seen"
    unfolding handleGetInvite_def wireServer_simps Let_def
    by (intro guarded_choice guarded_bind guarded_readOnly [OF GetInvite_calls] reply_errors_guarded reply_guarded) simp_all
  moreover have "guarded uid (handleGetInvitesByEmail lib (wireServer pf cfg) m) seen"
    unfolding handleGetInvitesByEmail_def wireServer_simps
    by (intro guarded_choice guarded_bind guarded_readOnly [OF GetInvitesByEmail_calls] reply_errors_guarded reply_guarded) simp_all
  ultimately show ?thesis by (simp add: dispatchMsg_def)
qed

section \<open>The handlers have credit\<close>

lemma credit_bind_readOnly:
  "calls readOnly p \<Longrightarrow> (\<And>a. credit uid (g a) c) \<Longrightarrow> credit uid (bind p g) c"
  by (induction p) auto

lemma markAttempts_credit:
  assumes "\<And>e. credit uid (g (Some e)) c" "credit uid (g None) (Suc c)"
  shows "credit uid (bind (markAttempts n uid username t) g) c"
  using assms
  by (induction n) (auto simp: Let_def split: sum.splits option.splits)

lemma Publish_credit: "credit uid (Publish subj d) (Suc c)"
  unfolding Publish_def by (auto split: option.splits)

lemma publishAccepted_credit: "credit uid (publishAccepted (acceptanceService u jwt secret) k) (Suc c)"
proof -
  have "credit uid (bind (Publish subj d) (\<lambda>e. Return ())) (Suc c)" for subj d
    unfolding Publish_def by (auto split: option.splits)
  then show ?thesis
    unfolding publishAccepted_def acceptanceService_simps NATSInviteRepository_simps Let_def
    by (intro credit_bind_readOnly GetByUID_calls) (auto split: sum.splits option.splits)
qed

lemma HandleInviteAccepted_credit:
  "credit (evt_InviteUID evt) (HandleInviteAccepted (acceptanceService u jwt secret) evt) c"
proof -
  let ?svc = "acceptanceService u jwt secret"
  have mark: "credit (evt_InviteUID evt) (bind (MarkAccepted (evt_InviteUID evt) (evt_Username evt) now) (\<lambda>r. case r of
                  Some err \<Rightarrow> Return ()
                | None \<Rightarrow> publishAccepted ?svc (evt_InviteUID evt))) c" for now
    unfolding MarkAccepted_def by (rule markAttempts_credit) (simp_all add: publishAccepted_credit)
  show ?thesis
    unfolding HandleInviteAccepted_def
    by (auto intro!: credit_bind_readOnly GetByUID_calls verifyAcceptance_calls mark split: sum.splits option.splits)
qed

text \<open>The index of a delivery of the event of an invite.\<close>

definition deliveries :: "string \<Rightarrow> natsMsg list \<Rightarrow> nat set" where
  "deliveries uid ms = {i. i < length ms \<and> msg_Subject (ms ! i) = InviteAcceptedSubject
     \<and> (\<exists>evt. unmarshalInviteAcceptedEvent (msg_Data (ms ! i)) = Some evt \<and> evt_InviteUID evt = uid)}"

section \<open>At most once\<close>

text \<open>C2: In every interleaving of any number of handlers (any messages, delivered any number of times to
  any replicas), on a bucket whose calls are atomic and whose revisions grow, and as long as no
  handler draws the UID again as a new UUID: the compare-and-set on the invite succeeds at most
  once, and not at all unless the invite was stored as not accepted; the deliveries of its event
  announce its acceptance at most as often; and its entry in the bucket either is untouched or went
  from pending to not pending.\<close>

theorem accepted_at_most_once:
  assumes "pool K (map (dispatchMsg (plat_golib pf) (wireServer pf cfg)) ms) tr K' qs"
    "isUid uid" "EUUID uid \<notin> snd ` set tr"
  shows "announced (deliveries uid ms) tr \<le> successes uid tr
    \<and> successes uid tr \<le> (if pendingAt K uid then 1 else 0)
    \<and> (K' uid = K uid \<or> pendingAt K uid \<and> \<not> pendingAt K' uid)"
proof -
  let ?ps = "map (dispatchMsg (plat_golib pf) (wireServer pf cfg)) ms"
  have "\<forall>p \<in> set ?ps. guarded uid p {}" using handler_guarded [OF assms(2)] by auto
  note once = pool_once [OF assms(1) this assms(3)]
  have "credit uid (?ps ! i) 0" if "i \<in> deliveries uid ms" for i
    using that HandleInviteAccepted_credit
    by (auto simp: deliveries_def dispatchMsg_def handleInviteAccepted_def subject_defs)
  then have "announced (deliveries uid ms) tr \<le> successes uid tr"
    using pool_credit [OF assms(1), of "deliveries uid ms" uid] by (fastforce simp: deliveries_def)
  with once show ?thesis by (auto split: if_splits)
qed

text \<open>Two deliveries of the sample event: the second finds the invite accepted.\<close>

lemma sample_two:
  defines "p \<equiv> dispatchMsg (plat_golib samplePlatform) (wireServer samplePlatform sampleConfig) acceptMsg"
  shows "\<exists>tr K' qs. pool (mem_kv sampleMem) [p, p] tr K' qs \<and> successes ''7'' tr = 1 \<and> (\<forall>u. EUUID u \<notin> snd ` set tr)"
proof -
  let ?K = "mem_kv sampleMem"
  let ?K' = "?K(''7'' := (2, Some (recordData acceptedSample)))"
  let ?second = "[EGet ''7'' (Inr (recordData acceptedSample, 2))]"
  have first: "exec p sampleTrace ()" unfolding p_def using sample_acceptance_exec by simp
  have "freshTrace sampleTrace ?K ?K'"
    by (auto simp: sampleTrace_def freshStep_def sample_bucket)
  with first have one: "pool ?K [p, p] ([] @ map (Pair 0) sampleTrace) ?K' ([p, p][0 := Return ()])"
    by (intro pool_exec [where p = p]) (auto intro: pool_start)
  have "exec (HandleInviteAccepted (acceptanceService (\<lambda>r. r) sampleJwt (app_InviteJWTSecret sampleConfig)) acceptEvent) ?second ()"
    by (auto simp: HandleInviteAccepted_def acceptEvent_def GetByUID_def prog_simps sample_json acceptedSample_status)
  then have "exec p ?second ()" by (simp add: p_def sample_dispatch)
  moreover have "freshTrace ?second ?K' ?K'" by (simp add: freshStep_def)
  ultimately have "pool ?K [p, p] (([] @ map (Pair 0) sampleTrace) @ map (Pair 1) ?second) ?K' ([p, p][0 := Return (), 1 := Return ()])"
    by (intro pool_exec [OF _ one]) auto
  moreover have "successes ''7'' (([] @ map (Pair 0) sampleTrace) @ map (Pair 1) ?second) = 1"
    by (simp add: successes_def sampleTrace_def)
  moreover have "\<forall>u. EUUID u \<notin> snd ` set (([] @ map (Pair 0) sampleTrace) @ map (Pair (1::nat)) ?second)"
    by (auto simp: sampleTrace_def)
  ultimately show ?thesis by blast
qed

theorem accepted_at_most_once_witness:
  "\<exists>tr K' qs. pool (mem_kv sampleMem) (map (dispatchMsg (plat_golib samplePlatform) (wireServer samplePlatform sampleConfig))
       [acceptMsg, acceptMsg]) tr K' qs
     \<and> successes ''7'' tr = 1 \<and> announced (deliveries ''7'' [acceptMsg, acceptMsg]) tr \<le> 1"
proof -
  obtain tr K' qs where p: "pool (mem_kv sampleMem) (map (dispatchMsg (plat_golib samplePlatform) (wireServer samplePlatform sampleConfig))
       [acceptMsg, acceptMsg]) tr K' qs" "successes ''7'' tr = 1" "EUUID ''7'' \<notin> snd ` set tr"
    using sample_two by auto
  have "isUid ''7''" by (simp add: isUid_def hasPrefix_def emailIndexPrefix_def)
  from accepted_at_most_once [OF p(1) this p(3)] p show ?thesis by auto
qed

end
