(* ===== verification/Concurrent_Liveness.thy ===== *)
theory Concurrent_Liveness
  imports Concurrency_Properties
begin

text \<open>
  Concurrent acceptance makes progress: however handlers interleave on a bucket whose calls
  succeed, a delivery with a valid token that was handled to its end leaves the invite accepted.
  A lost race is a race against another acceptance of the same invite.
\<close>

section \<open>Interleavings on a reliable bucket\<close>

text \<open>An update fails only because its revision is not the last one.\<close>

fun reliableOn :: "bucket \<Rightarrow> event \<Rightarrow> bool" where
  "reliableOn K (EUpdate k v r (Inl e)) \<longleftrightarrow> isRejection e \<and> fst (K k) \<noteq> r"
| "reliableOn K e \<longleftrightarrow> reliableEvent e"

inductive reliablePool :: "bucket \<Rightarrow> 'a prog list \<Rightarrow> (nat \<times> event) list \<Rightarrow> bucket \<Rightarrow> 'a prog list \<Rightarrow> bool" where
  reliable_start: "reliablePool K ps [] K ps"
| reliable_step: "reliablePool K ps tr K1 qs \<Longrightarrow> i < length qs \<Longrightarrow> pstep (qs ! i) e q \<Longrightarrow> freshStep e K1 K2 \<Longrightarrow>
     reliableOn K1 e \<Longrightarrow> reliablePool K ps (tr @ [(i, e)]) K2 (qs[i := q])"

lemma reliablePool_pool: "reliablePool K ps tr K' qs \<Longrightarrow> pool K ps tr K' qs"
  by (induction rule: reliablePool.induct) (auto intro: pool.intros)

section \<open>Programs that settle an invite\<close>

definition acceptedAt :: "bucket \<Rightarrow> string \<Rightarrow> bool" where
  "acceptedAt K uid \<longleftrightarrow> (\<exists>v. snd (K uid) = Some v \<and> acceptedValue v)"

text \<open>
  \<open>settles ok uid v n p\<close>: as long as the clock answers times in ok and the entry of uid is v at
  revision n, p goes on to a compare-and-set on it at that revision.
\<close>

primrec settles :: "(time \<Rightarrow> bool) \<Rightarrow> string \<Rightarrow> string \<Rightarrow> nat \<Rightarrow> 'a prog \<Rightarrow> bool" where
  "settles ok uid v n (Return a) = False"
| "settles ok uid v n (Now f) = (\<forall>t. ok t \<longrightarrow> settles ok uid v n (f t))"
| "settles ok uid v n (NewUUID f) = (\<forall>x. settles ok uid v n (f x))"
| "settles ok uid v n (CtxErr f) = (\<forall>x. settles ok uid v n (f x))"
| "settles ok uid v n (RangeMap m f) = (\<forall>x. settles ok uid v n (f x))"
| "settles ok uid v n (KvGet k f) = (if k = uid then settles ok uid v n (f (Inr (v, n))) else \<forall>x. settles ok uid v n (f x))"
| "settles ok uid v n (KvPut k w f) = (\<forall>x. settles ok uid v n (f x))"
| "settles ok uid v n (KvUpdate k w r f) = (if k = uid then r = n else \<forall>x. settles ok uid v n (f x))"
| "settles ok uid v n (KvDelete k f) = (\<forall>x. settles ok uid v n (f x))"
| "settles ok uid v n (KvListKeys f) = (\<forall>x. settles ok uid v n (f x))"
| "settles ok uid v n (NatsRequest c d f) = (\<forall>x. settles ok uid v n (f x))"
| "settles ok uid v n (NatsPublish c d f) = (\<forall>x. settles ok uid v n (f x))"
| "settles ok uid v n (MsgReply d f) = (\<forall>x. settles ok uid v n (f x))"
| "settles ok uid v n (Audit e p) = settles ok uid v n p"

text \<open>A guarded program changes the entry only into an accepted one, by a compare-and-set that succeeds.\<close>

lemma guarded_accepts:
  assumes "pstep p e q" "guarded uid p seen" "freshStep e K K'" "reliableOn K e" "e \<noteq> EUUID uid"
  shows "K' uid = K uid \<or> acceptedAt K' uid \<and> isSuccess uid e"
proof -
  have k: "kvStep e K K'" using assms(3) by (simp add: freshStep_def)
  show ?thesis
    using assms(1)
  proof cases
    case (6 k v f x)
    with k assms(2) show ?thesis by (cases x) auto
  next
    case (7 k v r f x)
    with k assms(2,4) show ?thesis by (cases x) (auto simp: acceptedAt_def)
  next
    case (8 k f x)
    with k assms(2) show ?thesis by (cases x) auto
  qed (use k in \<open>auto dest: kvStep_noWrite\<close>)
qed

text \<open>One call of a program that settles: the invite is accepted now, or nothing has changed.\<close>

lemma settles_step:
  assumes "pstep p e q" "settles ok uid v n p" "guarded uid p seen" "freshStep e K K'" "reliableOn K e" "K uid = (n, Some v)"
    "\<And>t. e = ENow t \<Longrightarrow> ok t" "e \<noteq> EUUID uid"
  shows "acceptedAt K' uid \<and> isSuccess uid e \<or> K' uid = K uid \<and> settles ok uid v n q"
proof -
  have k: "kvStep e K K'" using assms(4) by (simp add: freshStep_def)
  note keep = guarded_accepts [OF assms(1,3,4,5,8)]
  show ?thesis
    using assms(1)
  proof cases
    case (5 k f x)
    have "x = Inr (v, n)" if "k = uid"
    proof (cases x)
      case (Inl e')
      with 5 that k assms(5,6) show ?thesis by simp
    next
      case (Inr vn)
      with 5 that k assms(6) show ?thesis by (cases vn) simp
    qed
    with 5 assms(2) keep show ?thesis by (auto split: if_splits)
  next
    case (7 k w r f x)
    have "acceptedAt K' uid \<and> isSuccess uid e" if "k = uid"
    proof -
      note u = that
      have "r = n" using 7 u assms(2) by simp
      then obtain m where "x = Inr m" using 7 u assms(5,6) by (cases x) auto
      with 7 u k assms(3) show ?thesis by (auto simp: acceptedAt_def)
    qed
    with 7 assms(2) keep show ?thesis by (auto split: if_splits)
  qed (use assms(2,7) keep in auto)
qed

lemma reliablePool_settles:
  assumes "reliablePool K ps tr K' qs" "\<forall>p \<in> set ps. guarded uid p {}" "EUUID uid \<notin> snd ` set tr" "K uid = (n, Some v)"
    "i < length ps" "settles ok uid v n (ps ! i)" "\<forall>t. (i, ENow t) \<in> set tr \<longrightarrow> ok t"
  shows "acceptedAt K' uid \<and> 0 < successes uid tr \<or> K' uid = K uid \<and> settles ok uid v n (qs ! i)"
  using assms
proof (induction rule: reliablePool.induct)
  case (reliable_step K ps tr K1 qs j e q K2)
  have fresh: "EUUID uid \<notin> snd ` set tr" "e \<noteq> EUUID uid" and clock: "\<forall>t. (i, ENow t) \<in> set tr \<longrightarrow> ok t"
    using reliable_step(8,12) by auto
  have IH: "acceptedAt K1 uid \<and> 0 < successes uid tr \<or> K1 uid = K uid \<and> settles ok uid v n (qs ! i)"
    using reliable_step.IH [OF reliable_step(7) fresh(1) reliable_step(9-11) clock] .
  have "\<forall>q \<in> set qs. knows uid K1 q"
    using pool_once [OF reliablePool_pool [OF reliable_step(1)] reliable_step(7) fresh(1)] by blast
  then obtain seen where g: "guarded uid (qs ! j) seen" using reliable_step(2) unfolding knows_def by force
  note keep = guarded_accepts [OF reliable_step(3) g reliable_step(4,5) fresh(2)]
  show ?case
  proof (cases "acceptedAt K1 uid \<and> 0 < successes uid tr")
    case True
    with keep show ?thesis by (auto simp: acceptedAt_def)
  next
    case False
    with IH have un: "K1 uid = K uid" "settles ok uid v n (qs ! i)" by auto
    show ?thesis
    proof (cases "i = j")
      case True
      have "K1 uid = (n, Some v)" using un(1) reliable_step(9) by simp
      moreover have "ok t" if "e = ENow t" for t using reliable_step(12) that True by simp
      ultimately have "acceptedAt K2 uid \<and> isSuccess uid e \<or> K2 uid = K1 uid \<and> settles ok uid v n q"
        using settles_step [OF reliable_step(3) _ g reliable_step(4,5) _ _ fresh(2)] un(2) True by blast
      with un(1) True reliable_step(2) show ?thesis by auto
    next
      case False
      with keep un show ?thesis by auto
    qed
  qed
qed simp

section \<open>The handler of acceptances\<close>

text \<open>The token verifies at t as one of the record.\<close>

definition tokenOf :: "jwtlib \<Rightarrow> string \<Rightarrow> string \<Rightarrow> InviteRecord \<Rightarrow> time \<Rightarrow> bool" where
  "tokenOf jwt secret token r t \<longleftrightarrow>
     (case jwt_ParseWithClaims jwt verifyOpts secret t token of
        Inl err \<Rightarrow> False
      | Inr claims \<Rightarrow> claimString claims ''jti'' = rec_UID r \<and> claimString claims ''invite_uid'' = rec_UID r
          \<and> claimString claims ''email'' = rcp_Email (rec_Recipient r))"

lemma marshal_acceptRecord:
  assumes "validRecord r" "validUTF8 username" "validTime t"
  shows "\<exists>data. marshalInviteRecord (acceptRecord r username t) = Some data"
proof -
  have "validRecord (acceptRecord r username t)"
    using assms by (simp add: validRecord_def acceptRecord_def validStrings_def InviteStatusAccepted_def validUTF8_ascii is_ascii_Char)
  then show ?thesis by (rule marshal_validRecord)
qed

lemma Verify_tokenOf:
  assumes "rec_UID r \<noteq> []" "rcp_Email (rec_Recipient r) \<noteq> []"
  shows "\<exists>F. Verify jwt secret token = Now F
    \<and> (\<forall>t. tokenOf jwt secret token r t \<longrightarrow> F t = Return (Inr \<lparr>tc_InviteUID = rec_UID r, tc_Email = rcp_Email (rec_Recipient r)\<rparr>))"
  unfolding Verify_def
  by (rule exI, rule conjI, rule refl) (use assms in \<open>auto simp: tokenOf_def Let_def split: sum.splits\<close>)

lemma HandleInviteAccepted_settles:
  assumes "unmarshalInviteRecord v = Some r" "rec_Status r \<noteq> InviteStatusAccepted" "validRecord r" "rec_UID r \<noteq> []"
    "rcp_Email (rec_Recipient r) \<noteq> []" "rcp_Username (rec_Recipient r) = [] \<or> evt_Username evt = rcp_Username (rec_Recipient r)"
    "evt_InviteUID evt = uid" "uid \<noteq> []" "evt_Username evt \<noteq> []" "validUTF8 (evt_Username evt)" "evt_Token evt \<noteq> []"
    "\<And>t. ok t \<Longrightarrow> validTime t \<and> before t (rec_ExpiresAt r) \<and> tokenOf jwt secret (evt_Token evt) r t"
  shows "settles ok uid v n (HandleInviteAccepted (acceptanceService u jwt secret) evt)"
proof -
  have mark: "settles ok uid v n (bind (MarkAccepted uid (evt_Username evt) t) g)" if "ok t" for t g
  proof -
    note now = assms(12) [OF that]
    obtain data where "marshalInviteRecord (acceptRecord r (evt_Username evt) t) = Some data"
      using marshal_acceptRecord [OF assms(3,10)] now by blast
    with assms(1,2) now assms(12) show ?thesis
      by (simp add: MarkAccepted_def maxMarkAcceptedRetries_def eval_nat_numeral Let_def)
  qed
  have verify: "settles ok uid v n (bind (verifyAcceptance (acceptanceService u jwt secret) evt r t) (\<lambda>x. case x of
              Some err \<Rightarrow> Return ()
            | None \<Rightarrow> bind (MarkAccepted uid (evt_Username evt) t) g))" if "ok t" for t g
  proof -
    note now = assms(12) [OF that]
    obtain F where F: "Verify jwt secret (evt_Token evt) = Now F"
      "\<forall>t. tokenOf jwt secret (evt_Token evt) r t \<longrightarrow> F t = Return (Inr \<lparr>tc_InviteUID = rec_UID r, tc_Email = rcp_Email (rec_Recipient r)\<rparr>)"
      using Verify_tokenOf [OF assms(4,5)] by blast
    have "F t' = Return (Inr \<lparr>tc_InviteUID = rec_UID r, tc_Email = rcp_Email (rec_Recipient r)\<rparr>)" if "ok t'" for t'
      using F(2) assms(12) [OF that] by blast
    with now F(1) assms(6,11) mark [OF that, of g] show ?thesis
      by (auto simp: verifyAcceptance_def)
  qed
  show ?thesis
    using assms(1,2,7-9) verify
    by (auto simp: HandleInviteAccepted_def GetByUID_def)
qed

section \<open>Acceptance settles\<close>

text \<open>The record waits for this event: pending, with the event's token and username in order.\<close>

definition awaits :: "InviteRecord \<Rightarrow> InviteAcceptedEvent \<Rightarrow> bool" where
  "awaits r evt \<longleftrightarrow> rec_Status r \<noteq> InviteStatusAccepted \<and> validRecord r \<and> rec_UID r \<noteq> []
     \<and> rcp_Email (rec_Recipient r) \<noteq> []
     \<and> (rcp_Username (rec_Recipient r) = [] \<or> evt_Username evt = rcp_Username (rec_Recipient r))
     \<and> evt_InviteUID evt \<noteq> [] \<and> evt_Username evt \<noteq> [] \<and> evt_Token evt \<noteq> []"

text \<open>C5: Concurrent acceptance makes progress: in every interleaving of any number of handlers on a bucket
  whose calls succeed, if a delivery of the event of a pending invite was handled to its end, while
  the clock stood before the expiry and the token verified for the record, then the invite is
  accepted, by exactly one compare-and-set. Losing a race is losing it to another acceptance, so no
  handler runs out of attempts with the invite still pending.\<close>

theorem concurrent_acceptance_settles:
  assumes "reliablePool K (map (dispatchMsg (plat_golib pf) (wireServer pf cfg)) ms) tr K' qs"
    "i < length ms" "msg_Subject (ms ! i) = InviteAcceptedSubject"
    "unmarshalInviteAcceptedEvent (msg_Data (ms ! i)) = Some evt" "qs ! i = Return ()"
    "K (evt_InviteUID evt) = (n, Some v)" "unmarshalInviteRecord v = Some r" "awaits r evt"
    "isUid (evt_InviteUID evt)" "EUUID (evt_InviteUID evt) \<notin> snd ` set tr"
    "\<forall>t. (i, ENow t) \<in> set tr \<longrightarrow> validTime t \<and> before t (rec_ExpiresAt r)
       \<and> tokenOf (plat_jwt pf) (app_InviteJWTSecret cfg) (evt_Token evt) r t"
  shows "acceptedAt K' (evt_InviteUID evt) \<and> successes (evt_InviteUID evt) tr = 1"
proof -
  let ?uid = "evt_InviteUID evt"
  let ?ps = "map (dispatchMsg (plat_golib pf) (wireServer pf cfg)) ms"
  define ok where "ok t \<longleftrightarrow> validTime t \<and> before t (rec_ExpiresAt r)
       \<and> tokenOf (plat_jwt pf) (app_InviteJWTSecret cfg) (evt_Token evt) r t" for t
  have g: "\<forall>p \<in> set ?ps. guarded ?uid p {}" using handler_guarded [OF assms(9)] by auto
  have "?ps ! i = HandleInviteAccepted (acceptanceService (lib_lower (plat_golib pf)) (plat_jwt pf) (app_InviteJWTSecret cfg)) evt"
    using assms(2-4) by (simp add: dispatchMsg_def handleInviteAccepted_def wireServer_acceptSvc subject_defs)
  moreover have "settles ok ?uid v n (HandleInviteAccepted (acceptanceService u (plat_jwt pf) (app_InviteJWTSecret cfg)) evt)" for u
    by (rule HandleInviteAccepted_settles [OF assms(7)])
       (use assms(8) evt_valid [OF assms(4)] in \<open>simp_all add: awaits_def ok_def\<close>)
  ultimately have s: "settles ok ?uid v n (?ps ! i)" by simp
  have "i < length ?ps" "\<forall>t. (i, ENow t) \<in> set tr \<longrightarrow> ok t" using assms(2,11) by (simp_all add: ok_def)
  from reliablePool_settles [OF assms(1) g assms(10,6) this(1) s this(2)] assms(5)
  have "acceptedAt K' ?uid" "0 < successes ?uid tr" by auto
  moreover have "successes ?uid tr \<le> 1"
    using pool_once [OF reliablePool_pool [OF assms(1)] g assms(10)] by (auto split: if_splits)
  ultimately show ?thesis by simp
qed

fun reliableTrace :: "event list \<Rightarrow> bucket \<Rightarrow> bucket \<Rightarrow> bool" where
  "reliableTrace [] K K' = (K' = K)"
| "reliableTrace (e # tr) K K' = (\<exists>K1. freshStep e K K1 \<and> reliableOn K e \<and> reliableTrace tr K1 K')"

lemma reliablePool_exec:
  "exec p tr a \<Longrightarrow> reliablePool K0 ps tr0 K qs \<Longrightarrow> i < length qs \<Longrightarrow> qs ! i = p \<Longrightarrow> reliableTrace tr K K' \<Longrightarrow>
   reliablePool K0 ps (tr0 @ map (Pair i) tr) K' (qs[i := Return a])"
proof (induction tr arbitrary: p tr0 K qs)
  case Nil
  then have "qs ! i = Return a" by (auto elim: exec.cases)
  then have "qs[i := Return a] = qs" by (metis list_update_id)
  with Nil show ?case by simp
next
  case (Cons e tr)
  obtain q where q: "pstep p e q" "exec q tr a" using exec_pstep [OF Cons.prems(1)] by blast
  obtain K1 where K1: "freshStep e K K1" "reliableOn K e" "reliableTrace tr K1 K'" using Cons.prems(5) by auto
  have "reliablePool K0 ps (tr0 @ [(i, e)]) K1 (qs[i := q])"
    using Cons.prems q(1) K1(1,2) by (auto intro: reliable_step)
  from Cons.IH [OF q(2) this _ _ K1(3)] Cons.prems(3) show ?case by simp
qed

theorem concurrent_acceptance_settles_witness:
  "\<exists>tr K' qs. reliablePool (mem_kv sampleMem) (map (dispatchMsg (plat_golib samplePlatform) (wireServer samplePlatform sampleConfig))
       [acceptMsg, acceptMsg]) tr K' qs
     \<and> acceptedAt K' ''7'' \<and> successes ''7'' tr = 1"
proof -
  let ?p = "dispatchMsg (plat_golib samplePlatform) (wireServer samplePlatform sampleConfig) acceptMsg"
  let ?K = "mem_kv sampleMem"
  let ?K' = "?K(''7'' := (2, Some (recordData acceptedSample)))"
  have first: "exec ?p sampleTrace ()" using sample_acceptance_exec by simp
  have "reliableTrace sampleTrace ?K ?K'"
    by (auto simp: sampleTrace_def freshStep_def sample_bucket)
  with first have "reliablePool ?K [?p, ?p] ([] @ map (Pair 0) sampleTrace) ?K' ([?p, ?p][0 := Return ()])"
    by (intro reliablePool_exec [where p = ?p]) (auto intro: reliable_start)
  then have pool: "reliablePool ?K (map (dispatchMsg (plat_golib samplePlatform) (wireServer samplePlatform sampleConfig)) [acceptMsg, acceptMsg])
      (map (Pair 0) sampleTrace) ?K' [Return (), ?p]" by simp
  have evt: "unmarshalInviteAcceptedEvent (msg_Data ([acceptMsg, acceptMsg] ! 0)) = Some acceptEvent"
    using acceptMsg_event by simp
  have uid: "isUid ''7''" by (simp add: isUid_def hasPrefix_def emailIndexPrefix_def)
  have aw: "awaits sampleRecord acceptEvent"
    using valid_sampleRecord by (simp add: awaits_def acceptEvent_def)
  have clock: "\<forall>t. (0, ENow t) \<in> set (map (Pair 0) sampleTrace) \<longrightarrow> t = 5 * nsPerSecond"
    by (auto simp: sampleTrace_def)
  have tok: "tokenOf (plat_jwt samplePlatform) (app_InviteJWTSecret sampleConfig) (evt_Token acceptEvent) sampleRecord (5 * nsPerSecond)"
    by (simp add: tokenOf_def samplePlatform_def sampleJwt_def acceptEvent_def claimString_def)
  have "acceptedAt ?K' (evt_InviteUID acceptEvent) \<and> successes (evt_InviteUID acceptEvent) (map (Pair (0::nat)) sampleTrace) = 1"
    by (rule concurrent_acceptance_settles [OF pool _ _ evt, of 1 "recordData sampleRecord" sampleRecord])
       (use uid aw clock tok before_samples validTime_samples sample_bucket sample_json in
         \<open>auto simp: acceptEvent_def acceptMsg_def sampleTrace_def\<close>)
  with pool show ?thesis by (auto simp: acceptEvent_def)
qed

end
