(* ===== verification/Bucket_Invariants.thy ===== *)
theory Bucket_Invariants
  imports Concurrency_Properties
begin

text \<open>
  Invariants of the values in the bucket. \<open>keepsBy V U p\<close> says that p, as long as it reads only
  values that V allows under their keys and draws only UUIDs in U, writes only such values. Pools
  of such programs keep every value allowed, also when calls fail or lose their acknowledgement.
\<close>

section \<open>Programs that write allowed values\<close>

fun getBy :: "(string \<Rightarrow> string \<Rightarrow> bool) \<Rightarrow> string \<Rightarrow> liberr + (string \<times> nat) \<Rightarrow> bool" where
  "getBy V k (Inr (v, n)) \<longleftrightarrow> V k v"
| "getBy V k (Inl e) \<longleftrightarrow> True"

primrec keepsBy :: "(string \<Rightarrow> string \<Rightarrow> bool) \<Rightarrow> (string \<Rightarrow> bool) \<Rightarrow> 'a prog \<Rightarrow> bool" where
  "keepsBy V U (Return a) \<longleftrightarrow> True"
| "keepsBy V U (Now f) \<longleftrightarrow> (\<forall>x. keepsBy V U (f x))"
| "keepsBy V U (NewUUID f) \<longleftrightarrow> (\<forall>x. U x \<longrightarrow> keepsBy V U (f x))"
| "keepsBy V U (CtxErr f) \<longleftrightarrow> (\<forall>x. keepsBy V U (f x))"
| "keepsBy V U (RangeMap m f) \<longleftrightarrow> (\<forall>x. mset x = mset m \<longrightarrow> keepsBy V U (f x))"
| "keepsBy V U (KvGet k f) \<longleftrightarrow> (\<forall>x. getBy V k x \<longrightarrow> keepsBy V U (f x))"
| "keepsBy V U (KvPut k v f) \<longleftrightarrow> V k v \<and> (\<forall>x. keepsBy V U (f x))"
| "keepsBy V U (KvUpdate k v r f) \<longleftrightarrow> V k v \<and> (\<forall>x. keepsBy V U (f x))"
| "keepsBy V U (KvDelete k f) \<longleftrightarrow> (\<forall>x. keepsBy V U (f x))"
| "keepsBy V U (KvListKeys f) \<longleftrightarrow> (\<forall>x. keepsBy V U (f x))"
| "keepsBy V U (NatsRequest c d f) \<longleftrightarrow> (\<forall>x. keepsBy V U (f x))"
| "keepsBy V U (NatsPublish c d f) \<longleftrightarrow> (\<forall>x. keepsBy V U (f x))"
| "keepsBy V U (MsgReply d f) \<longleftrightarrow> (\<forall>x. keepsBy V U (f x))"
| "keepsBy V U (Audit e p) \<longleftrightarrow> keepsBy V U p"

lemma keepsBy_bind: "keepsBy V U p \<Longrightarrow> (\<And>a. keepsBy V U (g a)) \<Longrightarrow> keepsBy V U (bind p g)"
  by (induction p) auto

lemma keepsBy_readOnly: "calls readOnly p \<Longrightarrow> keepsBy V U p"
  by (induction p) auto

lemma keepsBy_choice:
  "(\<And>x. keepsBy V U (f x)) \<Longrightarrow> (\<And>y. keepsBy V U (g y)) \<Longrightarrow> keepsBy V U (case_sum f g s)"
  "keepsBy V U p \<Longrightarrow> (\<And>x. keepsBy V U (h x)) \<Longrightarrow> keepsBy V U (case_option p h v)"
  "keepsBy V U p \<Longrightarrow> keepsBy V U q \<Longrightarrow> keepsBy V U (if c then p else q)"
  by (auto split: sum.splits option.splits)

lemmas keepsBy_intros = keepsBy_bind keepsBy_choice

lemma keepsBy_calls:
  "keepsBy V U (Publish subj d)" "keepsBy V U (Reply m d)" "keepsBy V U (replyError m code)"
  "keepsBy V U (replyGetInviteError m code)" "keepsBy V U (replyGetByEmailError m code)"
  "keepsBy V U (SendNotification elib subj payload)" "keepsBy V U (DeleteInvite u uid)"
  unfolding Publish_def Reply_def replyError_def replyGetInviteError_def replyGetByEmailError_def SendNotification_def
    Request_def DeleteInvite_def
  by (auto intro!: keepsBy_bind split: option.splits sum.splits)

section \<open>Interleavings keep allowed values\<close>

definition bucketBy :: "(string \<Rightarrow> string \<Rightarrow> bool) \<Rightarrow> bucket \<Rightarrow> bool" where
  "bucketBy V K \<longleftrightarrow> (\<forall>k v. snd (K k) = Some v \<longrightarrow> V k v)"

lemma keepsBy_step:
  assumes "pstep p e q" "keepsBy V U p" "kvStep e K K'" "bucketBy V K" "\<And>u. e = EUUID u \<Longrightarrow> U u"
  shows "keepsBy V U q \<and> bucketBy V K'"
  using assms
proof (induction rule: pstep.induct)
  case (5 k f x)
  have K: "K' = K" using 5(2) by (auto dest: kvStep_noWrite)
  have "getBy V k x"
    using 5(2,3) by (cases x) (auto simp: bucketBy_def)
  with 5 K show ?case by simp
next
  case (6 k v f x)
  then show ?case by (cases x) (auto simp: bucketBy_def split: if_splits)
next
  case (7 k v r f x)
  then show ?case by (cases x) (auto simp: bucketBy_def split: if_splits)
next
  case (8 k f x)
  then show ?case by (cases x) (auto simp: bucketBy_def split: if_splits)
next
  case (9 f x)
  then have "K' = K" by (auto dest: kvStep_noWrite)
  with 9 show ?case by simp
qed auto

text \<open>The UUIDs may differ from program to program.\<close>

lemma pool_keepsBy:
  assumes "pool K ps tr K' qs" "\<forall>i < length ps. keepsBy V (U i) (ps ! i)" "bucketBy V K"
    "\<forall>i u. (i, EUUID u) \<in> set tr \<longrightarrow> U i u"
  shows "(\<forall>i < length qs. keepsBy V (U i) (qs ! i)) \<and> bucketBy V K'"
  using assms
proof (induction rule: pool.induct)
  case (pool_step K ps tr K1 qs i e q K2)
  then have IH: "\<forall>i < length qs. keepsBy V (U i) (qs ! i)" "bucketBy V K1" by auto
  have "keepsBy V (U i) q \<and> bucketBy V K2"
    by (rule keepsBy_step [OF pool_step(3), where K = K1]) (use pool_step IH in \<open>auto simp: freshStep_def\<close>)
  with IH(1) pool_step(2) show ?case by (simp add: nth_list_update)
qed simp

section \<open>The handlers\<close>

text \<open>
  What V must allow: an accepted record in place of the one that was read, and the record and the
  index entry of a send under a UUID in U.
\<close>

lemma MarkAccepted_keepsBy:
  assumes "\<And>v r t data. V k v \<Longrightarrow> unmarshalInviteRecord v = Some r \<Longrightarrow> before t (rec_ExpiresAt r) \<Longrightarrow>
      marshalInviteRecord (acceptRecord r username t) = Some data \<Longrightarrow> V k data"
  shows "keepsBy V U (MarkAccepted k username t)"
proof -
  have "keepsBy V U (markAttempts n k username t)" for n
  proof (induction n)
    case (Suc n)
    then show ?case
      using assms by (auto simp: Let_def intro!: keepsBy_choice split: sum.splits option.splits)
  qed simp
  then show ?thesis by (simp add: MarkAccepted_def)
qed

lemma HandleInviteAccepted_keepsBy:
  assumes "evt_Username evt \<noteq> [] \<Longrightarrow> (\<And>v r t data. V (evt_InviteUID evt) v \<Longrightarrow> unmarshalInviteRecord v = Some r \<Longrightarrow>
      before t (rec_ExpiresAt r) \<Longrightarrow> marshalInviteRecord (acceptRecord r (evt_Username evt) t) = Some data \<Longrightarrow>
      V (evt_InviteUID evt) data)"
  shows "keepsBy V U (HandleInviteAccepted (acceptanceService u jwt secret) evt)"
proof -
  have verify: "calls readOnly (verifyAcceptance (acceptanceService u jwt secret) evt rc now)" for rc now
    unfolding verifyAcceptance_def by (auto intro!: call_intros Verify_calls split: sum.splits)
  have mark: "keepsBy V U (MarkAccepted (evt_InviteUID evt) (evt_Username evt) t)" if "evt_Username evt \<noteq> []" for t
    by (rule MarkAccepted_keepsBy) (rule assms [OF that])
  show ?thesis
    unfolding HandleInviteAccepted_def publishAccepted_def Let_def
    by (auto intro!: keepsBy_intros keepsBy_readOnly [OF GetByUID_calls] keepsBy_readOnly [OF verify] mark keepsBy_calls
        split: sum.splits option.splits)
qed

lemma Create_keepsBy:
  assumes "\<And>data. marshalInviteRecord r = Some data \<Longrightarrow> V (rec_UID r) data"
    "V (emailIndexKey u (rcp_Email (rec_Recipient r)) (rec_UID r)) (rec_UID r)"
  shows "keepsBy V U (Create u r)"
  unfolding Create_def using assms by (auto split: option.splits sum.splits)

lemma send_keepsBy:
  assumes req: "requestOK req" and url: "validUTF8 (app_DefaultReturnURL cfg)"
    and lib: "\<forall>a e. lib_ParseAddress (plat_golib pf) a = Inr e \<longrightarrow> validUTF8 e"
    and V: "\<And>email role r data. validateSend (plat_golib pf) (notificationConfig cfg) req = Inr (email, role) \<Longrightarrow>
      U (rec_UID r) \<Longrightarrow> uuidText (rec_UID r) \<Longrightarrow> decodedRecord r \<Longrightarrow> rcp_Email (rec_Recipient r) = email \<Longrightarrow>
      rec_Status r = InviteStatusPending \<Longrightarrow> rec_AcceptedAt r = None \<Longrightarrow> rec_AcceptedBy r = [] \<Longrightarrow>
      (marshalInviteRecord r = Some data \<longrightarrow> V (rec_UID r) data)
      \<and> V (emailIndexKey (lib_lower (plat_golib pf)) email (rec_UID r)) (rec_UID r)"
    and U: "\<And>x. U x \<Longrightarrow> uuidText x"
  shows "keepsBy V U (HandleSendInvite (plat_golib pf) (notificationService pf cfg) req)"
proof (cases "validateSend (plat_golib pf) (notificationConfig cfg) req")
  case (Inl err)
  then show ?thesis by (simp add: HandleSendInvite_def)
next
  case (Inr er)
  obtain email role where er: "er = (email, role)" by (cases er)
  with Inr lib have e: "validUTF8 email" "role = trimSpace (req_Role req)" by (auto simp: validateSend_ok)
  then have r: "validUTF8 role" using req trimSpace_valid by (auto simp: requestOK_def validStrings_def)
  let ?dest = "destinationURL (notificationConfig cfg) req"
  have dispatch: "keepsBy V U (dispatchInvite (notificationService pf cfg) req email role g)" for g
    unfolding dispatchInvite_def emailFailed_def emailSent_def auditNotification_def
    by (auto intro!: keepsBy_bind keepsBy_calls split: option.splits)
  have persist: "keepsBy V U (persistInvite (notificationService pf cfg) req email ?dest role g)"
    if g: "U (gl_InviteUID g)" "gl_AcceptedClaims g = nonReserved (req_CustomClaims req)" for g
  proof -
    have "keepsBy V U (Create (lib_lower (plat_golib pf)) (inviteRecordAt now (gl_InviteUID g) req email ?dest role (gl_ExpiresAt g) (gl_AcceptedClaims g)))"
      (is "keepsBy V U (Create _ ?r)") for now
    proof (rule Create_keepsBy)
      have "decodedRecord ?r"
        unfolding g(2) using decodedRecord_request [OF req uuidText_valid [OF U [OF g(1)]] e(1) url r] .
      note w = V [OF Inr [unfolded er], of ?r, simplified, OF g(1) U [OF g(1)] this, simplified]
      have ab: "rec_AcceptedBy ?r = []" by (simp add: inviteRecordAt_def Let_def)
      show "V (rec_UID ?r) data" if "marshalInviteRecord ?r = Some data" for data using w [OF ab] that by simp
      show "V (emailIndexKey (lib_lower (plat_golib pf)) (rcp_Email (rec_Recipient ?r)) (rec_UID ?r)) (rec_UID ?r)"
        using w [OF ab] by simp
    qed
    then show ?thesis
      unfolding persistInvite_def buildInviteRecord_def
      by (auto intro!: keepsBy_bind dispatch split: option.splits)
  qed
  have claims: "a = nonReserved (req_CustomClaims req)"
    if "mset x = mset (req_CustomClaims req)" "addCustomClaims x (serviceClaims n t u p) [] = Inr (c', a)" for x n t u p c' a
    using addCustomClaims_range(1) [OF _ that(1) wf_serviceClaims that(2)] req by (simp add: requestOK_def validClaims_def)
  show ?thesis
    unfolding HandleSendInvite_def Let_def
    by (auto simp: Inr er Generate_def Let_def linkPayload_def intro!: persist dest: claims split: sum.splits)
qed

text \<open>
  The three conditions on V together: \<open>allowsAccept\<close> for events, \<open>allowsSend\<close> for a request under the
  UUIDs in U.
\<close>

definition allowsAccept :: "(string \<Rightarrow> string \<Rightarrow> bool) \<Rightarrow> bool" where
  "allowsAccept V \<longleftrightarrow> (\<forall>k v r username t data. V k v \<longrightarrow> unmarshalInviteRecord v = Some r \<longrightarrow> validUTF8 username \<longrightarrow>
     username \<noteq> [] \<longrightarrow> before t (rec_ExpiresAt r) \<longrightarrow> marshalInviteRecord (acceptRecord r username t) = Some data \<longrightarrow> V k data)"

definition allowsSend :: "(string \<Rightarrow> string \<Rightarrow> bool) \<Rightarrow> (string \<Rightarrow> bool) \<Rightarrow> platform \<Rightarrow> AppConfig \<Rightarrow> SendInviteRequest \<Rightarrow> bool" where
  "allowsSend V U pf cfg req \<longleftrightarrow> (\<forall>email role r data. validateSend (plat_golib pf) (notificationConfig cfg) req = Inr (email, role) \<longrightarrow>
     U (rec_UID r) \<longrightarrow> uuidText (rec_UID r) \<longrightarrow> decodedRecord r \<longrightarrow> rcp_Email (rec_Recipient r) = email \<longrightarrow>
     rec_Status r = InviteStatusPending \<longrightarrow> rec_AcceptedAt r = None \<longrightarrow> rec_AcceptedBy r = [] \<longrightarrow>
     (marshalInviteRecord r = Some data \<longrightarrow> V (rec_UID r) data)
     \<and> V (emailIndexKey (lib_lower (plat_golib pf)) email (rec_UID r)) (rec_UID r))"

lemma handler_keepsBy:
  assumes cfg: "validUTF8 (app_DefaultReturnURL cfg)" "\<forall>a e. lib_ParseAddress (plat_golib pf) a = Inr e \<longrightarrow> validUTF8 e"
    and accept: "allowsAccept V"
    and send: "\<And>areq. unmarshalSendInviteRequest (msg_Data m) = Some areq \<Longrightarrow> allowsSend V U pf cfg (apiToModelRequest areq)"
    and U: "\<And>x. U x \<Longrightarrow> uuidText x"
  shows "keepsBy V U (dispatchMsg (plat_golib pf) (wireServer pf cfg) m)"
proof -
  have s: "keepsBy V U (HandleSendInvite (plat_golib pf) (notificationService pf cfg) (apiToModelRequest areq))"
    if "unmarshalSendInviteRequest (msg_Data m) = Some areq" for areq
    by (rule send_keepsBy [OF unmarshal_requestOK [OF that] cfg])
       (use send [OF that] U in \<open>auto simp: allowsSend_def\<close>)
  have "keepsBy V U (handleSendInvite (plat_golib pf) (wireServer pf cfg) m)"
    unfolding handleSendInvite_def wireServer_simps Let_def
    by (auto intro!: keepsBy_intros s keepsBy_calls split: option.splits)
  moreover have "keepsBy V U (handleInviteAccepted (wireServer pf cfg) m)"
    unfolding handleInviteAccepted_def wireServer_acceptSvc
    using accept evt_valid unfolding allowsAccept_def
    by (auto intro!: HandleInviteAccepted_keepsBy split: option.splits) blast
  moreover have "keepsBy V U (handleGetInvite (wireServer pf cfg) m)"
    unfolding handleGetInvite_def wireServer_simps Let_def
    by (intro keepsBy_intros keepsBy_readOnly [OF GetInvite_calls] keepsBy_calls) simp_all
  moreover have "keepsBy V U (handleGetInvitesByEmail (plat_golib pf) (wireServer pf cfg) m)"
    unfolding handleGetInvitesByEmail_def wireServer_simps
    by (intro keepsBy_intros keepsBy_readOnly [OF GetInvitesByEmail_calls] keepsBy_calls) simp_all
  ultimately show ?thesis by (simp add: dispatchMsg_def)
qed

end
