(* ===== verification/Store_Spec.thy ===== *)
theory Store_Spec
  imports Query_Laws
begin

text \<open>
  The abstract invite store: records by UID and an index by email, with one step per operation. Any
  sequence of operations on a store that keeps the contract refines the sequence of abstract
  steps, and the repository keeps the contract on every bucket that keeps its own.
\<close>

section \<open>Operations and abstract steps\<close>

datatype storeOp =
    OpCreate InviteRecord
  | OpGetByUID string
  | OpGetByEmail string
  | OpMarkAccepted string string time
  | OpDelete string

datatype storeResult =
    Ended "goerr option"
  | Got "goerr + InviteRecord"
  | Listed "goerr + InviteRecord list"

fun perform :: "InviteStore \<Rightarrow> storeOp \<Rightarrow> storeResult prog" where
  "perform st (OpCreate r) = bind (st_Create st r) (\<lambda>e. Return (Ended e))"
| "perform st (OpGetByUID uid) = bind (st_GetByUID st uid) (\<lambda>x. Return (Got x))"
| "perform st (OpGetByEmail email) = bind (st_GetByEmail st email) (\<lambda>x. Return (Listed x))"
| "perform st (OpMarkAccepted uid username t) = bind (st_MarkAccepted st uid username t) (\<lambda>e. Return (Ended e))"
| "perform st (OpDelete uid) = bind (st_Delete st uid) (\<lambda>e. Return (Ended e))"

fun performs :: "InviteStore \<Rightarrow> storeOp list \<Rightarrow> storeResult list prog" where
  "performs st [] = Return []"
| "performs st (op # ops) = bind (perform st op) (\<lambda>x. bind (performs st ops) (\<lambda>xs. Return (x # xs)))"

text \<open>Arguments the handlers pass: UIDs are no index keys, strings are UTF-8.\<close>

fun opOK :: "storeOp \<Rightarrow> bool" where
  "opOK (OpCreate r) \<longleftrightarrow> isUid (rec_UID r) \<and> decodedRecord r"
| "opOK (OpGetByUID uid) \<longleftrightarrow> isUid uid"
| "opOK (OpGetByEmail email) \<longleftrightarrow> True"
| "opOK (OpMarkAccepted uid username t) \<longleftrightarrow> isUid uid \<and> validUTF8 username"
| "opOK (OpDelete uid) \<longleftrightarrow> isUid uid"

text \<open>The abstract state: records, and the pairs of email and UID in the index.\<close>

type_synonym absStore = "(string \<rightharpoonup> InviteRecord) \<times> (string \<Rightarrow> string \<Rightarrow> bool)"

text \<open>
  An operation that reports success does what it says; one that reports an error changes at most
  the entries of its own UID, and for an acceptance at most by that acceptance. Keys that are no
  UIDs (those of the index itself) hold no records worth a promise.
\<close>

definition agree :: "(string \<rightharpoonup> InviteRecord) \<Rightarrow> (string \<rightharpoonup> InviteRecord) \<Rightarrow> bool" where
  "agree R R' \<longleftrightarrow> (\<forall>k. isUid k \<longrightarrow> R k = R' k)"

fun storeStep :: "storeOp \<Rightarrow> storeResult \<Rightarrow> absStore \<Rightarrow> absStore \<Rightarrow> bool" where
  "storeStep (OpCreate r) (Ended None) (R, I) (R', I') \<longleftrightarrow>
     agree R' (R(rec_UID r \<mapsto> r)) \<and> I' (rcp_Email (rec_Recipient r)) (rec_UID r)
     \<and> (\<forall>e k. k \<noteq> rec_UID r \<longrightarrow> I' e k = I e k)"
| "storeStep (OpCreate r) (Ended (Some err)) (R, I) (R', I') \<longleftrightarrow>
     (\<forall>k. k \<noteq> rec_UID r \<longrightarrow> (isUid k \<longrightarrow> R' k = R k) \<and> (\<forall>e. I' e k = I e k))"
| "storeStep (OpGetByUID uid) (Got x) (R, I) A' \<longleftrightarrow>
     A' = (R, I) \<and> (case x of Inr r \<Rightarrow> R uid = Some r | Inl err \<Rightarrow> errors_Is err ErrInviteNotFound \<longrightarrow> R uid = None)"
| "storeStep (OpGetByEmail email) (Listed x) (R, I) A' \<longleftrightarrow>
     A' = (R, I) \<and> (case x of
        Inr rs \<Rightarrow> set rs = {r. \<exists>uid. I email uid \<and> R uid = Some r}
      | Inl err \<Rightarrow> True)"
| "storeStep (OpMarkAccepted uid username t) (Ended None) (R, I) (R', I') \<longleftrightarrow>
     accepts R uid username t R' \<and> I' = I"
| "storeStep (OpMarkAccepted uid username t) (Ended (Some err)) (R, I) (R', I') \<longleftrightarrow>
     (R' = R \<or> noSentinel err \<and> accepts R uid username t R') \<and> I' = I"
| "storeStep (OpDelete uid) (Ended None) (R, I) (R', I') \<longleftrightarrow>
     agree R' (R(uid := None)) \<and> (\<forall>e k. k \<noteq> uid \<longrightarrow> I' e k = I e k)"
| "storeStep (OpDelete uid) (Ended (Some err)) (R, I) (R', I') \<longleftrightarrow>
     (\<forall>k. k \<noteq> uid \<longrightarrow> (isUid k \<longrightarrow> R' k = R k) \<and> (\<forall>e. I' e k = I e k))"
| "storeStep _ _ _ _ \<longleftrightarrow> False"

fun storeSteps :: "storeOp list \<Rightarrow> storeResult list \<Rightarrow> absStore \<Rightarrow> absStore \<Rightarrow> bool" where
  "storeSteps [] [] A A' \<longleftrightarrow> A' = A"
| "storeSteps (op # ops) (x # xs) A A' \<longleftrightarrow> (\<exists>B. storeStep op x A B \<and> storeSteps ops xs B A')"
| "storeSteps _ _ _ _ \<longleftrightarrow> False"

section \<open>The contract of the index\<close>

locale indexed_store = invite_store +
  assumes index_getByUID: "run env (st_GetByUID store uid) s = (x, s') \<Longrightarrow> indexed s' = indexed s"
    and index_getByEmail: "run env (st_GetByEmail store email) s = (y, s') \<Longrightarrow> indexed s' = indexed s"
    and index_markAccepted: "isUid uid \<Longrightarrow> run env (st_MarkAccepted store uid username t) s = (e, s') \<Longrightarrow> indexed s' = indexed s"
    and index_create: "isUid (rec_UID r) \<Longrightarrow> run env (st_Create store r) s = (e, s') \<Longrightarrow> k \<noteq> rec_UID r \<Longrightarrow>
          indexed s' email k = indexed s email k"
    and index_delete: "isUid uid \<Longrightarrow> run env (st_Delete store uid) s = (e, s') \<Longrightarrow> k \<noteq> uid \<Longrightarrow>
          indexed s' email k = indexed s email k"

context indexed_store
begin

definition absState where
  "absState s = (recs s, indexed s)"

lemma perform_refines:
  assumes "opOK op" "run env (perform store op) s = (x, s')"
  shows "storeStep op x (absState s) (absState s')"
proof (cases op)
  case (OpCreate r)
  from assms(2) OpCreate obtain e where r: "run env (st_Create store r) s = (e, s')" "x = Ended e"
    by (auto simp: prog_simps split: prod.splits)
  have ok: "isUid (rec_UID r)" "decodedRecord r" using assms(1) OpCreate by simp_all
  show ?thesis
  proof (cases e)
    case None
    with r OpCreate ok create_ok [OF ok, of s s'] create_indexed [OF ok(1), of s s'] index_create [OF ok(1) r(1)] show ?thesis
      by (auto simp: absState_def agree_def)
  next
    case (Some err)
    with r OpCreate create_err [OF _ _ r(1)] index_create [OF ok(1) r(1)] show ?thesis by (auto simp: absState_def)
  qed
next
  case (OpGetByUID uid)
  from assms(2) OpGetByUID obtain y where r: "run env (st_GetByUID store uid) s = (y, s')" "x = Got y"
    by (auto simp: prog_simps split: prod.splits)
  have "isUid uid" using assms(1) OpGetByUID by simp
  with r OpGetByUID getByUID_frame [OF r(1)] index_getByUID [OF r(1)] getByUID_ok getByUID_notFound show ?thesis
    by (cases y) (auto simp: absState_def)
next
  case (OpGetByEmail email)
  from assms(2) OpGetByEmail obtain y where r: "run env (st_GetByEmail store email) s = (y, s')" "x = Listed y"
    by (auto simp: prog_simps split: prod.splits)
  with OpGetByEmail getByEmail_frame [OF r(1)] index_getByEmail [OF r(1)] getByEmail_ok show ?thesis
    by (cases y) (auto simp: absState_def)
next
  case (OpMarkAccepted uid username t)
  from assms(2) OpMarkAccepted obtain e where r: "run env (st_MarkAccepted store uid username t) s = (e, s')" "x = Ended e"
    by (auto simp: prog_simps split: prod.splits)
  have ok: "isUid uid" "validUTF8 username" using assms(1) OpMarkAccepted by simp_all
  from index_markAccepted [OF ok(1) r(1)] r OpMarkAccepted markAccepted_ok [OF ok(2)] markAccepted_err [OF ok(2)] show ?thesis
    by (cases e) (auto simp: absState_def)
next
  case (OpDelete uid)
  from assms(2) OpDelete obtain e where r: "run env (st_Delete store uid) s = (e, s')" "x = Ended e"
    by (auto simp: prog_simps split: prod.splits)
  have ok: "isUid uid" using assms(1) OpDelete by simp
  show ?thesis
  proof (cases e)
    case None
    with r OpDelete delete_ok [OF ok, of s s'] index_delete [OF ok r(1)] show ?thesis
      by (auto simp: absState_def agree_def)
  next
    case (Some err)
    with r OpDelete delete_err [OF _ _ r(1)] index_delete [OF ok r(1)] show ?thesis by (auto simp: absState_def)
  qed
qed

lemma performs_refines:
  "list_all opOK ops \<Longrightarrow> run env (performs store ops) s = (xs, s') \<Longrightarrow> storeSteps ops xs (absState s) (absState s')"
proof (induction ops arbitrary: s xs s')
  case (Cons op ops)
  obtain x s1 where x: "run env (perform store op) s = (x, s1)" by (cases "run env (perform store op) s")
  obtain ys s2 where ys: "run env (performs store ops) s1 = (ys, s2)" by (cases "run env (performs store ops) s1")
  from Cons.prems(2) x ys have "xs = x # ys" "s' = s2" by (auto simp: prog_simps)
  moreover have "storeStep op x (absState s) (absState s1)" "storeSteps ops ys (absState s1) (absState s2)"
    using Cons.IH [OF _ ys] Cons.prems(1) perform_refines [OF _ x] by simp_all
  ultimately show ?case by (simp only: storeSteps.simps) blast
qed simp

end

section \<open>Provided by the repository\<close>

text \<open>The key an event can write, and keys that no event of a trace writes.\<close>

fun writesTo :: "event \<Rightarrow> string option" where
  "writesTo (EPut k v r) = Some k"
| "writesTo (EUpdate k v n r) = Some k"
| "writesTo (EDelete k r) = Some k"
| "writesTo _ = None"

lemma kvStep_other: "kvStep e K K' \<Longrightarrow> writesTo e \<noteq> Some k \<Longrightarrow> K' k = K k"
  by (cases "(e, K, K')" rule: kvStep.cases) auto

lemma kvTrace_other: "kvTrace tr K K' \<Longrightarrow> list_all (\<lambda>e. writesTo e \<noteq> Some k) tr \<Longrightarrow> K' k = K k"
  by (induction tr arbitrary: K) (auto dest: kvStep_other)

lemma MarkAccepted_writes: "k \<noteq> uid \<Longrightarrow> calls (\<lambda>e. writesTo e \<noteq> Some k) (MarkAccepted uid username t)"
proof -
  assume k: "k \<noteq> uid"
  have "calls (\<lambda>e. writesTo e \<noteq> Some k) (markAttempts n uid username t)" for n
    using k by (induction n) (auto simp: Let_def intro!: calls_choice split: sum.splits option.splits)
  then show ?thesis by (simp add: MarkAccepted_def)
qed

text \<open>Keys of different entries of the index differ.\<close>

lemma emailIndexKey_inject:
  "emailIndexKey u e k = emailIndexKey u e' k' \<longleftrightarrow> normalizeEmail u e = normalizeEmail u e' \<and> k = k'"
proof
  assume eq: "emailIndexKey u e k = emailIndexKey u e' k'"
  have safe: "CHR ''/'' \<notin> set (rawURLEncode s)" for s
    using rawURLEncode_safe [of s] by (auto simp: list_all_iff isUrlSafe_def is_digit_def byte_def)
  have split: "xs @ CHR ''/'' # k = ys @ CHR ''/'' # k' \<Longrightarrow> CHR ''/'' \<notin> set xs \<Longrightarrow> CHR ''/'' \<notin> set ys \<Longrightarrow> xs = ys \<and> k = k'"
    for xs ys :: string
    by (induction xs arbitrary: ys) (auto simp: Cons_eq_append_conv append_eq_Cons_conv)
  from eq have "rawURLEncode (normalizeEmail u e) @ CHR ''/'' # k = rawURLEncode (normalizeEmail u e') @ CHR ''/'' # k'"
    by (simp add: emailIndexKey_def encodeEmailForKey_def)
  from split [OF this safe safe] show "normalizeEmail u e = normalizeEmail u e' \<and> k = k'"
    by (simp add: rawURLEncode_inject)
qed (simp add: emailIndexKey_def encodeEmailForKey_def)

context kv_contract
begin

lemma run_frame:
  assumes "run env p s = (x, s')" "calls (\<lambda>e. writesTo e \<noteq> Some k) p"
  shows "kv s' k = kv s k"
  using run_trace [OF assms(1)] exec_calls [OF _ assms(2)] kvTrace_other by blast

lemma indexedOf_cong: "(\<And>e. kv s' (emailIndexKey u e k) = kv s (emailIndexKey u e k)) \<Longrightarrow> indexedOf u kv s' e k = indexedOf u kv s e k"
  by (simp add: indexedOf_def)

lemma Delete_index:
  assumes "isUid uid" "run env (DeleteInvite u uid) s = (x, s')" "k \<noteq> uid"
  shows "kv s' (emailIndexKey u e k) = kv s (emailIndexKey u e k)"
proof -
  have "calls (\<lambda>ev. writesTo ev \<noteq> Some (emailIndexKey u e k)) (DeleteInvite u uid)"
    unfolding DeleteInvite_def using isUid_neq_indexKey [OF assms(1), of u e k] assms(3)
    by (auto simp: emailIndexKey_inject split: sum.splits option.splits)
  from run_frame [OF assms(2) this] show ?thesis .
qed

end

sublocale kv_contract \<subseteq> ix: indexed_store "NATSInviteRepository u" env "recordsOf kv" "indexedOf u kv" for u
proof unfold_locales
  fix uid s x s'
  assume "run env (st_GetByUID (NATSInviteRepository u) uid) s = (x, s')"
  then have "kv s' = kv s" using GetByUID_run(1) by simp
  then show "indexedOf u kv s' = indexedOf u kv s" by (simp add: indexedOf_def fun_eq_iff)
next
  fix email s y s'
  assume "run env (st_GetByEmail (NATSInviteRepository u) email) s = (y, s')"
  then have "kv s' = kv s" using GetByEmail_run(1) by simp
  then show "indexedOf u kv s' = indexedOf u kv s" by (simp add: indexedOf_def fun_eq_iff)
next
  fix uid username t s e s'
  assume uid: "isUid uid" and "run env (st_MarkAccepted (NATSInviteRepository u) uid username t) s = (e, s')"
  then have r: "run env (MarkAccepted uid username t) s = (e, s')" by simp
  have "kv s' (emailIndexKey u em k) = kv s (emailIndexKey u em k)" for em k
    by (rule run_frame [OF r MarkAccepted_writes]) (use isUid_neq_indexKey [OF uid, of u em k] in simp)
  then show "indexedOf u kv s' = indexedOf u kv s" by (simp add: indexedOf_def fun_eq_iff)
next
  fix r s e s' k email
  assume "isUid (rec_UID r)" "run env (st_Create (NATSInviteRepository u) r) s = (e, s')" "k \<noteq> rec_UID r"
  then show "indexedOf u kv s' email k = indexedOf u kv s email k"
    using Create_run(2) [of u r s e s' "emailIndexKey u email k"] isUid_neq_indexKey [of "rec_UID r" u email k]
    by (simp add: indexedOf_def emailIndexKey_inject)
next
  fix uid s e s' k email
  assume "isUid uid" "run env (st_Delete (NATSInviteRepository u) uid) s = (e, s')" "k \<noteq> uid"
  then show "indexedOf u kv s' email k = indexedOf u kv s email k"
    using Delete_index [of uid u s e s' k email] by (simp add: indexedOf_def)
qed

context kv_contract
begin

lemmas store_run = ix.performs_refines [unfolded ix.absState_def]

end

end
