(* ===== verification/Wellformed.thy ===== *)
theory Wellformed
  imports Bucket_Invariants Store_Spec
begin

text \<open>
  The invariant of the bucket: what is stored under the UID of an invite decodes to a record with
  that UID which is either pending or completely accepted. Every interleaving of handlers keeps it.
\<close>

section \<open>Well-formed buckets\<close>

text \<open>Pending and untouched, or accepted by somebody at a time before the record expired.\<close>

definition recordOK :: "InviteRecord \<Rightarrow> bool" where
  "recordOK r \<longleftrightarrow>
     rec_Status r = InviteStatusPending \<and> rec_AcceptedAt r = None \<and> rec_AcceptedBy r = []
     \<or> rec_Status r = InviteStatusAccepted \<and> rec_AcceptedBy r \<noteq> []
       \<and> (case rec_AcceptedAt r of Some t \<Rightarrow> before t (rec_ExpiresAt r) | None \<Rightarrow> False)"

definition valueOK :: "string \<Rightarrow> string \<Rightarrow> bool" where
  "valueOK uid v \<longleftrightarrow> (case unmarshalInviteRecord v of Some r \<Rightarrow> rec_UID r = uid \<and> recordOK r | None \<Rightarrow> False)"

definition bucketOK :: "bucket \<Rightarrow> bool" where
  "bucketOK K \<longleftrightarrow> (\<forall>uid v. isUid uid \<longrightarrow> snd (K uid) = Some v \<longrightarrow> valueOK uid v)"

definition allowedOK :: "string \<Rightarrow> string \<Rightarrow> bool" where
  "allowedOK k v \<longleftrightarrow> (isUid k \<longrightarrow> valueOK k v)"

lemma bucketOK_bucketBy: "bucketOK K \<longleftrightarrow> bucketBy allowedOK K"
  by (auto simp: bucketOK_def bucketBy_def allowedOK_def)

section \<open>The handlers keep well-formed buckets\<close>

lemma accepted_valueOK:
  assumes "valueOK uid v" "unmarshalInviteRecord v = Some r" "validUTF8 username" "username \<noteq> []"
    "before t (rec_ExpiresAt r)" "marshalInviteRecord (acceptRecord r username t) = Some data"
  shows "valueOK uid data"
proof -
  have "decodedRecord (acceptRecord r username t)"
    using unmarshal_decoded [OF assms(2)] assms(3) by (rule decoded_accept)
  from reread [OF this assms(6)] assms(1,2,4,5) show ?thesis
    by (simp add: valueOK_def recordOK_def) (simp add: acceptRecord_def)
qed

lemma allowsAccept_OK: "allowsAccept allowedOK"
  unfolding allowsAccept_def allowedOK_def using accepted_valueOK by blast

lemma allowsSend_OK: "allowsSend allowedOK U pf cfg req"
  unfolding allowsSend_def allowedOK_def
  by (auto simp: valueOK_def recordOK_def dest: reread)

lemma handler_keepsOK:
  assumes "validUTF8 (app_DefaultReturnURL cfg)" "\<forall>a e. lib_ParseAddress (plat_golib pf) a = Inr e \<longrightarrow> validUTF8 e"
  shows "keepsBy allowedOK uuidText (dispatchMsg (plat_golib pf) (wireServer pf cfg) m)"
  by (rule handler_keepsBy [OF assms allowsAccept_OK allowsSend_OK])

text \<open>C6: Every interleaving of any number of handlers keeps the bucket well-formed, also when calls fail or
  lose their acknowledgement: what is stored under an invite's UID decodes to a record with that
  UID, which is pending without any trace of an acceptance, or accepted with the user and with a
  time before the record expired.\<close>

theorem records_wellformed:
  assumes "pool K (map (dispatchMsg (plat_golib pf) (wireServer pf cfg)) ms) tr K' qs" "bucketOK K"
    "\<forall>u. EUUID u \<in> snd ` set tr \<longrightarrow> uuidText u"
    "validUTF8 (app_DefaultReturnURL cfg)" "\<forall>a e. lib_ParseAddress (plat_golib pf) a = Inr e \<longrightarrow> validUTF8 e"
  shows "bucketOK K'"
  using pool_keepsBy [OF assms(1), of allowedOK "\<lambda>_. uuidText"] handler_keepsOK [OF assms(4,5)] assms(2,3)
  by (force simp: bucketOK_bucketBy)

lemma sample_bucketOK: "bucketOK (mem_kv sampleMem)"
proof -
  have "mem_kv sampleMem k = (if k = ''7'' then (1, Some (recordData sampleRecord)) else (0, None))" for k
    by (simp add: mem_kv_def sampleMem_def mem_empty_def)
  moreover have "valueOK ''7'' (recordData sampleRecord)"
    by (simp add: valueOK_def sample_json recordOK_def) (simp add: sampleRecord_def zeroInviteRecord_def)
  ultimately show ?thesis by (simp add: bucketOK_def)
qed

theorem records_wellformed_witness:
  "\<exists>tr K' qs. pool (mem_kv sampleMem) (map (dispatchMsg (plat_golib samplePlatform) (wireServer samplePlatform sampleConfig))
       [acceptMsg, acceptMsg]) tr K' qs \<and> successes ''7'' tr = 1 \<and> bucketOK K'"
proof -
  obtain tr K' qs where p: "pool (mem_kv sampleMem) (map (dispatchMsg (plat_golib samplePlatform) (wireServer samplePlatform sampleConfig))
       [acceptMsg, acceptMsg]) tr K' qs" "successes ''7'' tr = 1" "\<forall>u. EUUID u \<notin> snd ` set tr"
    using sample_two by auto
  have "validUTF8 (app_DefaultReturnURL sampleConfig)" by (simp add: sampleConfig_def AppConfigFromEnv_def Let_def validUTF8_ascii is_ascii_Char)
  moreover have "\<forall>a e. lib_ParseAddress (plat_golib samplePlatform) a = Inr e \<longrightarrow> validUTF8 e"
    by (auto simp: samplePlatform_def sampleGolib_def split: if_splits)
  ultimately show ?thesis using records_wellformed [OF p(1) sample_bucketOK] p by blast
qed

end
