(* ===== verification/Query_Properties.thy ===== *)
theory Query_Properties
  imports Send_Properties
begin

text \<open>
  The queries answer what the bucket holds: the reply to a query by UID as a function of the stored
  records, the list a query by email returns, and the replies to messages that cannot be read.
\<close>

section \<open>Replies\<close>

definition repliesOf :: "event list \<Rightarrow> string list" where
  "repliesOf tr = concat (map (\<lambda>e. case e of EReply d r \<Rightarrow> [d] | _ \<Rightarrow> []) tr)"

lemma repliesOf_simps [simp]:
  "repliesOf [] = []" "repliesOf (tr @ tr') = repliesOf tr @ repliesOf tr'"
  "repliesOf (e # tr) = (case e of EReply d r \<Rightarrow> [d] | _ \<Rightarrow> []) @ repliesOf tr"
  by (simp_all add: repliesOf_def)

lemma silent_repliesOf: "calls silent p \<Longrightarrow> exec p tr x \<Longrightarrow> repliesOf tr = []"
  using exec_calls [of p tr x silent]
  by (auto simp: repliesOf_def list_all_iff split: event.splits)

text \<open>The encoding of a response, or of \<open>internal_error\<close> when it cannot be encoded.\<close>

definition getInviteReply :: "GetInviteResponse \<Rightarrow> string" where
  "getInviteReply resp =
     (case marshalGetInviteResponse resp of Some d \<Rightarrow> d
      | None \<Rightarrow> orNil (marshalGetInviteResponse \<lparr>gresp_Invite = None, gresp_Error = ''internal_error''\<rparr>))"

text \<open>The response as a function of the records.\<close>

definition getInviteResponse :: "(string \<rightharpoonup> InviteRecord) \<Rightarrow> string \<Rightarrow> GetInviteResponse" where
  "getInviteResponse R uid =
     (if uid = [] then \<lparr>gresp_Invite = None, gresp_Error = ''invalid_request''\<rparr>
      else case R uid of
        None \<Rightarrow> \<lparr>gresp_Invite = None, gresp_Error = ''not_found''\<rparr>
      | Some r \<Rightarrow> \<lparr>gresp_Invite = Some (domainToAPIInvite r), gresp_Error = []\<rparr>)"

lemma Reply_trace:
  "exec (bind (Reply m d) (\<lambda>e. Return ())) tr x \<Longrightarrow> repliesOf tr = (if msg_ReplyTo m = [] then [] else [d])"
  unfolding Reply_def by (auto simp: exec_bind prog_simps)

context kv_reliable
begin

lemma GetInvite_reliable:
  assumes "run env (GetInvite (NATSInviteRepository u) uid) s = (y, s')" "readable (kv s) uid"
  shows "kv s' = kv s"
    "uid = [] \<Longrightarrow> y = Inl (Errorf [W (Sentinel ErrInvalidRequest), T '': uid must not be empty''])"
    "uid \<noteq> [] \<Longrightarrow> y = (case recordsOf kv s uid of None \<Rightarrow> Inl (Sentinel ErrInviteNotFound) | Some r \<Rightarrow> Inr (domainToAPIInvite r))"
proof -
  obtain z s1 where z: "run env (GetByUID uid) s = (z, s1)" by (cases "run env (GetByUID uid) s")
  note g = GetByUID_run(1) [OF z] GetByUID_reliable [OF z assms(2)]
  show "kv s' = kv s"
    "uid = [] \<Longrightarrow> y = Inl (Errorf [W (Sentinel ErrInvalidRequest), T '': uid must not be empty''])"
    "uid \<noteq> [] \<Longrightarrow> y = (case recordsOf kv s uid of None \<Rightarrow> Inl (Sentinel ErrInviteNotFound) | Some r \<Rightarrow> Inr (domainToAPIInvite r))"
    using assms(1) z g by (auto simp: GetInvite_def prog_simps split: if_splits option.splits)
qed

lemma handleGetInvite_reliable:
  assumes "unmarshalGetInviteRequest (msg_Data m) = Some req" "readable (kv s) (greq_UID req)"
  shows "repliesOf (traceOf env (handleGetInvite (wireServer pf cfg) m) s) =
    (if msg_ReplyTo m = [] then [] else [getInviteReply (getInviteResponse (recordsOf kv s) (greq_UID req))])"
proof -
  let ?get = "GetInvite (NATSInviteRepository (lib_lower (plat_golib pf))) (greq_UID req)"
  obtain y s1 where y: "run env ?get s = (y, s1)" by (cases "run env ?get s")
  note g = GetInvite_reliable [OF y assms(2)]
  define resp where "resp = getInviteResponse (recordsOf kv s) (greq_UID req)"
  have "exec ?get (traceOf env ?get s) (fst (run env ?get s))" by (rule exec_traceOf)
  from silent_repliesOf [OF calls_readOnly(2) [OF GetInvite_calls] this] have quiet: "repliesOf (traceOf env ?get s) = []" .
  have "(case y of
     Inl err \<Rightarrow> \<lparr>gresp_Invite = None, gresp_Error = (if errors_Is err ErrInviteNotFound then ''not_found''
                                   else if errors_Is err ErrInvalidRequest then ''invalid_request''
                                   else ''internal_error'')\<rparr>
   | Inr invite \<Rightarrow> \<lparr>gresp_Invite = Some invite, gresp_Error = []\<rparr>) = resp"
    using g(2,3) by (cases "greq_UID req = []") (auto simp: resp_def getInviteResponse_def split: option.splits)
  then have "traceOf env (handleGetInvite (wireServer pf cfg) m) s = traceOf env ?get s
      @ traceOf env (case marshalGetInviteResponse resp of None \<Rightarrow> replyGetInviteError m ''internal_error''
          | Some data \<Rightarrow> bind (Reply m data) (\<lambda>e. Return ())) s1"
    using assms(1) y by (simp add: handleGetInvite_def traceOf_bind Let_def)
  moreover have "repliesOf (traceOf env (bind (Reply m d) (\<lambda>e. Return ())) s1) = (if msg_ReplyTo m = [] then [] else [d])" for d
    by (rule Reply_trace [OF exec_traceOf])
  ultimately show ?thesis
    using quiet unfolding replyGetInviteError_def resp_def [symmetric]
    by (auto simp: getInviteReply_def split: option.splits)
qed

end

text \<open>On a reliable bucket the handler of \<open>get_invite\<close> replies as a function of the stored records:
  \<open>invalid_request\<close> for an empty UID, \<open>not_found\<close> when there is no record, and the public view of
  the record otherwise; and it replies only when a reply was asked for.\<close>

theorem get_invite_answers:
  assumes "kv_reliable env kv" "unmarshalGetInviteRequest (msg_Data m) = Some req" "readable (kv s) (greq_UID req)"
  shows "repliesOf (traceOf env (handleGetInvite (wireServer pf cfg) m) s) =
    (if msg_ReplyTo m = [] then [] else [getInviteReply (getInviteResponse (recordsOf kv s) (greq_UID req))])"
  using assms by (rule kv_reliable.handleGetInvite_reliable)

definition getSample :: natsMsg where
  "getSample = \<lparr>msg_Data = marshalGetInviteRequest \<lparr>greq_UID = ''7''\<rparr>, msg_Subject = GetInviteSubject, msg_ReplyTo = ''inbox''\<rparr>"

lemma getSample_request: "unmarshalGetInviteRequest (msg_Data getSample) = Some \<lparr>greq_UID = ''7''\<rparr>"
  unfolding getSample_def natsMsg.select_convs by (rule unmarshal_queries(1)) (simp add: validUTF8_ascii is_ascii_Char)

theorem get_invite_answers_witness:
  "repliesOf (traceOf mem_env (handleGetInvite (wireServer samplePlatform sampleConfig) getSample) sampleMem) =
    [getInviteReply \<lparr>gresp_Invite = Some (domainToAPIInvite sampleRecord), gresp_Error = []\<rparr>]"
proof -
  have "readable (mem_kv sampleMem) ''7''" by (simp add: readable_def sample_bucket sample_json)
  with get_invite_answers [OF mem_reliable getSample_request, of sampleMem samplePlatform sampleConfig] show ?thesis
    by (simp add: getInviteResponse_def) (simp add: getSample_def)
qed

section \<open>Query by email\<close>

text \<open>C24: On a reliable bucket whose indexed entries can be read, a query by a nonempty email answers with
  exactly the public views of the records whose index entries have the normalized address, and
  changes nothing.\<close>

theorem query_by_email_exact:
  assumes "kv_reliable env kv" "email \<noteq> []"
    "\<forall>uid. indexedOf (lib_lower lib) kv s (lookupAddress lib email) uid \<longrightarrow> readable (kv s) uid"
  shows "\<exists>invites s'. run env (GetInvitesByEmail lib (NATSInviteRepository (lib_lower lib)) email) s = (Inr invites, s')
    \<and> kv s' = kv s
    \<and> set invites = domainToAPIInvite ` {r. \<exists>uid. indexedOf (lib_lower lib) kv s (lookupAddress lib email) uid
        \<and> recordsOf kv s uid = Some r}"
proof -
  from kv_reliable.GetInvitesByEmail_reliable [OF assms(1), of "lib_lower lib" s lib email] assms(2,3)
  obtain invites s' where r: "run env (GetInvitesByEmail lib (NATSInviteRepository (lib_lower lib)) email) s = (Inr invites, s')"
    by blast
  have c: "kv_contract env kv" using assms(1) by (simp add: kv_reliable_def)
  have "kv s' = kv s"
    by (rule kv_contract.run_noWrite [OF c r]) (use exec_calls [OF _ GetInvitesByEmail_calls] in \<open>auto simp: noWrite_def list_all_iff\<close>)
  with r kv_contract.GetInvitesByEmail_run(2) [OF c r] show ?thesis by blast
qed

theorem query_by_email_exact_witness:
  "\<exists>s invites s'. recordsOf mem_kv s ''1'' = Some sentSample
     \<and> run mem_env (GetInvitesByEmail sampleGolib (NATSInviteRepository (\<lambda>r. r)) ''ada@lfx.dev'') s = (Inr invites, s')
     \<and> domainToAPIInvite sentSample \<in> set invites"
proof -
  obtain s1 where k: "mem_kv s1 = (\<lambda>k. (0, None))(''1'' := (1, Some (recordData sentSample)), sampleIndexKey := (2, Some ''1''))"
    using sample_sent by blast
  have l: "lib_lower sampleGolib = (\<lambda>r. r)" by (simp add: sampleGolib_def)
  have "\<forall>uid. indexedOf (lib_lower sampleGolib) mem_kv s1 (lookupAddress sampleGolib ''ada@lfx.dev'') uid \<longrightarrow> readable (mem_kv s1) uid"
    unfolding l using sent_readable [OF k] by blast
  from query_by_email_exact [OF mem_reliable _ this] obtain invites s' where
    q: "run mem_env (GetInvitesByEmail sampleGolib (NATSInviteRepository (\<lambda>r. r)) ''ada@lfx.dev'') s1 = (Inr invites, s')"
    "set invites = domainToAPIInvite ` {r. \<exists>uid. indexedOf (\<lambda>r. r) mem_kv s1 (lookupAddress sampleGolib ''ada@lfx.dev'') uid
        \<and> recordsOf mem_kv s1 uid = Some r}"
    unfolding l by blast
  have uid: "isUid ''1''" by (simp add: isUid_def hasPrefix_def emailIndexPrefix_def)
  then have "sampleIndexKey \<noteq> ''1''" using isUid_neq_indexKey by metis
  then have rec: "recordsOf mem_kv s1 ''1'' = Some sentSample"
    by (simp add: recordsOf_def k unmarshal_recordData valid_sentSample)
  moreover have "indexedOf (\<lambda>r. r) mem_kv s1 (lookupAddress sampleGolib ''ada@lfx.dev'') ''1''"
    unfolding lookup_ada by (simp add: indexedOf_def k)
  ultimately have "domainToAPIInvite sentSample \<in> set invites" unfolding q(2) by blast
  with rec q(1) show ?thesis by blast
qed

section \<open>The public view\<close>

lemma view_parts:
  "\<lparr>arcp_Name = rcp_Name p, arcp_Email = rcp_Email p, arcp_Username = rcp_Username p, arcp_Avatar = rcp_Avatar p\<rparr> =
   \<lparr>arcp_Name = rcp_Name p', arcp_Email = rcp_Email p', arcp_Username = rcp_Username p', arcp_Avatar = rcp_Avatar p'\<rparr>
     \<longleftrightarrow> p = (p' :: Recipient)"
  "\<lparr>ainv_Name = inv_Name i, ainv_Username = inv_Username i, ainv_Email = inv_Email i, ainv_Avatar = inv_Avatar i\<rparr> =
   \<lparr>ainv_Name = inv_Name i', ainv_Username = inv_Username i', ainv_Email = inv_Email i', ainv_Avatar = inv_Avatar i'\<rparr>
     \<longleftrightarrow> i = (i' :: Inviter)"
  "\<lparr>ares_UID = res_UID r, ares_Name = res_Name r, ares_Type = res_Type r, ares_ParentName = res_ParentName r\<rparr> =
   \<lparr>ares_UID = res_UID r', ares_Name = res_Name r', ares_Type = res_Type r', ares_ParentName = res_ParentName r'\<rparr>
     \<longleftrightarrow> r = (r' :: InviteResource)"
  by auto

text \<open>The public view of a record shows all of it: two records have the same view only if they are equal,
  and the view shows the record's own UID, status, address and dates.\<close>

theorem public_view_faithful:
  "(domainToAPIInvite r = domainToAPIInvite r' \<longleftrightarrow> r = r')
   \<and> ai_UID (domainToAPIInvite r) = rec_UID r \<and> ai_Status (domainToAPIInvite r) = rec_Status r
   \<and> arcp_Email (ai_Recipient (domainToAPIInvite r)) = rcp_Email (rec_Recipient r)
   \<and> ai_ExpiresAt (domainToAPIInvite r) = rec_ExpiresAt r \<and> ai_AcceptedAt (domainToAPIInvite r) = rec_AcceptedAt r
   \<and> ai_AcceptedBy (domainToAPIInvite r) = rec_AcceptedBy r"
proof -
  have "domainToAPIInvite r = domainToAPIInvite r' \<longleftrightarrow> r = r'"
    unfolding domainToAPIInvite_def Invite.ext_inject view_parts by auto
  then show ?thesis by (simp add: domainToAPIInvite_def)
qed

end
