(* ===== verification/Client_Properties.thy ===== *)
theory Client_Properties
  imports Query_Properties
begin

text \<open>
  The service as its clients see it: messages written by the struct tags of pkg/api arrive as they
  were written, on both sides, and the decoded replies say what the bucket holds.
\<close>

section \<open>Messages arrive\<close>

text \<open>A response whose parts can be written.\<close>

definition validSendResponse :: "SendInviteResponse \<Rightarrow> bool" where
  "validSendResponse resp \<longleftrightarrow> validUTF8 (sresp_Error resp)
     \<and> pred_option (\<lambda>d. validUTF8 (dat_UID d) \<and> validUTF8 (dat_Email d) \<and> validTime (dat_ExpiresAt d)) (sresp_InviteData resp)"

definition validGetResponse :: "GetInviteResponse \<Rightarrow> bool" where
  "validGetResponse resp \<longleftrightarrow> validUTF8 (gresp_Error resp) \<and> pred_option validInvite (gresp_Invite resp)"

definition validListResponse :: "GetInvitesByEmailResponse \<Rightarrow> bool" where
  "validListResponse resp \<longleftrightarrow> validUTF8 (eresp_Error resp) \<and> pred_option (list_all validInvite) (eresp_Invites resp)"

text \<open>What the service replies with is written from a valid record.\<close>

lemma validInvite_view: "validRecord r \<Longrightarrow> validInvite (domainToAPIInvite r)"
  by (simp add: validRecord_def validInvite_def domainToAPIInvite_def valid_defs valid_api_defs)

text \<open>C19: Every request, event and reply of the public contract arrives as it was written: decoding what
  the other side encoded gives back the same value, with the embedded structs and the omitted empty
  fields, for strings in UTF-8, 64 bit numbers and times JSON can write.\<close>

theorem api_roundtrip:
  assumes "apiRequestOK req" "validStrings [evt_InviteUID evt, evt_Username evt, evt_Token evt]"
    "validUTF8 (greq_UID q)" "validUTF8 (ereq_Email p)"
    "validSendResponse sresp" "validGetResponse gresp" "validListResponse lresp" "validInvite view"
  shows "unmarshalSendInviteRequest (marshalSendInviteRequest req) = Some req
    \<and> unmarshalInviteAcceptedEvent (marshalInviteAcceptedEvent evt) = Some evt
    \<and> unmarshalGetInviteRequest (marshalGetInviteRequest q) = Some q
    \<and> unmarshalGetInvitesByEmailRequest (marshalGetInvitesByEmailRequest p) = Some p
    \<and> (\<exists>d. marshalSendInviteResponse sresp = Some d \<and> unmarshalSendInviteResponse d = Some sresp)
    \<and> (\<exists>d. marshalGetInviteResponse gresp = Some d \<and> unmarshalGetInviteResponse d = Some gresp)
    \<and> (\<exists>d. marshalGetInvitesByEmailResponse lresp = Some d \<and> unmarshalGetInvitesByEmailResponse d = Some lresp)
    \<and> (\<exists>d. marshalInviteServiceAcceptedEvent \<lparr>acc_Invite = view\<rparr> = Some d
        \<and> unmarshalInviteServiceAcceptedEvent d = Some \<lparr>acc_Invite = view\<rparr>)"
  using assms send_request_roundtrip unmarshal_event unmarshal_queries send_response_roundtrip get_response_roundtrip
    list_response_roundtrip event_roundtrip
  by (simp add: validSendResponse_def validGetResponse_def validListResponse_def validStrings_def)

text \<open>The request of the samples as a client fills it in.\<close>

definition sampleApiRequest :: ApiSendInviteRequest where
  "sampleApiRequest = zeroApiSendInviteRequest\<lparr>areq_RecipientEmail := ''ada@lfx.dev'', areq_RecipientName := ''ada'',
     areq_InviterName := ''bob'', areq_ResourceUID := ''p1'', areq_Role := ''Writer'', areq_ExpirationDays := 7\<rparr>"

lemma sampleApiRequest: "apiToModelRequest sampleApiRequest = sendRequest" "apiRequestOK sampleApiRequest"
proof -
  show r: "apiToModelRequest sampleApiRequest = sendRequest"
    by (simp add: apiToModelRequest_def sampleApiRequest_def zeroApiSendInviteRequest_def sendRequest_def)
  show "apiRequestOK sampleApiRequest" using sendRequest_OK by (simp add: apiRequestOK_def r)
qed

theorem api_roundtrip_witness:
  "unmarshalSendInviteRequest (marshalSendInviteRequest sampleApiRequest) = Some sampleApiRequest
   \<and> (\<exists>d. marshalGetInviteResponse \<lparr>gresp_Invite = Some (domainToAPIInvite acceptedSample), gresp_Error = []\<rparr> = Some d
      \<and> unmarshalGetInviteResponse d = Some \<lparr>gresp_Invite = Some (domainToAPIInvite acceptedSample), gresp_Error = []\<rparr>)"
proof -
  have v: "validInvite (domainToAPIInvite acceptedSample)" by (rule validInvite_view [OF valid_acceptedSample])
  show ?thesis
    using api_roundtrip [of sampleApiRequest "\<lparr>evt_InviteUID = [], evt_Username = [], evt_Token = []\<rparr>" "\<lparr>greq_UID = []\<rparr>"
        "\<lparr>ereq_Email = []\<rparr>" "\<lparr>sresp_InviteData = None, sresp_Error = []\<rparr>"
        "\<lparr>gresp_Invite = Some (domainToAPIInvite acceptedSample), gresp_Error = []\<rparr>"
        "\<lparr>eresp_Invites = None, eresp_Error = []\<rparr>" "domainToAPIInvite acceptedSample"] sampleApiRequest(2) v
    by (simp add: validSendResponse_def validGetResponse_def validListResponse_def validStrings_def)
qed

section \<open>Queries\<close>

text \<open>A live value decodes to a record that can be shown.\<close>

definition showable :: "bucket \<Rightarrow> string \<Rightarrow> bool" where
  "showable K uid \<longleftrightarrow>
     (case snd (K uid) of None \<Rightarrow> True
      | Some v \<Rightarrow> (case unmarshalInviteRecord v of None \<Rightarrow> False | Some r \<Rightarrow> validRecord r))"

lemma showable_readable: "showable K uid \<Longrightarrow> readable K uid"
  by (auto simp: showable_def readable_def split: option.splits)

lemma showable_valid: "showable (kv s) uid \<Longrightarrow> recordsOf kv s uid = Some r \<Longrightarrow> validRecord r"
  by (auto simp: showable_def recordsOf_def split: option.splits)

lemma validUTF8_codes [simp]:
  "validUTF8 ''invalid_request''" "validUTF8 ''not_found''" "validUTF8 ''internal_error''" "validUTF8 ''email_dispatch_failed''"
  by (simp_all add: validUTF8_ascii is_ascii_Char)

lemma getInviteReply_decoded:
  assumes "showable (kv s) uid"
  shows "unmarshalGetInviteResponse (getInviteReply (getInviteResponse (recordsOf kv s) uid)) = Some (getInviteResponse (recordsOf kv s) uid)"
proof -
  let ?resp = "getInviteResponse (recordsOf kv s) uid"
  have "validUTF8 (gresp_Error ?resp)" "pred_option validInvite (gresp_Invite ?resp)"
    using showable_valid [of kv s uid] assms validInvite_view by (auto simp: getInviteResponse_def split: option.splits)
  from get_response_roundtrip [OF this] show ?thesis by (auto simp: getInviteReply_def)
qed

context kv_reliable
begin

lemma handleGetInvitesByEmail_reliable:
  assumes "unmarshalGetInvitesByEmailRequest (msg_Data m) = Some \<lparr>ereq_Email = email\<rparr>" "msg_ReplyTo m \<noteq> []" "email \<noteq> []"
    "\<And>uid. indexedOf u kv s (lookupAddress lib email) uid \<Longrightarrow> showable (kv s) uid" "u = lib_lower (plat_golib pf)"
  shows "\<exists>invites. map unmarshalGetInvitesByEmailResponse (repliesOf (traceOf env (handleGetInvitesByEmail lib (wireServer pf cfg) m) s))
      = [Some \<lparr>eresp_Invites = Some invites, eresp_Error = []\<rparr>]
    \<and> set invites = domainToAPIInvite ` {r. \<exists>uid. indexedOf u kv s (lookupAddress lib email) uid \<and> recordsOf kv s uid = Some r}"
proof -
  let ?get = "GetInvitesByEmail lib (NATSInviteRepository u) email"
  have "readable (kv s) uid" if "indexedOf u kv s (lookupAddress lib email) uid" for uid
    using that assms(4) showable_readable by blast
  from GetInvitesByEmail_reliable [OF this assms(3)] obtain invites s1 where r: "run env ?get s = (Inr invites, s1)" by blast
  note found = GetInvitesByEmail_run(2) [OF r]
  have "validInvite (domainToAPIInvite r)" if "indexedOf u kv s (lookupAddress lib email) uid" "recordsOf kv s uid = Some r" for uid r
    using showable_valid [of kv s uid r] assms(4) [OF that(1)] that(2) by (intro validInvite_view)
  then have "list_all validInvite invites" using found by (auto simp: list_all_iff)
  then obtain d where d: "marshalGetInvitesByEmailResponse \<lparr>eresp_Invites = Some invites, eresp_Error = []\<rparr> = Some d"
    "unmarshalGetInvitesByEmailResponse d = Some \<lparr>eresp_Invites = Some invites, eresp_Error = []\<rparr>"
    using list_response_roundtrip [of "\<lparr>eresp_Invites = Some invites, eresp_Error = []\<rparr>"] by auto
  have "exec ?get (traceOf env ?get s) (fst (run env ?get s))" by (rule exec_traceOf)
  from silent_repliesOf [OF calls_readOnly(2) [OF GetInvitesByEmail_calls] this] have "repliesOf (traceOf env ?get s) = []" .
  moreover have "repliesOf (traceOf env (bind (Reply m d) (\<lambda>e. Return ())) s1) = (if msg_ReplyTo m = [] then [] else [d])"
    by (rule Reply_trace [OF exec_traceOf])
  moreover have "traceOf env (handleGetInvitesByEmail lib (wireServer pf cfg) m) s = traceOf env ?get s
      @ traceOf env (bind (Reply m d) (\<lambda>e. Return ())) s1"
    using assms(1,5) r d(1) by (simp add: handleGetInvitesByEmail_def traceOf_bind)
  ultimately have "map unmarshalGetInvitesByEmailResponse (repliesOf (traceOf env (handleGetInvitesByEmail lib (wireServer pf cfg) m) s))
      = [Some \<lparr>eresp_Invites = Some invites, eresp_Error = []\<rparr>]"
    using d(2) assms(2) by simp
  with found show ?thesis by (intro exI [of _ invites] conjI)
qed

end

text \<open>C18: On a reliable bucket a client that asks for an invite decodes exactly what is stored: the public view
  of the record, \<open>not_found\<close> or \<open>invalid_request\<close>; and a client that asks by email decodes a list of
  exactly the public views of the records indexed under the normalized address.\<close>

theorem client_sees_records:
  assumes "kv_reliable env kv" "validUTF8 uid" "showable (kv s) uid" "validUTF8 email" "email \<noteq> []"
    "\<forall>u. indexedOf (lib_lower (plat_golib pf)) kv s (lookupAddress (plat_golib pf) email) u \<longrightarrow> showable (kv s) u"
    "msg_Data m = marshalGetInviteRequest \<lparr>greq_UID = uid\<rparr>" "msg_ReplyTo m \<noteq> []"
    "msg_Data n = marshalGetInvitesByEmailRequest \<lparr>ereq_Email = email\<rparr>" "msg_ReplyTo n \<noteq> []"
  shows "map unmarshalGetInviteResponse (repliesOf (traceOf env (handleGetInvite (wireServer pf cfg) m) s))
      = [Some (getInviteResponse (recordsOf kv s) uid)]
    \<and> (\<exists>invites. map unmarshalGetInvitesByEmailResponse
          (repliesOf (traceOf env (handleGetInvitesByEmail (plat_golib pf) (wireServer pf cfg) n) s))
          = [Some \<lparr>eresp_Invites = Some invites, eresp_Error = []\<rparr>]
        \<and> set invites = domainToAPIInvite ` {r. \<exists>u. indexedOf (lib_lower (plat_golib pf)) kv s (lookupAddress (plat_golib pf) email) u
            \<and> recordsOf kv s u = Some r})"
proof
  have m: "unmarshalGetInviteRequest (msg_Data m) = Some \<lparr>greq_UID = uid\<rparr>"
    unfolding assms(7) by (rule unmarshal_queries(1)) (use assms(2) in simp)
  have "readable (kv s) (greq_UID \<lparr>greq_UID = uid\<rparr>)" using showable_readable [OF assms(3)] by simp
  from kv_reliable.handleGetInvite_reliable [OF assms(1) m this, of pf cfg] assms(8)
  show "map unmarshalGetInviteResponse (repliesOf (traceOf env (handleGetInvite (wireServer pf cfg) m) s))
      = [Some (getInviteResponse (recordsOf kv s) uid)]"
    using getInviteReply_decoded [of kv s uid, OF assms(3)] by simp
  have n: "unmarshalGetInvitesByEmailRequest (msg_Data n) = Some \<lparr>ereq_Email = email\<rparr>"
    unfolding assms(9) by (rule unmarshal_queries(2)) (use assms(4) in simp)
  show "\<exists>invites. map unmarshalGetInvitesByEmailResponse
          (repliesOf (traceOf env (handleGetInvitesByEmail (plat_golib pf) (wireServer pf cfg) n) s))
          = [Some \<lparr>eresp_Invites = Some invites, eresp_Error = []\<rparr>]
        \<and> set invites = domainToAPIInvite ` {r. \<exists>u. indexedOf (lib_lower (plat_golib pf)) kv s (lookupAddress (plat_golib pf) email) u
            \<and> recordsOf kv s u = Some r}"
    by (rule kv_reliable.handleGetInvitesByEmail_reliable [OF assms(1) n assms(10,5)]) (use assms(6) in auto)
qed

definition listSample :: natsMsg where
  "listSample = \<lparr>msg_Data = marshalGetInvitesByEmailRequest \<lparr>ereq_Email = ''ada@lfx.dev''\<rparr>,
     msg_Subject = GetInvitesByEmailSubject, msg_ReplyTo = ''inbox''\<rparr>"

definition getFirst :: natsMsg where
  "getFirst = \<lparr>msg_Data = marshalGetInviteRequest \<lparr>greq_UID = ''1''\<rparr>, msg_Subject = GetInviteSubject, msg_ReplyTo = ''inbox''\<rparr>"

theorem client_sees_records_witness:
  "\<exists>s invites. map unmarshalGetInviteResponse (repliesOf (traceOf mem_env (handleGetInvite (wireServer samplePlatform sampleConfig) getFirst) s))
      = [Some \<lparr>gresp_Invite = Some (domainToAPIInvite sentSample), gresp_Error = []\<rparr>]
     \<and> map unmarshalGetInvitesByEmailResponse
         (repliesOf (traceOf mem_env (handleGetInvitesByEmail sampleGolib (wireServer samplePlatform sampleConfig) listSample) s))
         = [Some \<lparr>eresp_Invites = Some invites, eresp_Error = []\<rparr>]"
proof -
  obtain s1 where k: "mem_kv s1 = (\<lambda>k. (0, None))(''1'' := (1, Some (recordData sentSample)), sampleIndexKey := (2, Some ''1''))"
    using sample_sent by blast
  have v: "mem_kv s1 ''1'' = (1, Some (recordData sentSample))" unfolding k using sampleIndexKey_neq by simp
  then have first: "showable (mem_kv s1) ''1''" "recordsOf mem_kv s1 ''1'' = Some sentSample"
    using unmarshal_recordData [OF valid_sentSample] valid_sentSample by (simp_all add: showable_def recordsOf_def)
  note only = sent_indexed [OF k]
  have utf8: "validUTF8 ''1''" "validUTF8 ''ada@lfx.dev''" by (simp_all add: validUTF8_ascii is_ascii_Char)
  have "\<forall>u. indexedOf (lib_lower (plat_golib samplePlatform)) mem_kv s1 (lookupAddress (plat_golib samplePlatform) ''ada@lfx.dev'') u
      \<longrightarrow> showable (mem_kv s1) u"
    using only first(1) by auto
  note seen = client_sees_records [OF mem_reliable utf8(1) first(1) utf8(2) _ this]
  have m: "msg_Data getFirst = marshalGetInviteRequest \<lparr>greq_UID = ''1''\<rparr>" "msg_ReplyTo getFirst \<noteq> []"
    "msg_Data listSample = marshalGetInvitesByEmailRequest \<lparr>ereq_Email = ''ada@lfx.dev''\<rparr>" "msg_ReplyTo listSample \<noteq> []"
    by (simp_all add: getFirst_def listSample_def)
  have "getInviteResponse (recordsOf mem_kv s1) ''1'' = \<lparr>gresp_Invite = Some (domainToAPIInvite sentSample), gresp_Error = []\<rparr>"
    using first(2) by (simp add: getInviteResponse_def)
  note * = seen [OF list.distinct(2) m, of sampleConfig, unfolded this samplePlatform_simps]
  show ?thesis by (rule exI [of _ s1]) (insert *, elim conjE exE, intro exI conjI; assumption)
qed

section \<open>Sending\<close>

text \<open>The response to a result of a send.\<close>

definition sendResponse :: "goerr + SendInviteResult \<Rightarrow> SendInviteResponse" where
  "sendResponse r = (case r of
     Inl err \<Rightarrow> \<lparr>sresp_InviteData = None, sresp_Error = sendInviteErrorCode err\<rparr>
   | Inr result \<Rightarrow> \<lparr>sresp_InviteData = Some \<lparr>dat_UID = sir_InviteUID result, dat_Email = sir_RecipientEmail result,
         dat_ExpiresAt = sir_ExpiresAt result\<rparr>, sresp_Error = []\<rparr>)"

lemma validateSend_email:
  "validateSend lib cfg req = Inr (email, role) \<Longrightarrow> lib_ParseAddress lib (ResolvedRecipientEmail req) = Inr email"
  by (simp add: validateSend_ok)

context kv_reliable
begin

lemma send_success_reliable:
  assumes run: "run env (HandleSendInvite (plat_golib pf) (notificationService pf cfg) req) s = (Inr result, s')"
    and req: "requestOK req" "validUTF8 (app_DefaultReturnURL cfg)"
    and lib: "\<forall>a e. lib_ParseAddress (plat_golib pf) a = Inr e \<longrightarrow> validUTF8 e"
  obtains created where "uuidText (sir_InviteUID result)" "validUTF8 (sir_RecipientEmail result)" "validTime (sir_ExpiresAt result)"
    "recordsOf kv s' (sir_InviteUID result) = Some (sentRecord cfg req result created)"
    "indexedOf (lib_lower (plat_golib pf)) kv s' (sir_RecipientEmail result) (sir_InviteUID result)"
proof -
  have wf: "wf_map (req_CustomClaims req)" using req by (simp add: requestOK_def validClaims_def)
  obtain tr where tr: "exec (HandleSendInvite (plat_golib pf) (notificationService pf cfg) req) tr (Inr result)"
    "list_all reliableEvent tr" using run_reliable [OF run] by blast
  from send_success_exec [OF tr(1) wf] obtain t1 data where e:
    "EUUID (sir_InviteUID result) \<in> set tr" "marshalInviteRecord (sentRecord cfg req result t1) = Some data"
    "validateSend (plat_golib pf) (notificationConfig cfg) req = Inr (sir_RecipientEmail result, trimSpace (req_Role req))"
    by (metis list.set_intros)
  have u: "uuidText (sir_InviteUID result)" using tr(2) e(1) by (auto simp: list_all_iff)
  moreover have v: "validUTF8 (sir_RecipientEmail result)" using lib validateSend_email [OF e(3)] by blast
  moreover have "validTime (sir_ExpiresAt result)"
    using marshal_times [OF e(2)] by (simp add: sentRecord_def)
  moreover obtain created where "recordsOf kv s' (sir_InviteUID result) = Some (sentRecord cfg req result created)"
    "indexedOf (lib_lower (plat_golib pf)) kv s' (sir_RecipientEmail result) (sir_InviteUID result)"
    using send_success_run [OF run req(1) uuidText_valid [OF u] v req(2) uuidText_isUid [OF u]] by metis
  ultimately show thesis using that by blast
qed

text \<open>The reply that follows the result of a send.\<close>

lemma send_reply:
  assumes "unmarshalSendInviteRequest (msg_Data m) = Some areq" "msg_ReplyTo m \<noteq> []"
    "run env (HandleSendInvite (plat_golib pf) (notificationService pf cfg) (apiToModelRequest areq)) s = (r, s1)"
    "validSendResponse (sendResponse r)"
    "run env (handleSendInvite (plat_golib pf) (wireServer pf cfg) m) s = (x, s')"
  shows "map unmarshalSendInviteResponse (repliesOf (traceOf env (handleSendInvite (plat_golib pf) (wireServer pf cfg) m) s)) = [Some (sendResponse r)]"
    "kv s' = kv s1"
proof -
  let ?send = "HandleSendInvite (plat_golib pf) (notificationService pf cfg) (apiToModelRequest areq)"
  obtain d where d: "marshalSendInviteResponse (sendResponse r) = Some d" "unmarshalSendInviteResponse d = Some (sendResponse r)"
    using assms(4) send_response_roundtrip by (auto simp: validSendResponse_def)
  have "exec ?send (traceOf env ?send s) (fst (run env ?send s))" by (rule exec_traceOf)
  from silent_repliesOf [OF calls_inert_silent [OF HandleSendInvite_calls] this] have "repliesOf (traceOf env ?send s) = []" .
  moreover have "repliesOf (traceOf env (bind (Reply m d) (\<lambda>e. Return ())) s1) = (if msg_ReplyTo m = [] then [] else [d])"
    by (rule Reply_trace [OF exec_traceOf])
  moreover have h: "handleSendInvite (plat_golib pf) (wireServer pf cfg) m = bind ?send (\<lambda>r.
      case marshalSendInviteResponse (sendResponse r) of None \<Rightarrow> replyError m ''internal_error''
      | Some data \<Rightarrow> bind (Reply m data) (\<lambda>e. Return ()))"
    using assms(1) by (simp add: handleSendInvite_def sendResponse_def)
  then have "traceOf env (handleSendInvite (plat_golib pf) (wireServer pf cfg) m) s = traceOf env ?send s
      @ traceOf env (bind (Reply m d) (\<lambda>e. Return ())) s1"
    by (simp only: traceOf_bind [of env ?send] assms(3) prod.case d(1) option.case)
  ultimately show "map unmarshalSendInviteResponse (repliesOf (traceOf env (handleSendInvite (plat_golib pf) (wireServer pf cfg) m) s))
      = [Some (sendResponse r)]"
    using d(2) assms(2) by simp
  have "run env (bind (Reply m d) (\<lambda>e. Return ())) s1 = (x, s')"
    using assms(5) unfolding h by (simp add: prog_simps assms(3) d(1))
  then show "kv s' = kv s1"
    by (rule run_noWrite) (auto simp: Reply_def noWrite_def exec_bind prog_simps)
qed

lemma Create_failed: "exec (Create u r) tr (Some e) \<Longrightarrow> list_all reliableEvent tr \<Longrightarrow> noWrite tr"
  unfolding Create_def by (auto simp: prog_simps noWrite_def split: option.splits sum.splits)

text \<open>A send that failed, by its code.\<close>

lemma send_failed_reliable:
  assumes run: "run env (HandleSendInvite (plat_golib pf) (notificationService pf cfg) req) s = (Inl err, s')"
    and req: "requestOK req" "validUTF8 (app_DefaultReturnURL cfg)"
    and lib: "\<forall>a e. lib_ParseAddress (plat_golib pf) a = Inr e \<longrightarrow> validUTF8 e"
  shows "sendInviteErrorCode err \<noteq> ''email_dispatch_failed'' \<Longrightarrow> kv s' = kv s"
    "sendInviteErrorCode err = ''email_dispatch_failed'' \<Longrightarrow>
      \<exists>uid. uuidText uid \<and> snd (kv s' uid) = None \<and> (\<forall>k. isUid k \<longrightarrow> k \<noteq> uid \<longrightarrow> kv s' k = kv s k)"
proof -
  obtain tr where tr: "exec (HandleSendInvite (plat_golib pf) (notificationService pf cfg) req) tr (Inl err)"
    "kvTrace tr (kv s) (kv s')" "list_all reliableEvent tr" using run_reliable [OF run] by blast
  have code: "sendInviteErrorCode err = ''email_dispatch_failed'' \<longleftrightarrow> errors_Is err ErrEmailDispatchFailed"
    by (cases rule: send_exec_cases [OF tr(1), case_names quiet stored]) (simp_all add: sendInviteErrorCode_def)
  have "noWrite tr \<or> errors_Is err ErrEmailDispatchFailed"
  proof (cases rule: HandleSendInvite_exec [OF tr(1) notificationService_simps(1), case_names invalid nolink persisted])
    case (nolink email role e)
    then show ?thesis using Generate_quiet by (auto simp: noEffect_iff)
  next
    case (persisted email role g trg now tr2 tr3 y)
    have trg: "noWrite trg" using persisted(2) Generate_quiet by (auto simp: noEffect_iff)
    show ?thesis
    proof (cases y)
      case (Some e)
      then have "noWrite tr2" using persisted(3,4) tr(3) Create_failed by auto
      with persisted(3,5) Some trg show ?thesis by simp
    next
      case None
      with persisted(5) have d: "exec (dispatchInvite (notificationService pf cfg) req email role g) tr3 (Inl err)" by simp
      show ?thesis
        by (cases rule: dispatchInvite_exec [OF d notificationService_simps(1), case_names sent failed])
           (simp_all add: dispatchError_def)
    qed
  qed simp
  with code show "sendInviteErrorCode err \<noteq> ''email_dispatch_failed'' \<Longrightarrow> kv s' = kv s"
    using kvTrace_noWrite [OF tr(2)] by blast
  assume "sendInviteErrorCode err = ''email_dispatch_failed''"
  with code have "errors_Is err ErrEmailDispatchFailed" by simp
  then show "\<exists>uid. uuidText uid \<and> snd (kv s' uid) = None \<and> (\<forall>k. isUid k \<longrightarrow> k \<noteq> uid \<longrightarrow> kv s' k = kv s k)"
  proof (rule send_failed_run [OF run _ req])
    show "\<And>a e. lib_ParseAddress (plat_golib pf) a = Inr e \<Longrightarrow> validUTF8 e" using lib by blast
  next
    fix uid email
    assume u: "uuidText uid" "snd (kv s' uid) = None"
      and same: "\<And>k. k \<noteq> uid \<Longrightarrow> k \<noteq> emailIndexKey (lib_lower (plat_golib pf)) email uid \<Longrightarrow> kv s' k = kv s k"
    have "kv s' k = kv s k" if "isUid k" "k \<noteq> uid" for k
      using that by (intro same) auto
    with u show ?thesis by blast
  qed
qed

end


definition sendSample :: natsMsg where
  "sendSample = \<lparr>msg_Data = marshalSendInviteRequest sampleApiRequest, msg_Subject = SendInviteSubject, msg_ReplyTo = ''inbox''\<rparr>"


end
