(* ===== verification/Index_Invariant.thy ===== *)
theory Index_Invariant
  imports Wellformed Client_Properties
begin

text \<open>
  The index by address stays right while handlers interleave: an index entry never lists an invite
  under an address other than its recipient's, so a query by email shows nobody else's invites.
\<close>

section \<open>Consistent buckets\<close>

text \<open>
  E gives each UID its address: the record of a UID is for it, and index keys pair UIDs with it.
\<close>

definition addressed :: "(nat \<Rightarrow> nat) \<Rightarrow> (string \<Rightarrow> string) \<Rightarrow> string \<Rightarrow> string \<Rightarrow> bool" where
  "addressed u E k v \<longleftrightarrow>
     (if isUid k
      then \<exists>r. unmarshalInviteRecord v = Some r \<and> rec_UID r = k
             \<and> normalizeEmail u (rcp_Email (rec_Recipient r)) = normalizeEmail u (E k)
      else \<exists>uid. isUid uid \<and> k = emailIndexKey u (E uid) uid)"

definition consistent :: "(nat \<Rightarrow> nat) \<Rightarrow> bucket \<Rightarrow> bool" where
  "consistent u K \<longleftrightarrow> (\<exists>E. bucketBy (addressed u E) K)"

lemma consistent_index:
  assumes "consistent u K" "snd (K (emailIndexKey u email uid)) \<noteq> None" "snd (K uid) = Some v" "unmarshalInviteRecord v = Some r"
  shows "normalizeEmail u (rcp_Email (rec_Recipient r)) = normalizeEmail u email"
proof -
  obtain E where E: "\<And>k v. snd (K k) = Some v \<Longrightarrow> addressed u E k v"
    using assms(1) by (auto simp: consistent_def bucketBy_def)
  obtain w where "snd (K (emailIndexKey u email uid)) = Some w" using assms(2) by blast
  from E [OF this] obtain uid' where k: "isUid uid'" "emailIndexKey u email uid = emailIndexKey u (E uid') uid'"
    by (auto simp: addressed_def)
  then have "normalizeEmail u email = normalizeEmail u (E uid)" "isUid uid"
    using emailIndexKey_inject [of u email uid "E uid'" uid'] by auto
  with E [OF assms(3)] assms(4) show ?thesis by (simp add: addressed_def)
qed

section \<open>Handlers keep the bucket consistent\<close>

lemma allowsAccept_addressed: "allowsAccept (addressed u E)"
proof -
  have "addressed u E k data" if "addressed u E k v" "unmarshalInviteRecord v = Some r" "validUTF8 username"
    "marshalInviteRecord (acceptRecord r username t) = Some data" for k v r username t data
  proof -
    have "unmarshalInviteRecord data = Some (acceptRecord r username t)"
      using reread [OF decoded_accept [OF unmarshal_decoded [OF that(2)] that(3)] that(4)] .
    with that(1,2) show ?thesis by (simp add: addressed_def acceptRecord_def split: if_splits)
  qed
  then show ?thesis unfolding allowsAccept_def by blast
qed

text \<open>The address a message asks to invite.\<close>

definition sendAddress :: "platform \<Rightarrow> AppConfig \<Rightarrow> natsMsg \<Rightarrow> string" where
  "sendAddress pf cfg m =
     (case unmarshalSendInviteRequest (msg_Data m) of None \<Rightarrow> []
      | Some areq \<Rightarrow> (case validateSend (plat_golib pf) (notificationConfig cfg) (apiToModelRequest areq) of
            Inl err \<Rightarrow> [] | Inr (email, role) \<Rightarrow> email))"

lemma allowsSend_addressed:
  assumes "unmarshalSendInviteRequest (msg_Data m) = Some areq"
  shows "allowsSend (addressed (lib_lower (plat_golib pf)) E) (\<lambda>x. uuidText x \<and> E x = sendAddress pf cfg m) pf cfg (apiToModelRequest areq)"
  unfolding allowsSend_def
  using assms uuidText_isUid by (auto simp: addressed_def sendAddress_def dest: reread)

text \<open>The UUIDs that are drawn, each with the index of its program; none was drawn or used before.\<close>

definition drawn :: "(nat \<times> event) list \<Rightarrow> (nat \<times> string) list" where
  "drawn tr = concat (map (\<lambda>(i, e). case e of EUUID x \<Rightarrow> [(i, x)] | _ \<Rightarrow> []) tr)"

definition freshUUIDs :: "(nat \<Rightarrow> nat) \<Rightarrow> bucket \<Rightarrow> (nat \<times> event) list \<Rightarrow> bool" where
  "freshUUIDs u K tr \<longleftrightarrow> distinct (map snd (drawn tr))
     \<and> list_all (\<lambda>(i, x). uuidText x \<and> snd (K x) = None) (drawn tr)
     \<and> list_all (\<lambda>(i, x). \<forall>email. snd (K (emailIndexKey u email x)) = None) (drawn tr)"

lemma drawn_iff: "(i, x) \<in> set (drawn tr) \<longleftrightarrow> (i, EUUID x) \<in> set tr"
  by (force simp: drawn_def split: event.splits)

text \<open>Addresses for the UIDs of the bucket and for the new ones.\<close>

lemma pool_addresses:
  assumes "bucketBy (addressed u E) K" "freshUUIDs u K tr"
  obtains E' where "bucketBy (addressed u E') K" "\<And>i x. (i, EUUID x) \<in> set tr \<Longrightarrow> E' x = address i"
proof
  define owner where "owner = map_of (map (\<lambda>(i, x). (x, i)) (drawn tr))"
  define E' where "E' x = (case owner x of Some i \<Rightarrow> address i | None \<Rightarrow> E x)" for x
  have owner: "owner x = Some i \<longleftrightarrow> (i, EUUID x) \<in> set tr" for x i
  proof -
    have "distinct (map fst (map (\<lambda>(i, x). (x, i)) (drawn tr)))"
      using assms(2) by (simp add: freshUUIDs_def comp_def case_prod_beta')
    then show ?thesis unfolding owner_def by (subst map_of_eq_Some_iff) (auto simp: drawn_iff [symmetric])
  qed
  show "\<And>i x. (i, EUUID x) \<in> set tr \<Longrightarrow> E' x = address i" by (simp add: E'_def owner [symmetric])
  have old: "E' x = E x" if "snd (K x) \<noteq> None \<or> snd (K (emailIndexKey u email x)) \<noteq> None" for x email
  proof (cases "owner x")
    case (Some i)
    then have "(i, x) \<in> set (drawn tr)" by (simp add: owner drawn_iff)
    with assms(2) have "snd (K x) = None" "snd (K (emailIndexKey u email x)) = None"
      unfolding freshUUIDs_def list_all_iff by force+
    with that show ?thesis by simp
  qed (simp add: E'_def)
  show "bucketBy (addressed u E') K"
    unfolding bucketBy_def
  proof (intro allI impI)
    fix k v
    assume k: "snd (K k) = Some v"
    with assms(1) have a: "addressed u E k v" by (simp add: bucketBy_def)
    show "addressed u E' k v"
    proof (cases "isUid k")
      case True
      with a old [of k] k show ?thesis by (simp add: addressed_def)
    next
      case False
      with a obtain uid where uid: "isUid uid" "k = emailIndexKey u (E uid) uid" by (auto simp: addressed_def)
      with k have "E' uid = E uid" by (intro old [of _ "E uid"]) simp
      with uid False show ?thesis unfolding addressed_def by auto
    qed
  qed
qed

text \<open>C7: In every interleaving of any number of handlers, with failing calls and lost acknowledgements, a
  consistent bucket stays consistent: what is indexed under an address is addressed to it. So a
  query by email that runs on the resulting bucket shows nobody the invites of another address.\<close>

theorem index_stays_consistent:
  assumes "pool K (map (dispatchMsg (plat_golib pf) (wireServer pf cfg)) ms) tr K' qs"
    "consistent (lib_lower (plat_golib pf)) K" "freshUUIDs (lib_lower (plat_golib pf)) K tr"
    "validUTF8 (app_DefaultReturnURL cfg)" "\<forall>a e. lib_ParseAddress (plat_golib pf) a = Inr e \<longrightarrow> validUTF8 e"
    "kv_contract env kv" "kv s = K'"
    "run env (GetInvitesByEmail (plat_golib pf) (NATSInviteRepository (lib_lower (plat_golib pf))) email) s = (Inr invites, s')"
  shows "consistent (lib_lower (plat_golib pf)) K'
    \<and> list_all (\<lambda>i. normalizeEmail (lib_lower (plat_golib pf)) (arcp_Email (ai_Recipient i))
         = normalizeEmail (lib_lower (plat_golib pf)) (lookupAddress (plat_golib pf) email)) invites"
proof -
  let ?u = "lib_lower (plat_golib pf)"
  obtain E where "bucketBy (addressed ?u E) K" using assms(2) by (auto simp: consistent_def)
  from pool_addresses [OF this assms(3), of "\<lambda>i. sendAddress pf cfg (ms ! i)"] obtain E' where
    E': "bucketBy (addressed ?u E') K" "\<And>i x. (i, EUUID x) \<in> set tr \<Longrightarrow> E' x = sendAddress pf cfg (ms ! i)" by blast
  have "keepsBy (addressed ?u E') (\<lambda>x. uuidText x \<and> E' x = sendAddress pf cfg m) (dispatchMsg (plat_golib pf) (wireServer pf cfg) m)" for m
    by (rule handler_keepsBy [OF assms(4,5) allowsAccept_addressed allowsSend_addressed]) auto
  moreover have "uuidText x" if "(i, EUUID x) \<in> set tr" for i x
    using that assms(3) by (auto simp: freshUUIDs_def list_all_iff drawn_iff [symmetric])
  ultimately have "bucketBy (addressed ?u E') K'"
    using pool_keepsBy [OF assms(1), of "addressed ?u E'" "\<lambda>i x. uuidText x \<and> E' x = sendAddress pf cfg (ms ! i)"] E' by auto
  then have c: "consistent ?u K'" by (auto simp: consistent_def)
  have "normalizeEmail ?u (rcp_Email (rec_Recipient r)) = normalizeEmail ?u (lookupAddress (plat_golib pf) email)"
    if "indexedOf ?u kv s (lookupAddress (plat_golib pf) email) uid" "recordsOf kv s uid = Some r" for uid r
    using that consistent_index [OF c, of "lookupAddress (plat_golib pf) email" uid] assms(7)
    by (auto simp: indexedOf_def recordsOf_def split: option.splits)
  with c kv_contract.GetInvitesByEmail_run(2) [OF assms(6,8)] show ?thesis
    by (auto simp: list_all_iff domainToAPIInvite_def)
qed

text \<open>The sample request on an empty bucket.\<close>

lemma sample_pool:
  defines "K' \<equiv> (\<lambda>k. (0, None))(''1'' := (1, Some (recordData sentSample)), sampleIndexKey := (2, Some ''1''))"
  shows "\<exists>tr qs. pool (\<lambda>k. (0, None)) (map (dispatchMsg (plat_golib samplePlatform) (wireServer samplePlatform sampleConfig)) [sendSample])
      tr K' qs \<and> drawn tr = [(0, ''1'')]"
proof -
  let ?h = "dispatchMsg (plat_golib samplePlatform) (wireServer samplePlatform sampleConfig) sendSample"
  let ?K = "\<lambda>k. (0::nat, None :: string option)"
  let ?tr = "\<lambda>d. sentTrace @ [EReply d None]"
  have sent: "exec (HandleSendInvite sampleGolib sampleService sendRequest) sentTrace (Inr sentResult)"
    using exec_traceOf [of "sampleSend samplePlatform" mem_env sendMem] sample_sent by auto
  have u: "unmarshalSendInviteRequest (msg_Data sendSample) = Some sampleApiRequest"
    unfolding sendSample_def natsMsg.simps by (rule send_request_roundtrip [OF sampleApiRequest(2)])
  have "validSendResponse (sendResponse (Inr sentResult))"
    using validTime_week
    by (simp add: sendResponse_def validSendResponse_def sentResult_def validUTF8_ascii is_ascii_Char)
  then obtain d where d: "marshalSendInviteResponse (sendResponse (Inr sentResult)) = Some d"
    using send_response_roundtrip by (auto simp: validSendResponse_def)
  have "exec (bind (Reply sendSample d) (\<lambda>e. Return ())) [EReply d None] ()"
    by (simp add: Reply_def sendSample_def prog_simps)
  with u d have "exec (handleSendInvite (plat_golib samplePlatform) (wireServer samplePlatform sampleConfig) sendSample) (?tr d) ()"
    by (auto simp: handleSendInvite_def sampleApiRequest sendResponse_def intro!: exec_bindI [OF sent])
  moreover have "msg_Subject sendSample = SendInviteSubject" by (simp add: sendSample_def)
  ultimately have "exec ?h (?tr d) ()" by (simp add: dispatchMsg_def)
  moreover have "freshTrace (?tr d) ?K K'"
    by (simp add: sentTrace_def freshStep_def K'_def)
  ultimately have "pool ?K [?h] ([] @ map (Pair 0) (?tr d)) K' ([?h][0 := Return ()])"
    by (intro pool_exec [where p = ?h]) (auto intro: pool_start)
  moreover have "drawn ([] @ map (Pair 0) (?tr d)) = [(0, ''1'')]" by (simp add: drawn_def sentTrace_def)
  ultimately show ?thesis by auto
qed

theorem index_stays_consistent_witness:
  "\<exists>K' tr qs (invites :: Invite list). pool (\<lambda>k. (0, None)) (map (dispatchMsg (plat_golib samplePlatform) (wireServer samplePlatform sampleConfig)) [sendSample]) tr K' qs
     \<and> snd (K' sampleIndexKey) = Some ''1'' \<and> consistent (\<lambda>r. r) K'
     \<and> list_all (\<lambda>i. normalizeEmail (\<lambda>r. r) (arcp_Email (ai_Recipient i)) = normalizeEmail (\<lambda>r. r) ''ada@lfx.dev'') invites"
proof -
  let ?K = "(\<lambda>k. (0, None))(''1'' := (1, Some (recordData sentSample)), sampleIndexKey := (2, Some ''1''))"
  obtain tr qs where p: "pool (\<lambda>k. (0, None)) (map (dispatchMsg (plat_golib samplePlatform) (wireServer samplePlatform sampleConfig)) [sendSample])
      tr ?K qs" "drawn tr = [(0, ''1'')]"
    using sample_pool by blast
  obtain s1 where k: "mem_kv s1 = ?K" using sample_sent by blast
  from kv_reliable.GetInvitesByEmail_reliable [OF mem_reliable sent_readable [OF k]] obtain invites s3 where
    l: "run mem_env (GetInvitesByEmail sampleGolib (NATSInviteRepository (\<lambda>r. r)) ''ada@lfx.dev'') s1 = (Inr invites, s3)"
    by blast
  have c: "consistent (lib_lower (plat_golib samplePlatform)) (\<lambda>k. (0, None))" by (simp add: consistent_def bucketBy_def)
  have f: "freshUUIDs (lib_lower (plat_golib samplePlatform)) (\<lambda>k. (0, None)) tr"
    by (simp add: freshUUIDs_def p(2) uuidText_def is_digit_def byte_def)
  have d: "validUTF8 (app_DefaultReturnURL sampleConfig)" by (simp add: validUTF8_ascii is_ascii_Char)
  have a: "\<forall>a e. lib_ParseAddress (plat_golib samplePlatform) a = Inr e \<longrightarrow> validUTF8 e"
    by (auto simp: sampleGolib_def split: if_splits)
  have lower: "lib_lower sampleGolib = (\<lambda>r. r)" by (simp add: sampleGolib_def)
  have "snd ((?K :: bucket) sampleIndexKey) = Some ''1''" by simp
  moreover note index_stays_consistent [OF p(1) c f d a mem_contract k, of "''ada@lfx.dev''" invites s3,
      unfolded samplePlatform_simps lookup_ada lower, OF l]
  ultimately show ?thesis using p(1) unfolding samplePlatform_simps by (elim conjE) (intro exI conjI; assumption)
qed

end
