(* ===== verification/Invite_States.thy ===== *)
theory Invite_States
  imports Bucket_Invariants
begin

text \<open>
  The life of one invite: the states it can be in, the steps between them, and programs that only
  take such steps. In a pool of such programs the entry of the invite in the bucket moves along the
  steps, however the calls interleave and whatever they answer.
\<close>

section \<open>States of an invite\<close>

text \<open>
  \<open>Unborn\<close> is a key that was never written, \<open>Withdrawn\<close> one that was deleted, and \<open>Unreadable\<close> one
  whose value does not decode.
\<close>

datatype inviteState = Unborn | Live InviteRecord | Unreadable | Withdrawn

fun stateOf :: "nat \<times> string option \<Rightarrow> inviteState" where
  "stateOf (n, None) = (if n = 0 then Unborn else Withdrawn)"
| "stateOf (n, Some v) = (case unmarshalInviteRecord v of None \<Rightarrow> Unreadable | Some r \<Rightarrow> Live r)"

definition pendingRecord :: "string \<Rightarrow> InviteRecord \<Rightarrow> bool" where
  "pendingRecord uid r \<longleftrightarrow>
     rec_UID r = uid \<and> rec_Status r = InviteStatusPending \<and> rec_AcceptedAt r = None \<and> rec_AcceptedBy r = []"

text \<open>
  An invite is created pending, is accepted while it is not, by somebody and before it expires, and
  is withdrawn when its email cannot be sent. Nothing else happens to it.
\<close>

inductive inviteStep :: "string \<Rightarrow> inviteState \<Rightarrow> inviteState \<Rightarrow> bool" for uid where
  created: "pendingRecord uid r \<Longrightarrow> inviteStep uid Unborn (Live r)"
| accepted: "rec_Status r \<noteq> InviteStatusAccepted \<Longrightarrow> username \<noteq> [] \<Longrightarrow> before t (rec_ExpiresAt r) \<Longrightarrow>
    inviteStep uid (Live r) (Live (acceptRecord r username t))"
| withdrawn: "inviteStep uid (Live r) Withdrawn"

inductive_cases inviteStep_Live: "inviteStep uid (Live r) s"
inductive_cases inviteStep_Withdrawn: "inviteStep uid Withdrawn s"
inductive_cases inviteStep_Unreadable: "inviteStep uid Unreadable s"

text \<open>What a live invite can become: what it is, its accepted form, or withdrawn.\<close>

definition laterState :: "InviteRecord \<Rightarrow> inviteState \<Rightarrow> bool" where
  "laterState r s \<longleftrightarrow> s = Live r \<or> s = Withdrawn
     \<or> rec_Status r \<noteq> InviteStatusAccepted
       \<and> (\<exists>username t. username \<noteq> [] \<and> before t (rec_ExpiresAt r) \<and> s = Live (acceptRecord r username t))"

lemma withdrawn_final: "(inviteStep uid)\<^sup>*\<^sup>* Withdrawn s \<Longrightarrow> s = Withdrawn"
  by (induction rule: rtranclp_induct) (auto elim: inviteStep_Withdrawn)

lemma live_later: "(inviteStep uid)\<^sup>*\<^sup>* (Live r) s \<Longrightarrow> laterState r s"
proof (induction rule: rtranclp_induct)
  case base
  then show ?case by (simp add: laterState_def)
next
  case (step s s')
  from step.IH consider "s = Live r" | "s = Withdrawn"
    | username t where "s = Live (acceptRecord r username t)" "s' = s \<or> s' = Withdrawn" "laterState r s"
    unfolding laterState_def using step.hyps(2)
    by (auto simp: acceptRecord_status elim!: inviteStep_Live)
  then show ?case
  proof cases
    case 1
    with step.hyps(2) show ?thesis by (auto simp: laterState_def elim!: inviteStep_Live)
  next
    case 2
    with step.hyps(2) show ?thesis by (auto elim: inviteStep_Withdrawn)
  next
    case 3
    then show ?thesis by (auto simp: laterState_def)
  qed
qed

section \<open>Programs that take these steps\<close>

text \<open>
  What a program may do to the key uid depends on its role: a stranger only accepts the record it
  has read, by compare-and-set; who draws uid as a new UUID may write a pending record, once, and
  delete it when the write was acknowledged.
\<close>

datatype role = Stranger | Drawer | Writer | Loser

fun afterPut :: "string \<Rightarrow> string \<Rightarrow> liberr + nat \<Rightarrow> role \<Rightarrow> role" where
  "afterPut uid k (Inr n) role = (if k = uid then Writer else role)"
| "afterPut uid k (Inl e) role = (if k = uid then Loser else role)"

fun reads :: "string \<Rightarrow> string \<Rightarrow> liberr + (string \<times> nat) \<Rightarrow> (nat \<times> string) set \<Rightarrow> (nat \<times> string) set" where
  "reads uid k (Inr (v, n)) seen = (if k = uid then insert (n, v) seen else seen)"
| "reads uid k (Inl e) seen = seen"

definition createdValue :: "string \<Rightarrow> string \<Rightarrow> bool" where
  "createdValue uid v \<longleftrightarrow> (\<exists>r. unmarshalInviteRecord v = Some r \<and> pendingRecord uid r)"

definition acceptsValue :: "string \<Rightarrow> string \<Rightarrow> bool" where
  "acceptsValue v v' \<longleftrightarrow> (\<exists>r username t. unmarshalInviteRecord v = Some r \<and> rec_Status r \<noteq> InviteStatusAccepted
     \<and> username \<noteq> [] \<and> before t (rec_ExpiresAt r) \<and> unmarshalInviteRecord v' = Some (acceptRecord r username t))"

primrec follows :: "string \<Rightarrow> 'a prog \<Rightarrow> role \<Rightarrow> (nat \<times> string) set \<Rightarrow> bool" where
  "follows uid (Return a) role seen \<longleftrightarrow> True"
| "follows uid (Now f) role seen \<longleftrightarrow> (\<forall>x. follows uid (f x) role seen)"
| "follows uid (NewUUID f) role seen \<longleftrightarrow>
     role = Stranger \<and> (\<forall>x. uuidText x \<longrightarrow> follows uid (f x) (if x = uid then Drawer else role) seen)"
| "follows uid (CtxErr f) role seen \<longleftrightarrow> (\<forall>x. follows uid (f x) role seen)"
| "follows uid (RangeMap m f) role seen \<longleftrightarrow> (\<forall>x. mset x = mset m \<longrightarrow> follows uid (f x) role seen)"
| "follows uid (KvGet k f) role seen \<longleftrightarrow> (\<forall>x. follows uid (f x) role (reads uid k x seen))"
| "follows uid (KvPut k v f) role seen \<longleftrightarrow>
     (k = uid \<longrightarrow> role = Drawer \<and> createdValue uid v) \<and> (\<forall>x. follows uid (f x) (afterPut uid k x role) seen)"
| "follows uid (KvUpdate k v r f) role seen \<longleftrightarrow>
     (k = uid \<longrightarrow> (\<exists>v0. (r, v0) \<in> seen \<and> acceptsValue v0 v)) \<and> (\<forall>x. follows uid (f x) role seen)"
| "follows uid (KvDelete k f) role seen \<longleftrightarrow> (k = uid \<longrightarrow> role = Writer) \<and> (\<forall>x. follows uid (f x) role seen)"
| "follows uid (KvListKeys f) role seen \<longleftrightarrow> (\<forall>x. follows uid (f x) role seen)"
| "follows uid (NatsRequest c d f) role seen \<longleftrightarrow> (\<forall>x. follows uid (f x) role seen)"
| "follows uid (NatsPublish c d f) role seen \<longleftrightarrow> (\<forall>x. follows uid (f x) role seen)"
| "follows uid (MsgReply d f) role seen \<longleftrightarrow> (\<forall>x. follows uid (f x) role seen)"
| "follows uid (Audit e p) role seen \<longleftrightarrow> follows uid p role seen"

text \<open>A continuation that may run in any role and with any knowledge.\<close>

lemma follows_bind: "follows uid p role seen \<Longrightarrow> (\<And>a role seen. follows uid (g a) role seen) \<Longrightarrow> follows uid (bind p g) role seen"
  by (induction p arbitrary: role seen) auto

lemma follows_choice:
  "(\<And>x. follows uid (f x) role seen) \<Longrightarrow> (\<And>y. follows uid (g y) role seen) \<Longrightarrow> follows uid (case_sum f g s) role seen"
  "follows uid p role seen \<Longrightarrow> (\<And>x. follows uid (h x) role seen) \<Longrightarrow> follows uid (case_option p h v) role seen"
  "follows uid p role seen \<Longrightarrow> follows uid q role seen \<Longrightarrow> follows uid (if c then p else q) role seen"
  by (auto split: sum.splits option.splits)

lemmas follows_intros = follows_bind follows_choice

section \<open>Pools of such programs\<close>

text \<open>What a program knows of the entry holds, and so does what its role says.\<close>

definition knownOK :: "nat \<times> string option \<Rightarrow> (nat \<times> string) set \<Rightarrow> bool" where
  "knownOK e seen \<longleftrightarrow> (\<forall>(n, v) \<in> seen. n \<le> fst e \<and> (n = fst e \<longrightarrow> snd e = Some v))"

fun roleOK :: "inviteState \<Rightarrow> role \<Rightarrow> bool" where
  "roleOK s Drawer \<longleftrightarrow> s = Unborn"
| "roleOK s Writer \<longleftrightarrow> s = Withdrawn \<or> (\<exists>r. s = Live r)"
| "roleOK s _ \<longleftrightarrow> True"

lemma knownOK_fresh: "knownOK e seen \<Longrightarrow> e' = e \<or> fst e < fst e' \<Longrightarrow> knownOK e' seen"
  unfolding knownOK_def by fastforce

lemma stateOf_Some [simp]: "unmarshalInviteRecord v = Some r \<Longrightarrow> stateOf (n, Some v) = Live r"
  by simp

lemma stateOf_Unborn: "stateOf e = Unborn \<longleftrightarrow> e = (0, None)"
  by (cases e rule: stateOf.cases) (auto split: option.splits)

lemma stateOf_deleted: "0 < n \<Longrightarrow> stateOf (n, None) = Withdrawn"
  by simp

text \<open>What a call does to the entry.\<close>

lemma entry_step:
  "kvStep (EPut k v x) K K' \<Longrightarrow> (case x of Inr m \<Rightarrow> k = uid \<longrightarrow> K' uid = (m, Some v) | Inl e \<Rightarrow> True)
     \<and> (K' uid = K uid \<or> k = uid \<and> (\<exists>n. K' uid = (n, Some v)))"
  "kvStep (EUpdate k v r y) K K' \<Longrightarrow> K' uid = K uid \<or> k = uid \<and> fst (K uid) = r \<and> (\<exists>n. K' uid = (n, Some v))"
  "kvStep (EDelete k d) K K' \<Longrightarrow> K' uid = K uid \<or> k = uid \<and> (\<exists>n. K' uid = (n, None))"
  subgoal by (cases x) (auto split: if_splits)
  subgoal by (cases y) (auto split: if_splits)
  subgoal by (cases d) (auto split: if_splits)
  done

lemma knownOK_read: "K uid = (n, Some v) \<Longrightarrow> knownOK (K uid) seen \<Longrightarrow> knownOK (K uid) (insert (n, v) seen)"
  by (simp add: knownOK_def)

text \<open>One call: the entry stays in its state or takes a step, and role and knowledge stay right.\<close>

definition followStep :: "string \<Rightarrow> nat \<times> string option \<Rightarrow> nat \<times> string option \<Rightarrow> role \<Rightarrow> bool \<Rightarrow> 'a prog \<Rightarrow> bool" where
  "followStep uid e e' role draws q \<longleftrightarrow> (stateOf e' = stateOf e \<or> inviteStep uid (stateOf e) (stateOf e'))
     \<and> (\<exists>role' seen'. follows uid q role' seen' \<and> knownOK e' seen' \<and> roleOK (stateOf e') role'
        \<and> (role = Stranger \<and> \<not> draws \<longrightarrow> role' = Stranger))
     \<and> (role = Stranger \<longrightarrow> e' = e \<or> (\<exists>r r'. stateOf e = Live r \<and> stateOf e' = Live r'))"

lemma follow_stay:
  assumes "e' = e" "follows uid q role' seen'" "knownOK e seen'" "roleOK (stateOf e) role'"
    "role = Stranger \<and> \<not> draws \<longrightarrow> role' = Stranger"
  shows "followStep uid e e' role draws q"
  unfolding followStep_def using assms by auto

lemma follow_write:
  assumes "fst e < fst e'" "follows uid q role' seen" "knownOK e seen" "roleOK (stateOf e') role'"
    "stateOf e' = stateOf e \<or> inviteStep uid (stateOf e) (stateOf e')"
    "role = Stranger \<longrightarrow> role' = Stranger \<and> (\<exists>r r'. stateOf e = Live r \<and> stateOf e' = Live r')"
  shows "followStep uid e e' role draws q"
  unfolding followStep_def using assms knownOK_fresh [OF assms(3), of e'] by blast

lemma follows_put:
  assumes "follows uid (KvPut k v f) role seen" "kvStep (EPut k v x) K K'" "K' uid = K uid \<or> fst (K uid) < fst (K' uid)"
    "knownOK (K uid) seen" "roleOK (stateOf (K uid)) role"
  shows "followStep uid (K uid) (K' uid) role False (f x)"
proof (cases "k = uid \<and> K' uid \<noteq> K uid")
  case True
  with assms(1,5) have d: "role = Drawer" "createdValue uid v" "K uid = (0, None)" by (auto simp: stateOf_Unborn)
  then obtain r where r: "unmarshalInviteRecord v = Some r" "pendingRecord uid r" by (auto simp: createdValue_def)
  obtain n where "K' uid = (n, Some v)" using entry_step(1) [OF assms(2), of uid] True by auto
  then have s: "stateOf (K' uid) = Live r" "stateOf (K uid) = Unborn" using r d(3) by auto
  have "fst (K uid) < fst (K' uid)" using assms(3) True by blast
  moreover have "follows uid (f x) (afterPut uid k x role) seen" using assms(1) by simp
  moreover have "roleOK (stateOf (K' uid)) (afterPut uid k x role)" using True by (cases x) (simp_all add: s(1))
  moreover have "inviteStep uid (stateOf (K uid)) (stateOf (K' uid))" unfolding s using r(2) by (rule inviteStep.created)
  ultimately show ?thesis
    using follow_write [of "K uid" "K' uid" uid "f x" "afterPut uid k x role" seen role False] assms(4) d(1) by blast
next
  case False
  have "K' uid = K uid" using entry_step(1) [OF assms(2), of uid] False by auto
  moreover have "roleOK (stateOf (K uid)) (afterPut uid k x role)"
  proof (cases "k = uid")
    case True
    with assms(1,5) have "K uid = (0, None)" by (auto simp: stateOf_Unborn)
    with calculation entry_step(1) [OF assms(2), of uid] True show ?thesis by (cases x) auto
  qed (use assms(5) in \<open>cases x; auto\<close>)
  moreover have "follows uid (f x) (afterPut uid k x role) seen" using assms(1) by simp
  moreover have "k = uid \<longrightarrow> role = Drawer" using assms(1) by simp
  then have "role = Stranger \<longrightarrow> afterPut uid k x role = Stranger" by (cases x) simp_all
  ultimately show ?thesis
    using follow_stay [of "K' uid" "K uid" uid "f x" "afterPut uid k x role" seen role False] assms(4) by blast
qed

lemma follows_update:
  assumes "follows uid (KvUpdate k v r f) role seen" "kvStep (EUpdate k v r x) K K'" "K' uid = K uid \<or> fst (K uid) < fst (K' uid)"
    "knownOK (K uid) seen" "roleOK (stateOf (K uid)) role"
  shows "followStep uid (K uid) (K' uid) role False (f x)"
proof (cases "K' uid = K uid")
  case True
  with assms show ?thesis by (intro follow_stay [where role' = role and seen' = seen]) auto
next
  case False
  with entry_step(2) [OF assms(2), of uid] obtain n where
    k: "k = uid" "fst (K uid) = r" "K' uid = (n, Some v)" by auto
  with assms(1) obtain v0 where v0: "(r, v0) \<in> seen" "acceptsValue v0 v" by auto
  then have "snd (K uid) = Some v0" using assms(4) k(2) by (auto simp: knownOK_def)
  then have K: "K uid = (r, Some v0)" using k(2) by (simp add: prod_eq_iff)
  from v0(2) obtain rc username t where
    a: "unmarshalInviteRecord v0 = Some rc" "rec_Status rc \<noteq> InviteStatusAccepted" "username \<noteq> []"
      "before t (rec_ExpiresAt rc)" "unmarshalInviteRecord v = Some (acceptRecord rc username t)"
    by (auto simp: acceptsValue_def)
  then have s: "stateOf (K uid) = Live rc" "stateOf (K' uid) = Live (acceptRecord rc username t)" by (simp_all add: K k(3))
  have "roleOK (stateOf (K' uid)) role" using assms(5) s by (cases role) auto
  then show ?thesis
    by (intro follow_write [where role' = role and seen = seen]) (use assms False s a in \<open>auto intro: inviteStep.accepted\<close>)
qed

lemma follows_delete:
  assumes "follows uid (KvDelete k f) role seen" "kvStep (EDelete k d) K K'" "K' uid = K uid \<or> fst (K uid) < fst (K' uid)"
    "knownOK (K uid) seen" "roleOK (stateOf (K uid)) role"
  shows "followStep uid (K uid) (K' uid) role False (f d)"
proof (cases "K' uid = K uid")
  case True
  with assms show ?thesis by (intro follow_stay [where role' = role and seen' = seen]) auto
next
  case False
  with entry_step(3) [OF assms(2), of uid] obtain n where k: "k = uid" "K' uid = (n, None)" by auto
  with assms(1) have w: "role = Writer" by auto
  have "stateOf (K' uid) = Withdrawn" using assms(3) False by (simp add: k(2))
  with assms(1,5) w show ?thesis
    by (intro follow_write [where role' = role and seen = seen])
       (use assms(3,4) False in \<open>auto intro: inviteStep.withdrawn\<close>)
qed

lemma follows_step:
  assumes "pstep p e q" "follows uid p role seen" "freshStep e K K'" "knownOK (K uid) seen" "roleOK (stateOf (K uid)) role"
    "\<And>x. e = EUUID x \<Longrightarrow> uuidText x" "e = EUUID uid \<Longrightarrow> stateOf (K uid) = Unborn"
  shows "followStep uid (K uid) (K' uid) role (e = EUUID uid) q"
proof -
  have k: "kvStep e K K'" "K' uid = K uid \<or> fst (K uid) < fst (K' uid)"
    using assms(3) unfolding freshStep_def by blast+
  show ?thesis
    using assms(1)
  proof cases
    case (2 f x)
    with k assms show ?thesis by (intro follow_stay [where role' = "if x = uid then Drawer else role" and seen' = seen]) auto
  next
    case (5 k f x)
    have K: "K' = K" using k(1) 5 by (auto dest: kvStep_noWrite)
    have "knownOK (K uid) (reads uid k x seen)"
      using k(1) 5 assms(4) by (cases "(uid, k, x, seen)" rule: reads.cases) (auto intro: knownOK_read)
    with 5 assms K show ?thesis by (intro follow_stay [where role' = role and seen' = "reads uid k x seen"]) auto
  next
    case (6 k v f x)
    with follows_put [of uid k v f role seen x K K'] k assms show ?thesis by simp
  next
    case (7 k v r f x)
    with follows_update [of uid k v r f role seen x K K'] k assms show ?thesis by simp
  next
    case (8 k f x)
    with follows_delete [of uid k f role seen x K K'] k assms show ?thesis by simp
  next
    case (9 f x)
    have "K' = K" using k(1) 9 by (auto dest: kvStep_noWrite)
    with 9 assms show ?thesis by (intro follow_stay [where role' = role and seen' = seen]) auto
  qed (use assms k(1) in \<open>(intro follow_stay [where role' = role and seen' = seen]; auto)+\<close>)
qed

text \<open>How often the UID is drawn as a new UUID.\<close>

definition draws :: "string \<Rightarrow> (nat \<times> event) list \<Rightarrow> nat" where
  "draws uid tr = length (filter (\<lambda>(i, e). e = EUUID uid) tr)"

lemma draws_simps [simp]:
  "draws uid [] = 0" "draws uid (tr @ tr') = draws uid tr + draws uid tr'"
  "draws uid [(i, e)] = (if e = EUUID uid then 1 else 0)"
  by (simp_all add: draws_def)

text \<open>
  The invariant of a pool: every program follows the steps in a role and with knowledge that fit the
  entry, at most one is not a stranger, and as long as the UID can still be drawn (n of the trace
  to come) nobody has touched it.
\<close>

definition follower :: "string \<Rightarrow> nat \<times> string option \<Rightarrow> 'a prog \<Rightarrow> role \<Rightarrow> bool" where
  "follower uid e p role \<longleftrightarrow> roleOK (stateOf e) role \<and> (\<exists>seen. follows uid p role seen \<and> knownOK e seen)"

definition steady :: "string \<Rightarrow> nat \<Rightarrow> nat \<times> string option \<Rightarrow> 'a prog list \<Rightarrow> (nat \<Rightarrow> role) \<Rightarrow> bool" where
  "steady uid n e ps roles \<longleftrightarrow> (\<forall>i < length ps. follower uid e (ps ! i) (roles i))
     \<and> (\<forall>i < length ps. \<forall>j < length ps. roles i \<noteq> Stranger \<longrightarrow> roles j \<noteq> Stranger \<longrightarrow> i = j)
     \<and> (0 < n \<longrightarrow> n = 1 \<and> stateOf e = Unborn \<and> (\<forall>i < length ps. roles i = Stranger))"

lemma steady_start:
  assumes "\<forall>p \<in> set ps. follows uid p Stranger {}" "n \<le> (if e = (0, None) then 1 else 0)"
  shows "steady uid n e ps (\<lambda>_. Stranger)"
  using assms by (auto simp: steady_def follower_def knownOK_def split: if_splits intro!: exI [of _ "{}"])

text \<open>A step of another program leaves a follower one.\<close>

lemma follower_other:
  assumes "follower uid e p role" "e' = e \<or> fst e < fst e'" "e' = e \<or> role = Stranger \<or> (\<exists>r r'. stateOf e = Live r \<and> stateOf e' = Live r')"
  shows "follower uid e' p role"
proof (cases "e' = e")
  case True
  with assms(1) show ?thesis by simp
next
  case False
  with assms(3) have "role = Stranger \<or> (\<exists>r r'. stateOf e = Live r \<and> stateOf e' = Live r')" by blast
  with assms(1) have "roleOK (stateOf e') role" by (cases role) (auto simp: follower_def)
  with assms(1,2) knownOK_fresh show ?thesis unfolding follower_def by blast
qed

lemma steady_step:
  assumes "steady uid (n + draws uid [(i, e)]) (K uid) qs roles" "i < length qs" "pstep (qs ! i) e q" "freshStep e K K'"
    "\<And>x. e = EUUID x \<Longrightarrow> uuidText x"
  shows "\<exists>roles'. steady uid n (K' uid) (qs[i := q]) roles' \<and> (stateOf (K' uid) = stateOf (K uid) \<or> inviteStep uid (stateOf (K uid)) (stateOf (K' uid)))"
proof -
  have F: "follower uid (K uid) (qs ! j) (roles j)" if "j < length qs" for j using assms(1) that by (simp add: steady_def)
  have one: "j = k" if "j < length qs" "k < length qs" "roles j \<noteq> Stranger" "roles k \<noteq> Stranger" for j k
    using assms(1) that unfolding steady_def by blast
  have born: "n + draws uid [(i, e)] = 1" "stateOf (K uid) = Unborn" "\<And>j. j < length qs \<Longrightarrow> roles j = Stranger"
    if "0 < n \<or> e = EUUID uid" using assms(1) that unfolding steady_def by auto
  obtain seen where f: "follows uid (qs ! i) (roles i) seen" "knownOK (K uid) seen" "roleOK (stateOf (K uid)) (roles i)"
    using F [OF assms(2)] by (auto simp: follower_def)
  have st: "followStep uid (K uid) (K' uid) (roles i) (e = EUUID uid) q"
    by (rule follows_step [OF assms(3) f(1) assms(4) f(2,3)]) (use assms(5) born in auto)
  then obtain role' where r: "follower uid (K' uid) q role'" "roles i = Stranger \<and> e \<noteq> EUUID uid \<longrightarrow> role' = Stranger"
    and move: "stateOf (K' uid) = stateOf (K uid) \<or> inviteStep uid (stateOf (K uid)) (stateOf (K' uid))"
    and alien: "roles i = Stranger \<longrightarrow> K' uid = K uid \<or> (\<exists>r r'. stateOf (K uid) = Live r \<and> stateOf (K' uid) = Live r')"
    unfolding followStep_def follower_def by blast
  have fresh: "K' uid = K uid \<or> fst (K uid) < fst (K' uid)" using assms(4) by (simp add: freshStep_def)
  have other: "follower uid (K' uid) (qs ! j) (roles j)" if j: "j < length qs" "j \<noteq> i" for j
    by (rule follower_other [OF F [OF j(1)] fresh]) (use alien one [OF j(1) assms(2)] j(2) in blast)
  let ?roles = "roles(i := role')"
  have "follower uid (K' uid) (qs[i := q] ! j) (?roles j)" if "j < length qs" for j
    using other [OF that] r(1) that by (cases "j = i") simp_all
  moreover have "j = k" if "j < length qs" "k < length qs" "?roles j \<noteq> Stranger" "?roles k \<noteq> Stranger" for j k
    using that one [of j k] r(2) born(3) [of j] born(3) [of k] one [OF that(1) assms(2)] one [OF that(2) assms(2)]
    by (auto split: if_splits)
  moreover have "n = 1 \<and> stateOf (K' uid) = Unborn \<and> (\<forall>j < length qs. ?roles j = Stranger)" if "0 < n"
  proof -
    have d: "e \<noteq> EUUID uid" "n = 1" using born(1) that by (auto split: if_splits)
    with born(2,3) that r(2) alien assms(2) show ?thesis by auto
  qed
  ultimately have "steady uid n (K' uid) (qs[i := q]) ?roles" unfolding steady_def by simp
  with move show ?thesis by blast
qed

text \<open>Whatever is still to be drawn later (n), a run of the pool is a path of the invite.\<close>

lemma pool_path:
  assumes "pool K ps tr K' qs" "steady uid (n + draws uid tr) (K uid) ps roles" "\<forall>u. EUUID u \<in> snd ` set tr \<longrightarrow> uuidText u"
  shows "\<exists>roles'. steady uid n (K' uid) qs roles' \<and> (inviteStep uid)\<^sup>*\<^sup>* (stateOf (K uid)) (stateOf (K' uid))"
  using assms
proof (induction arbitrary: n rule: pool.induct)
  case (pool_start K ps)
  then show ?case by auto
next
  case (pool_step K ps tr K1 qs i e q K2)
  have "steady uid ((n + draws uid [(i, e)]) + draws uid tr) (K uid) ps roles" using pool_step.prems(1) by (simp add: add_ac)
  moreover have "\<forall>u. EUUID u \<in> snd ` set tr \<longrightarrow> uuidText u" using pool_step.prems(2) by auto
  ultimately obtain roles1 where
    s: "steady uid (n + draws uid [(i, e)]) (K1 uid) qs roles1" "(inviteStep uid)\<^sup>*\<^sup>* (stateOf (K uid)) (stateOf (K1 uid))"
    using pool_step.IH by blast
  have "uuidText x" if "e = EUUID x" for x using pool_step.prems(2) that by auto
  from steady_step [OF s(1) pool_step.hyps(2,3,4) this] s(2) show ?case
    by (metis rtranclp.rtrancl_into_rtrancl)
qed

end
