(* ===== verification/Invite_Lifecycle.thy ===== *)
theory Invite_Lifecycle
  imports Invite_States Index_Invariant
begin

text \<open>
  The handlers of the service take only the steps of \<open>Invite_States\<close>: whatever happens at once on
  any number of replicas, every invite goes through its life, and what was once stored about it stays.
\<close>

section \<open>The handlers follow the steps\<close>

lemma MarkAccepted_follows:
  assumes "validUTF8 username" "username \<noteq> []"
  shows "follows uid (MarkAccepted k username t) role seen"
proof -
  have accepts: "acceptsValue v data"
    if "unmarshalInviteRecord v = Some r" "rec_Status r \<noteq> InviteStatusAccepted" "before t (rec_ExpiresAt r)"
      "marshalInviteRecord (acceptRecord r username t) = Some data" for v r data
  proof -
    have "decodedRecord (acceptRecord r username t)" using unmarshal_decoded [OF that(1)] assms(1) by (rule decoded_accept)
    from reread [OF this that(4)] that assms(2) show ?thesis unfolding acceptsValue_def by blast
  qed
  have "follows uid (markAttempts n k username t) role seen" for n
  proof (induction n arbitrary: seen)
    case (Suc n)
    then show ?case
      using accepts by (auto simp: Let_def intro!: follows_choice split: sum.splits option.splits)
  qed simp
  then show ?thesis by (simp add: MarkAccepted_def)
qed

lemma calls_follow:
  "follows uid (Publish subj d) role seen" "follows uid (Reply m d) role seen" "follows uid (GetByUID k) role seen"
  "follows uid (Verify jwt secret token) role seen"
  unfolding Publish_def Reply_def GetByUID_def Verify_def Let_def by (auto split: option.splits sum.splits)

lemma loadRecords_follows: "follows uid (loadRecords uids acc) role seen"
  by (induction uids arbitrary: acc role seen) (auto intro!: follows_intros calls_follow split: sum.splits)

lemma queries_follow:
  "follows uid (GetInvite (NATSInviteRepository u) k) role seen"
  "follows uid (GetInvitesByEmail lib (NATSInviteRepository u) email) role seen"
  unfolding GetInvite_def GetInvitesByEmail_def NATSInviteRepository_simps GetByEmail_def Let_def
  by (auto intro!: follows_intros calls_follow loadRecords_follows split: sum.splits option.splits)

lemma replies_follow:
  "follows uid (replyError m code) role seen" "follows uid (replyGetInviteError m code) role seen"
  "follows uid (replyGetByEmailError m code) role seen"
  unfolding replyError_def replyGetInviteError_def replyGetByEmailError_def
  by (auto intro!: follows_bind calls_follow)

lemmas follow_calls = calls_follow queries_follow replies_follow

lemma HandleInviteAccepted_follows:
  assumes "validUTF8 (evt_Username evt)"
  shows "follows uid (HandleInviteAccepted (acceptanceService u jwt secret) evt) role seen"
proof -
  have "follows uid (verifyAcceptance (acceptanceService u jwt secret) evt rc now) role seen" for rc now role seen
    unfolding verifyAcceptance_def by (auto intro!: follows_intros calls_follow split: sum.splits)
  then show ?thesis
    unfolding HandleInviteAccepted_def publishAccepted_def Let_def
    by (auto intro!: follows_intros calls_follow MarkAccepted_follows [OF assms] split: sum.splits option.splits)
qed

text \<open>
  A send writes the record of the UUID it drew, and withdraws it when the email cannot be sent; the
  keys of the index are not UIDs.
\<close>

lemma DeleteInvite_follows:
  assumes "isUid uid" "k = uid \<longrightarrow> role = Writer"
  shows "follows uid (DeleteInvite u k) role seen"
  unfolding DeleteInvite_def using assms(2) isUid_neq_indexKey [OF assms(1), symmetric]
  by (auto split: option.splits sum.splits)

lemma dispatchInvite_follows:
  assumes "isUid uid" "gl_InviteUID g = uid \<longrightarrow> role = Writer"
  shows "follows uid (dispatchInvite (notificationService pf cfg) req email name g) role seen"
  unfolding dispatchInvite_def emailFailed_def emailSent_def auditNotification_def notificationService_simps
    SendNotification_def Request_def
  using assms by (auto intro!: follows_bind DeleteInvite_follows split: option.splits sum.splits)

lemma persistInvite_follows:
  assumes "isUid uid" "gl_InviteUID g = uid \<longrightarrow> role = Drawer"
    "\<And>now data. gl_InviteUID g = uid \<Longrightarrow>
       marshalInviteRecord (inviteRecordAt now uid req email dest name (gl_ExpiresAt g) (gl_AcceptedClaims g)) = Some data \<Longrightarrow>
       createdValue uid data"
  shows "follows uid (persistInvite (notificationService pf cfg) req email dest name g) role seen"
  unfolding persistInvite_def buildInviteRecord_def Create_def notificationService_simps NATSInviteRepository_simps
  using assms isUid_neq_indexKey [OF assms(1), symmetric]
  by (cases "gl_InviteUID g = uid") (auto simp: Create_def intro!: dispatchInvite_follows split: option.splits sum.splits)

lemma send_follows:
  assumes "isUid uid" and req: "requestOK req" and url: "validUTF8 (app_DefaultReturnURL cfg)"
    and lib: "\<forall>a e. lib_ParseAddress (plat_golib pf) a = Inr e \<longrightarrow> validUTF8 e"
  shows "follows uid (HandleSendInvite (plat_golib pf) (notificationService pf cfg) req) Stranger seen"
proof (cases "validateSend (plat_golib pf) (notificationConfig cfg) req")
  case (Inl err)
  then show ?thesis by (simp add: HandleSendInvite_def)
next
  case (Inr er)
  obtain email name where er: "er = (email, name)" by (cases er)
  with Inr lib have e: "validUTF8 email" "name = trimSpace (req_Role req)" by (auto simp: validateSend_ok)
  then have n: "validUTF8 name" using req trimSpace_valid by (auto simp: requestOK_def validStrings_def)
  let ?dest = "destinationURL (notificationConfig cfg) req"
  have created: "createdValue uid data"
    if "uuidText uid" "marshalInviteRecord (inviteRecordAt now uid req email ?dest name expiry (nonReserved (req_CustomClaims req))) = Some data"
    for now expiry data
    using reread [OF decodedRecord_request [OF req uuidText_valid [OF that(1)] e(1) url n] that(2)]
    by (simp add: createdValue_def pendingRecord_def) (simp add: inviteRecordAt_def Let_def)
  have persist: "follows uid (persistInvite (notificationService pf cfg) req email ?dest name g) role seen'"
    if "uuidText (gl_InviteUID g)" "gl_InviteUID g = uid \<longrightarrow> role = Drawer" "gl_AcceptedClaims g = nonReserved (req_CustomClaims req)"
    for g role seen'
    by (rule persistInvite_follows [OF assms(1) that(2)]) (use created that in auto)
  have claims: "a = nonReserved (req_CustomClaims req)"
    if "mset x = mset (req_CustomClaims req)" "addCustomClaims x (serviceClaims n t u p) [] = Inr (c', a)" for x n t u p c' a
    using addCustomClaims_range(1) [OF _ that(1) wf_serviceClaims that(2)] req by (simp add: requestOK_def validClaims_def)
  show ?thesis
    unfolding HandleSendInvite_def Let_def
    by (auto simp: Inr er Generate_def Let_def linkPayload_def intro!: persist dest: claims split: sum.splits)
qed

lemma handler_follows:
  assumes "isUid uid" "validUTF8 (app_DefaultReturnURL cfg)" "\<forall>a e. lib_ParseAddress (plat_golib pf) a = Inr e \<longrightarrow> validUTF8 e"
  shows "follows uid (dispatchMsg (plat_golib pf) (wireServer pf cfg) m) Stranger {}"
proof -
  have s: "follows uid (HandleSendInvite (plat_golib pf) (notificationService pf cfg) (apiToModelRequest areq)) Stranger seen"
    if "unmarshalSendInviteRequest (msg_Data m) = Some areq" for areq seen
    by (rule send_follows [OF assms(1) unmarshal_requestOK [OF that] assms(2,3)])
  have "follows uid (handleSendInvite (plat_golib pf) (wireServer pf cfg) m) Stranger {}"
    unfolding handleSendInvite_def wireServer_simps Let_def
    by (auto intro!: follows_intros s follow_calls split: option.splits)
  moreover have "follows uid (handleInviteAccepted (wireServer pf cfg) m) Stranger {}"
    unfolding handleInviteAccepted_def
    by (auto intro: HandleInviteAccepted_follows evt_valid split: option.splits)
  moreover have "follows uid (handleGetInvite (wireServer pf cfg) m) Stranger {}"
    unfolding handleGetInvite_def wireServer_simps Let_def
    by (auto intro!: follows_intros follow_calls split: option.splits sum.splits)
  moreover have "follows uid (handleGetInvitesByEmail (plat_golib pf) (wireServer pf cfg) m) Stranger {}"
    unfolding handleGetInvitesByEmail_def wireServer_simps
    by (auto intro!: follows_intros follow_calls split: option.splits sum.splits)
  ultimately show ?thesis by (simp add: dispatchMsg_def)
qed

section \<open>The life of an invite\<close>

text \<open>Two moments of one run: the states of the invite at them are on one path.\<close>

lemma moments_path:
  assumes "pool K (map (dispatchMsg (plat_golib pf) (wireServer pf cfg)) ms) tr1 K1 qs1" "pool K1 qs1 tr2 K2 qs2"
    "isUid uid" "draws uid (tr1 @ tr2) \<le> (if K uid = (0, None) then 1 else 0)"
    "\<forall>u. EUUID u \<in> snd ` set (tr1 @ tr2) \<longrightarrow> uuidText u"
    "validUTF8 (app_DefaultReturnURL cfg)" "\<forall>a e. lib_ParseAddress (plat_golib pf) a = Inr e \<longrightarrow> validUTF8 e"
  shows "(inviteStep uid)\<^sup>*\<^sup>* (stateOf (K uid)) (stateOf (K1 uid)) \<and> (inviteStep uid)\<^sup>*\<^sup>* (stateOf (K1 uid)) (stateOf (K2 uid))"
proof -
  let ?ps = "map (dispatchMsg (plat_golib pf) (wireServer pf cfg)) ms"
  have "\<forall>p \<in> set ?ps. follows uid p Stranger {}" using handler_follows [OF assms(3,6,7)] by auto
  from steady_start [OF this assms(4)] have "steady uid (draws uid tr2 + draws uid tr1) (K uid) ?ps (\<lambda>_. Stranger)"
    by (simp add: add_ac)
  from pool_path [OF assms(1) this] assms(5) obtain roles where
    s: "steady uid (draws uid tr2) (K1 uid) qs1 roles" "(inviteStep uid)\<^sup>*\<^sup>* (stateOf (K uid)) (stateOf (K1 uid))"
    by auto
  with pool_path [OF assms(2), of uid 0 roles] assms(5) show ?thesis by auto
qed

text \<open>C3: The service refines the life of an invite. Between any two moments of any interleaving of any
  number of handlers, with failing calls and lost acknowledgements, the entry of an invite moves
  along the steps from unborn to pending, from pending to accepted before it expires, and from
  either to withdrawn. The hypotheses say that a UUID is drawn at most once, and only for a key that
  was never written.\<close>

theorem invite_lifecycle:
  assumes "pool K (map (dispatchMsg (plat_golib pf) (wireServer pf cfg)) ms) tr1 K1 qs1" "pool K1 qs1 tr2 K2 qs2"
    "isUid uid" "draws uid (tr1 @ tr2) \<le> (if K uid = (0, None) then 1 else 0)"
    "\<forall>u. EUUID u \<in> snd ` set (tr1 @ tr2) \<longrightarrow> uuidText u"
    "validUTF8 (app_DefaultReturnURL cfg)" "\<forall>a e. lib_ParseAddress (plat_golib pf) a = Inr e \<longrightarrow> validUTF8 e"
  shows "(inviteStep uid)\<^sup>*\<^sup>* (stateOf (K uid)) (stateOf (K1 uid)) \<and> (inviteStep uid)\<^sup>*\<^sup>* (stateOf (K1 uid)) (stateOf (K2 uid))"
  by (rule moments_path [OF assms])

text \<open>What is stored about an invite stays: at every later moment of any interleaving it is the same record,
  or the same record with the acceptance added, once, if it was not accepted and by a time before it
  expires, or withdrawn; and what is withdrawn never comes back.\<close>

lemma stored_invite_stays:
  assumes "pool K (map (dispatchMsg (plat_golib pf) (wireServer pf cfg)) ms) tr1 K1 qs1" "pool K1 qs1 tr2 K2 qs2"
    "isUid uid" "draws uid (tr1 @ tr2) \<le> (if K uid = (0, None) then 1 else 0)"
    "\<forall>u. EUUID u \<in> snd ` set (tr1 @ tr2) \<longrightarrow> uuidText u"
    "validUTF8 (app_DefaultReturnURL cfg)" "\<forall>a e. lib_ParseAddress (plat_golib pf) a = Inr e \<longrightarrow> validUTF8 e"
  shows "(\<forall>r. stateOf (K1 uid) = Live r \<longrightarrow> laterState r (stateOf (K2 uid)))
    \<and> (stateOf (K1 uid) = Withdrawn \<longrightarrow> stateOf (K2 uid) = Withdrawn)"
  using moments_path [OF assms] live_later [of uid _ "stateOf (K2 uid)"] withdrawn_final [of uid "stateOf (K2 uid)"] by force

section \<open>Concrete lives\<close>

lemma draws_drawn: "draws uid tr = length (filter (\<lambda>(i, x). x = uid) (drawn tr))"
  by (induction tr) (auto simp: draws_def drawn_def split: event.splits)

lemma sample_platform_ok:
  "validUTF8 (app_DefaultReturnURL sampleConfig)"
  "\<forall>a e. lib_ParseAddress (plat_golib samplePlatform) a = Inr e \<longrightarrow> validUTF8 e"
  by (simp add: validUTF8_ascii is_ascii_Char) (auto simp: sampleGolib_def split: if_splits)

theorem invite_lifecycle_witness:
  "\<exists>tr K' qs. pool (\<lambda>k. (0, None)) (map (dispatchMsg (plat_golib samplePlatform) (wireServer samplePlatform sampleConfig)) [sendSample]) tr K' qs
     \<and> stateOf (K' ''1'') = Live sentSample \<and> (inviteStep ''1'')\<^sup>*\<^sup>* Unborn (Live sentSample)"
proof -
  let ?K = "(\<lambda>k. (0, None))(''1'' := (1, Some (recordData sentSample)), sampleIndexKey := (2, Some ''1''))"
  obtain tr qs where p: "pool (\<lambda>k. (0, None)) (map (dispatchMsg (plat_golib samplePlatform) (wireServer samplePlatform sampleConfig)) [sendSample])
      tr ?K qs" "drawn tr = [(0, ''1'')]"
    using sample_pool by blast
  have u: "isUid ''1''" by (simp add: isUid_def hasPrefix_def emailIndexPrefix_def)
  have d: "draws ''1'' (tr @ []) \<le> (if (0::nat, None :: string option) = (0, None) then 1 else 0)"
    by (simp add: draws_drawn p(2))
  have t: "\<forall>x. EUUID x \<in> snd ` set (tr @ []) \<longrightarrow> uuidText x"
  proof (intro allI impI)
    fix x
    assume "EUUID x \<in> snd ` set (tr @ [])"
    then obtain i where "(i, x) \<in> set (drawn tr)" using drawn_iff by fastforce
    then show "uuidText x" by (simp add: p(2) uuidText_def is_digit_def byte_def)
  qed
  have s: "stateOf (?K ''1'') = Live sentSample" using unmarshal_recordData [OF valid_sentSample] by simp
  have "(inviteStep ''1'')\<^sup>*\<^sup>* Unborn (Live sentSample)"
    using invite_lifecycle [OF p(1) pool_start u d t sample_platform_ok] s by simp
  with p(1) s show ?thesis by blast
qed

end
