(* ===== verification/Store_Properties.thy ===== *)
theory Store_Properties
  imports Send_Samples Store_Spec
begin

text \<open>
  What the repository promises: it refines the abstract store, records survive their encoding, and
  the keys of the index neither collide nor leave the characters a key may have.
\<close>

section \<open>Refinement\<close>

text \<open>C10: Any sequence of repository operations, on a bucket that keeps the JetStream contract, refines the
  same sequence of steps of the abstract store (records by UID, index by email): reads are exact,
  a reported success has happened, a reported failure changes at most entries of its own UID, and
  no operation touches the records or index entries of another invite.\<close>

theorem repository_refines_store:
  assumes "kv_contract env kv" "list_all opOK ops"
    "run env (performs (NATSInviteRepository u) ops) s = (results, s')"
  shows "storeSteps ops results (recordsOf kv s, indexedOf u kv s) (recordsOf kv s', indexedOf u kv s')"
  using assms by (rule kv_contract.store_run)

text \<open>Create, read, list, delete and read again, on the in-memory bucket.\<close>

definition sampleOps :: "storeOp list" where
  "sampleOps = [OpCreate sentSample, OpGetByUID ''1'', OpGetByEmail ''ada@lfx.dev'', OpMarkAccepted ''1'' ''ada'' 0, OpDelete ''1'']"

theorem repository_refines_store_witness:
  "\<exists>results s'. storeSteps sampleOps results (recordsOf mem_kv sendMem, indexedOf (\<lambda>r. r) mem_kv sendMem)
     (recordsOf mem_kv s', indexedOf (\<lambda>r. r) mem_kv s')"
proof -
  have "isUid ''1''" by (simp add: isUid_def hasPrefix_def emailIndexPrefix_def)
  moreover have "decodedRecord sentSample" using valid_sentSample by (simp add: validRecord_def decodedRecord_def)
  ultimately have "list_all opOK sampleOps" by (simp add: sampleOps_def)
  moreover obtain results s' where "run mem_env (performs (NATSInviteRepository (\<lambda>r. r)) sampleOps) sendMem = (results, s')"
    by (cases "run mem_env (performs (NATSInviteRepository (\<lambda>r. r)) sampleOps) sendMem")
  ultimately show ?thesis using repository_refines_store [OF mem_contract] by blast
qed

section \<open>Encoding\<close>

text \<open>The times of a record lie in the years that RFC 3339 can write, 0 to 9999, in UTC.\<close>

definition validTimes :: "InviteRecord \<Rightarrow> bool" where
  "validTimes r \<longleftrightarrow> validTime (rec_CreatedAt r) \<and> validTime (rec_ExpiresAt r) \<and> pred_option validTime (rec_AcceptedAt r)"

lemma validRecord_decoded: "decodedRecord r \<Longrightarrow> validTimes r \<Longrightarrow> validRecord r"
  by (auto simp: decodedRecord_def validRecord_def validTimes_def split: option.splits)

text \<open>C25: A record survives its encoding when its texts are valid UTF-8, its expiration days fit an int64, its
  claims are a map of such texts and its times lie in the years 0 to 9999 of UTC: it can be
  marshalled and what is written decodes to the same record. A record that was read from the bucket,
  whatever wrote it, meets all but the last condition by itself: when its times lie in these years it
  can be written back, and it is read back unchanged.\<close>

theorem record_roundtrip:
  "(validRecord r \<longrightarrow> (\<exists>d. marshalInviteRecord r = Some d \<and> unmarshalInviteRecord d = Some r))
   \<and> (unmarshalInviteRecord d = Some r \<longrightarrow> validTimes r \<longrightarrow>
        (\<exists>d'. marshalInviteRecord r = Some d' \<and> unmarshalInviteRecord d' = Some r))"
proof -
  have "\<exists>d. marshalInviteRecord r = Some d \<and> unmarshalInviteRecord d = Some r" if "validRecord r"
    using marshal_validRecord [OF that] unmarshal_marshal_InviteRecord [OF that] by blast
  moreover have "validRecord r" if "unmarshalInviteRecord d = Some r" "validTimes r"
    using validRecord_decoded [OF unmarshal_decoded] that by blast
  ultimately show ?thesis by blast
qed

theorem record_roundtrip_witness:
  "unmarshalInviteRecord (recordData sampleRecord) = Some sampleRecord \<and> validTimes sampleRecord
   \<and> (\<exists>d. marshalInviteRecord sampleRecord = Some d \<and> unmarshalInviteRecord d = Some sampleRecord)"
proof -
  have "unmarshalInviteRecord (recordData sampleRecord) = Some sampleRecord" by (simp add: sample_json)
  moreover have "validTimes sampleRecord"
    using valid_sampleRecord by (auto simp: validRecord_def validTimes_def split: option.splits)
  ultimately show ?thesis using record_roundtrip [of sampleRecord "recordData sampleRecord"] by blast
qed

section \<open>Keys\<close>

text \<open>C26: Two entries of the email index share a key exactly when they have the same UID and their addresses
  normalize to the same text; the key never equals an invite's UID, and for a UID made of letters,
  digits and dashes it uses only characters a JetStream key allows.\<close>

definition isKeyChar :: "char \<Rightarrow> bool" where
  "isKeyChar c \<longleftrightarrow> isUrlSafe c \<or> c = CHR ''/'' \<or> c = CHR ''='' \<or> c = CHR ''.''"

theorem index_keys:
  "(emailIndexKey u e uid = emailIndexKey u e' uid' \<longleftrightarrow> normalizeEmail u e = normalizeEmail u e' \<and> uid = uid')
   \<and> (isUid k \<longrightarrow> emailIndexKey u e uid \<noteq> k)
   \<and> (list_all isUrlSafe uid \<longrightarrow> list_all isKeyChar (emailIndexKey u e uid))"
proof -
  have "list_all isKeyChar (emailIndexKey u e uid)" if "list_all isUrlSafe uid"
    using that rawURLEncode_safe [of "normalizeEmail u e"]
    by (auto simp: emailIndexKey_def encodeEmailForKey_def emailIndexPrefix_def isKeyChar_def list_all_iff isUrlSafe_def byte_def)
  then show ?thesis using emailIndexKey_inject isUid_indexKey by metis
qed

theorem index_keys_witness:
  "emailIndexKey (\<lambda>r. r) ''ada@lfx.dev'' ''7'' \<noteq> ''7'' \<and> list_all isKeyChar (emailIndexKey (\<lambda>r. r) ''ada@lfx.dev'' ''7'')"
proof -
  have "list_all isUrlSafe ''7''" "isUid ''7''"
    by (simp_all add: isUrlSafe_def is_digit_def byte_def isUid_def hasPrefix_def emailIndexPrefix_def)
  then show ?thesis using index_keys by blast
qed

end
