(* ===== verification/Token_Properties.thy ===== *)
theory Token_Properties
  imports Acceptance_Live
begin

text \<open>
  What the tokens of invite links promise: the claims that are signed, which custom claims are
  refused, and what a token that verifies says.
\<close>

section \<open>Generated tokens\<close>

text \<open>The claims of a token, by name: those the service sets, then the custom claims.\<close>

definition claimOf :: "time \<Rightarrow> string \<Rightarrow> LinkPayload \<Rightarrow> string \<Rightarrow> claim option" where
  "claimOf issued uid p k =
     (if k = ''iss'' then Some (ClaimStr ''lfx-v2-invite-service'')
      else if k = ''aud'' then Some (ClaimStrs [''lfx-self-serve''])
      else if k \<in> {''iat'', ''nbf''} then Some (ClaimInt (unixSeconds issued))
      else if k = ''exp'' then Some (ClaimInt (unixSeconds (issued + tokenLifetime (lp_ExpirationDays p))))
      else if k \<in> {''jti'', ''invite_uid''} then Some (ClaimStr uid)
      else if k = ''email'' then Some (ClaimStr (lp_RecipientEmail p))
      else if k = ''return_url'' then Some (ClaimStr (lp_DestinationURL p))
      else if k = ''resource_uid'' then Some (ClaimStr (lp_ResourceUID p))
      else if k = ''role'' then Some (ClaimStr (lp_Role p))
      else if k = ''resource_type'' then
        (if lp_ResourceType p = [] then None else Some (ClaimStr (lp_ResourceType p)))
      else if k = ''sub'' then None
      else map_option ClaimStr (map_of (lp_CustomClaims p) k))"

lemma claimOf_tokenClaims: "tokenClaims issued uid p = claimOf issued uid p"
proof
  fix k
  show "tokenClaims issued uid p k = claimOf issued uid p k"
  proof (cases "k \<in> set reservedClaims")
    case True
    then show ?thesis
      unfolding reservedClaims_def
      by (auto simp: tokenClaims_service claimOf_def tokenIssuer_def tokenAudience_def addDur_def)
  next
    case False
    then show ?thesis
      using tokenClaims_custom [OF False, of issued uid p] by (simp add: claimOf_def reservedClaims_def)
  qed
qed

lemma tokenLifetime_days:
  "tokenLifetime d = (if d \<le> 0 then 30 else min d 90) * 24 * nsPerHour"
  by (simp add: tokenLifetime_def tokenTTL_def maxExpirationDays_def)

text \<open>C30: A generated link carries exactly one token, signed with HS256 under the service's secret, whose
  claims are those of the payload under their names: no custom claim overrides a claim the service
  sets, every other custom claim is in the token whatever the order in which the map is ranged over,
  and the invite expires with the token, after the requested days, at most 90, or after 30 when none
  are requested.\<close>

theorem generated_token:
  assumes "exec (Generate jwt secret base p) tr (Inr g)" "wf_map (lp_CustomClaims p)"
  shows "\<exists>issued uid x claims token. tr = [ENow issued, EUUID uid, ERange (lp_CustomClaims p) x]
    \<and> jwt_SignedString jwt ''HS256'' secret claims = Inr token \<and> gl_Link g = base @ ''/invite?token='' @ token
    \<and> map_of claims = claimOf issued uid p
    \<and> gl_InviteUID g = uid \<and> gl_AcceptedClaims g = nonReserved (lp_CustomClaims p)
    \<and> gl_ExpiresAt g - issued = (if lp_ExpirationDays p \<le> 0 then 30 else min (lp_ExpirationDays p) 90) * 24 * nsPerHour"
proof -
  from Generate_exec [OF assms] obtain now uid x c signed where e:
    "tr = [ENow now, EUUID uid, ERange (lp_CustomClaims p) x]"
    "jwt_SignedString jwt ''HS256'' secret c = Inr signed" "wf_map c" "map_of c = tokenClaims now uid p"
    "g = \<lparr>gl_Link = base @ ''/invite?token='' @ signed, gl_InviteUID = uid,
          gl_ExpiresAt = addDur now (tokenLifetime (lp_ExpirationDays p)),
          gl_AcceptedClaims = nonReserved (lp_CustomClaims p)\<rparr>" .
  then have "gl_ExpiresAt g - now = (if lp_ExpirationDays p \<le> 0 then 30 else min (lp_ExpirationDays p) 90) * 24 * nsPerHour"
    by (simp add: addDur_def tokenLifetime_days)
  with e(1,2,4,5) show ?thesis by (auto simp: claimOf_tokenClaims)
qed

text \<open>The payload of the sample request, with the generator and its execution.\<close>

abbreviation samplePayload :: LinkPayload where
  "samplePayload \<equiv> linkPayload sendRequest ''ada@lfx.dev'' sampleDest ''Writer''"

abbreviation sampleSecret :: string where
  "sampleSecret \<equiv> replicate 32 (CHR ''k'')"

abbreviation sampleBase :: string where
  "sampleBase \<equiv> ''https://app.dev.lfx.dev''"

definition refToken1 :: string where
  "refToken1 = jprint (refToken ''HS256'' sampleSecret sampleClaims)"

lemma sample_generates:
  "exec (Generate refJwt sampleSecret sampleBase samplePayload)
     [ENow (5 * nsPerSecond), EUUID ''1'', ERange [] []] (Inr (linkWith refToken1))"
  using exec_traceOf [of "ns_linkGenerator (serviceOf refPlatform) samplePayload" mem_env sendMem]
    sample_link [OF _ _ signs_samples(2), of sendMem] by (simp add: refToken1_def) (simp add: refPlatform_def)

lemma samplePayload_simps [simp]:
  "lp_CustomClaims samplePayload = []" "lp_ExpirationDays samplePayload = 7"
  "lp_RecipientEmail samplePayload = ''ada@lfx.dev''"
  by (simp_all add: linkPayload_def)

theorem generated_token_witness:
  "\<exists>claims token. jwt_SignedString refJwt ''HS256'' sampleSecret claims = Inr token
     \<and> map_of claims ''email'' = Some (ClaimStr ''ada@lfx.dev'')
     \<and> gl_ExpiresAt (linkWith refToken1) - 5 * nsPerSecond = 7 * 24 * nsPerHour"
proof -
  have "wf_map (lp_CustomClaims samplePayload)" by (simp add: wf_map_def)
  from generated_token [OF sample_generates this] show ?thesis by (auto simp: claimOf_def)
qed

section \<open>Refused claims\<close>

text \<open>C31: Custom claims are refused, in whatever order the map is ranged over, exactly when there are more
  than 16 of them or one has a key of more than 64 or a value of more than 1024 bytes; every such
  refusal is an \<open>ErrInvalidCustomClaims\<close>, and no other error of the generator is.\<close>

theorem custom_claims_refused:
  assumes "exec (Generate jwt secret base p) tr r"
  shows "(\<exists>err. r = Inl err \<and> errors_Is err ErrInvalidCustomClaims) \<longleftrightarrow>
    16 < length (lp_CustomClaims p)
    \<or> (\<exists>(k, v) \<in> set (lp_CustomClaims p). 64 < length k \<or> 1024 < length v)"
proof -
  have limits: "16 < length (lp_CustomClaims p) \<or> (\<exists>(k, v) \<in> set (lp_CustomClaims p). 64 < length k \<or> 1024 < length v)
    \<longleftrightarrow> maxCustomClaims < length (lp_CustomClaims p) \<or> list_ex claimTooLong (lp_CustomClaims p)"
    by (fastforce simp: maxCustomClaims_def claimTooLong_def maxCustomClaimKeyLen_def maxCustomClaimValueLen_def list_ex_iff)
  show ?thesis
  proof
    assume "\<exists>err. r = Inl err \<and> errors_Is err ErrInvalidCustomClaims"
    then obtain err where r: "r = Inl err" "errors_Is err ErrInvalidCustomClaims" by blast
    show "16 < length (lp_CustomClaims p) \<or> (\<exists>(k, v) \<in> set (lp_CustomClaims p). 64 < length k \<or> 1024 < length v)"
      unfolding limits
    proof (rule ccontr)
      assume ok: "\<not> (maxCustomClaims < length (lp_CustomClaims p) \<or> list_ex claimTooLong (lp_CustomClaims p))"
      have "addCustomClaims x c [] \<noteq> Inl e" if "mset x = mset (lp_CustomClaims p)" for x c e
        using addCustomClaims_fails [of x c "[]"] ok mset_eq_setD [OF that] by (auto simp: list_ex_iff)
      with assms r ok show False
        unfolding Generate_def by (auto simp: prog_simps Let_def err_simps)
    qed
  next
    assume "16 < length (lp_CustomClaims p) \<or> (\<exists>(k, v) \<in> set (lp_CustomClaims p). 64 < length k \<or> 1024 < length v)"
    from Generate_rejects [OF assms this [unfolded limits]]
    show "\<exists>err. r = Inl err \<and> errors_Is err ErrInvalidCustomClaims" by (auto simp: onlyIs_def)
  qed
qed

theorem custom_claims_refused_witness:
  "\<exists>v tr err. length v = 1025 \<and> errors_Is err ErrInvalidCustomClaims
     \<and> exec (Generate refJwt ''k'' sampleBase (samplePayload\<lparr>lp_CustomClaims := [(''a'', v)]\<rparr>)) tr (Inl err)"
proof -
  obtain v :: string where v: "length v = 1025" using Ex_list_of_length by blast
  define p where "p = samplePayload\<lparr>lp_CustomClaims := [(''a'', v)]\<rparr>"
  obtain tr r where e: "exec (Generate refJwt ''k'' sampleBase p) tr r"
    using exec_exists [of "Generate refJwt ''k'' sampleBase p"] by (elim exE)
  have "\<exists>(k, v) \<in> set (lp_CustomClaims p). 64 < length k \<or> 1024 < length v" using v by (simp add: p_def)
  then obtain err where "r = Inl err" "errors_Is err ErrInvalidCustomClaims" using custom_claims_refused [OF e] by blast
  with e v show ?thesis unfolding p_def by blast
qed

section \<open>Verified tokens\<close>

text \<open>C32: The verifier changes nothing and reads the clock once; it accepts a token only if the library parsed
  it under the service's secret with HS256, its issuer, its audience, a required expiry and a leeway
  of a minute, and its jti and invite_uid claims agree and are not empty, and it has an email; what it
  returns is that UID and that email. Every other token is reported as an invalid invite token.\<close>

theorem verified_token:
  assumes "exec (Verify jwt secret token) tr r"
  shows "noEffect tr \<and> (\<exists>now. tr = [ENow now] \<and>
    (case r of
       Inr tc \<Rightarrow> \<exists>claims. jwt_ParseWithClaims jwt
           \<lparr>opt_ValidMethods = [''HS256''], opt_Issuer = ''lfx-v2-invite-service'', opt_Audience = ''lfx-self-serve'',
            opt_ExpirationRequired = True, opt_IssuedAt = True, opt_Leeway = 60 * nsPerSecond\<rparr> secret now token = Inr claims
         \<and> map_of claims ''jti'' = Some (ClaimStr (tc_InviteUID tc))
         \<and> map_of claims ''invite_uid'' = Some (ClaimStr (tc_InviteUID tc))
         \<and> map_of claims ''email'' = Some (ClaimStr (tc_Email tc)) \<and> tc_InviteUID tc \<noteq> [] \<and> tc_Email tc \<noteq> []
     | Inl err \<Rightarrow> (\<forall>s. errors_Is err s \<longleftrightarrow> s = ErrInvalidInviteToken)))"
proof -
  have opts: "verifyOpts = \<lparr>opt_ValidMethods = [''HS256''], opt_Issuer = ''lfx-v2-invite-service'',
      opt_Audience = ''lfx-self-serve'', opt_ExpirationRequired = True, opt_IssuedAt = True,
      opt_Leeway = 60 * nsPerSecond\<rparr>"
    by (simp add: verifyOpts_def tokenIssuer_def tokenAudience_def tokenLeeway_def)
  obtain now where tr: "tr = [ENow now]" using assms unfolding Verify_def by (auto simp: prog_simps Let_def)
  note quiet = Verify_noEffect [OF assms]
  show ?thesis
  proof (cases r)
    case (Inl err)
    with assms have "onlyIs err ErrInvalidInviteToken" by (simp add: Verify_error)
    with quiet tr Inl show ?thesis by (simp add: onlyIs_def)
  next
    case (Inr tc)
    with quiet assms [unfolded Inr Verify_ok opts] tr show ?thesis by simp
  qed
qed

theorem verified_token_witness:
  "\<exists>now claims. jwt_ParseWithClaims sampleJwt
       \<lparr>opt_ValidMethods = [''HS256''], opt_Issuer = ''lfx-v2-invite-service'', opt_Audience = ''lfx-self-serve'',
        opt_ExpirationRequired = True, opt_IssuedAt = True, opt_Leeway = 60 * nsPerSecond\<rparr> ''k'' now ''t'' = Inr claims
     \<and> map_of claims ''email'' = Some (ClaimStr ''ada@lfx.dev'')"
proof -
  have e: "exec (Verify sampleJwt ''k'' ''t'') [ENow 0] (Inr \<lparr>tc_InviteUID = ''7'', tc_Email = ''ada@lfx.dev''\<rparr>)"
    by (simp add: Verify_ok sampleJwt_def)
  show ?thesis using verified_token [OF e] by auto
qed

text \<open>C33: With a JWT library that keeps its contract, the token of a generated link verifies at any time from
  its issue to its expiry, and gives back the UID and the email it was generated for.\<close>

theorem token_roundtrip:
  assumes "jwt_contract jwt" "exec (Generate jwt secret base p) tr (Inr g)" "payloadOK p" "lp_RecipientEmail p \<noteq> []"
    "uuidText (gl_InviteUID g)" "ENow issued \<in> set tr" "issued \<le> t" "t \<le> gl_ExpiresAt g"
    "0 \<le> issued" "unixSeconds (gl_ExpiresAt g) < 2 ^ 63"
  shows "\<exists>token. gl_Link g = base @ ''/invite?token='' @ token
    \<and> exec (Verify jwt secret token) [ENow t] (Inr \<lparr>tc_InviteUID = gl_InviteUID g, tc_Email = lp_RecipientEmail p\<rparr>)"
proof -
  have "gl_InviteUID g \<noteq> []" "validUTF8 (gl_InviteUID g)"
    using assms(5) uuidText_valid by (auto simp: uuidText_def)
  moreover have "int64 (unixSeconds issued)" "int64 (unixSeconds (gl_ExpiresAt g))"
  proof -
    have "0 \<le> unixSeconds issued" "unixSeconds issued \<le> unixSeconds (gl_ExpiresAt g)"
      using assms(7-9) by (simp_all add: unixSeconds_def nsPerSecond_def zdiv_mono1 pos_imp_zdiv_nonneg_iff)
    with assms(10) show "int64 (unixSeconds issued)" "int64 (unixSeconds (gl_ExpiresAt g))" by (simp_all add: int64_def)
  qed
  ultimately show ?thesis
    using jwt_contract.verify_generated [OF assms(1-4)] assms(6-8) by metis
qed

theorem token_roundtrip_witness:
  "\<exists>token. gl_Link (linkWith refToken1) = sampleBase @ ''/invite?token='' @ token
    \<and> exec (Verify refJwt sampleSecret token) [ENow (6 * nsPerSecond)] (Inr \<lparr>tc_InviteUID = ''1'', tc_Email = ''ada@lfx.dev''\<rparr>)"
proof -
  have "validUTF8 sampleBase" by (simp add: validUTF8_ascii is_ascii_Char)
  then have "payloadOK samplePayload"
    by (intro linkPayload_OK sendRequest_OK) simp_all
  then show ?thesis
    using token_roundtrip [OF refjwt.jwt_contract_axioms sample_generates, of "5 * nsPerSecond" "6 * nsPerSecond"]
    by (simp add: uuidText_def is_digit_def byte_def nsPerSecond_def unixSeconds_def)
qed

end
