(* ===== verification/Email_Properties.thy ===== *)
theory Email_Properties
  imports Send_Properties
begin

text \<open>
  What an invite email says and what it cannot contain, and when a dispatched email counts as sent.
\<close>

section \<open>Subject\<close>

text \<open>The line that the subject template writes.\<close>

definition inviteLine :: "InviteEmailPayload \<Rightarrow> string" where
  "inviteLine p =
     (if pay_InviterName p = [] then ''You've been invited to join ''
      else firstName (pay_InviterName p) @ '' invited you to join '')
     @ pay_ResourceName p @ (if pay_ResourceType p = [] then [] else '' '' @ pay_ResourceType p)"

lemma subject_template: "execTemplate subjectTmpl (buildTemplateData p) = inviteLine p @ NL"
  by (simp add: execTemplate_def subjectTmpl_def resourceNodes_def inviteLine_def buildTemplateData_def)

lemma replaceControls_append: "replaceControls (a @ b) = replaceControls a @ replaceControls b"
  by (simp add: replaceControls_def)

lemma replaceControls_NL: "replaceControls NL = '' ''"
  by (simp add: replaceControls_def NL_def chr_def byte_def)

lemma sanitize_take: "sanitizeSingleLine s = take 256 (replaceControls s)"
  by (simp add: sanitizeSingleLine_def Let_def)

text \<open>C37: Whatever the names in a request contain, the subject of the email is one line of at most 256 bytes
  without carriage return, line feed or NUL: the invitation line, with line breaks as spaces and NULs
  dropped, and the space that the template's own final line break leaves.\<close>

theorem email_subject_single_line:
  "ren_Subject (RenderInviteEmail p) = take 256 (replaceControls (inviteLine p) @ '' '')
   \<and> length (ren_Subject (RenderInviteEmail p)) \<le> 256
   \<and> list_all (\<lambda>c. c \<noteq> CHR 0x0D \<and> c \<noteq> CHR 0x0A \<and> c \<noteq> CHR 0x00) (ren_Subject (RenderInviteEmail p))"
proof -
  have subject: "ren_Subject (RenderInviteEmail p) = sanitizeSingleLine (inviteLine p @ NL)"
    by (simp add: RenderInviteEmail_def Let_def renderPart_def subject_template)
  have "isControl (CHR 0x0D)" "isControl (CHR 0x0A)" "isControl (CHR 0x00)"
    by (simp_all add: isControl_def byte_def)
  then have "list_all (\<lambda>c. c \<noteq> CHR 0x0D \<and> c \<noteq> CHR 0x0A \<and> c \<noteq> CHR 0x00) (sanitizeSingleLine s)" for s
    using sanitize_clean [of s] unfolding list_all_iff by blast
  moreover have "sanitizeSingleLine (inviteLine p @ NL) = take 256 (replaceControls (inviteLine p) @ '' '')"
    by (simp only: sanitize_take replaceControls_append replaceControls_NL)
  ultimately show ?thesis unfolding subject using sanitize_length by metis
qed

section \<open>Bodies\<close>

lemma template_part:
  assumes "n \<in> set ns" "sublist s (execNode d n)"
  shows "sublist s (execTemplate ns d)"
proof -
  have "sublist (execNode d n) (execTemplate ns d)"
    unfolding execTemplate_def using assms(1) by (intro concat_sublist) simp
  with assms(2) show ?thesis by (rule sublist_order.order_trans)
qed

lemma node_part:
  assumes "n \<in> set (if b d then ts else es)" "sublist s (execNode d n)"
  shows "sublist s (execNode d (TIf b ts es))"
  using template_part [of n "if b d then ts else es" s d] assms by (simp add: execTemplate_def split: if_splits)

text \<open>What the plain text says of an invitation: a field of the payload that it contains.\<close>

definition says :: "string \<Rightarrow> RenderedInviteEmail \<Rightarrow> bool" where
  "says s e \<longleftrightarrow> sublist s (ren_Plain e)"

lemma saysI:
  assumes "n \<in> set plainTmpl" "sublist s (execNode (buildTemplateData p) n)"
  shows "says s (RenderInviteEmail p)"
  using template_part [OF assms] by (simp add: says_def RenderInviteEmail_def Let_def renderPart_def)

lemma plain_invitation:
  "TIf ted_HasInviter
     ([TField ted_InviterFullName, TText '' invited you to join the ''] @ resourceNodes @ parentNodes
      @ [TText '' on LFX with the '', TField ted_Role, TText '' role.''])
     ([TText ''You have been invited to join the ''] @ resourceNodes @ parentNodes
      @ [TText '' on LFX with the '', TField ted_Role, TText '' role.'']) \<in> set plainTmpl"
  unfolding plainTmpl_def by (intro list.set_intros)

lemma invitation_says:
  assumes "n \<in> set (if ted_HasInviter (buildTemplateData p) then
      [TField ted_InviterFullName, TText '' invited you to join the ''] @ resourceNodes @ parentNodes
      @ [TText '' on LFX with the '', TField ted_Role, TText '' role.'']
    else [TText ''You have been invited to join the ''] @ resourceNodes @ parentNodes
      @ [TText '' on LFX with the '', TField ted_Role, TText '' role.''])"
    "sublist s (execNode (buildTemplateData p) n)"
  shows "says s (RenderInviteEmail p)"
  by (rule saysI [OF plain_invitation])
     (rule node_part [where b = ted_HasInviter and d = "buildTemplateData p", OF assms])

text \<open>The plain text of every invite email names the inviter, the resource with its type and parent, and
  the role, and carries the invite link.\<close>

theorem email_text_complete:
  "says (pay_InviterName p) (RenderInviteEmail p) \<and> says (pay_ResourceName p) (RenderInviteEmail p)
   \<and> says (pay_ResourceType p) (RenderInviteEmail p) \<and> says (pay_ParentResourceName p) (RenderInviteEmail p)
   \<and> says (pay_Role p) (RenderInviteEmail p) \<and> says (pay_InviteLink p) (RenderInviteEmail p)"
proof -
  let ?d = "buildTemplateData p"
  have inviter: "says (pay_InviterName p) (RenderInviteEmail p)"
  proof (cases "ted_HasInviter ?d")
    case True
    show ?thesis
      by (rule invitation_says [of "TField ted_InviterFullName"]) (use True in \<open>simp_all add: buildTemplateData_def\<close>)
  qed (simp add: says_def buildTemplateData_def)
  have name: "says (pay_ResourceName p) (RenderInviteEmail p)"
    by (rule invitation_says [of "TField ted_ResourceName"]) (simp_all add: resourceNodes_def buildTemplateData_def)
  have type: "says (pay_ResourceType p) (RenderInviteEmail p)"
    by (rule invitation_says [of "TIf (\<lambda>d. ted_ResourceType d \<noteq> []) [TText '' '', TField ted_ResourceType] []"])
       (simp_all add: resourceNodes_def buildTemplateData_def sublist_Cons_right)
  have parent: "says (pay_ParentResourceName p) (RenderInviteEmail p)"
  proof -
    have "TIf ted_HasParentResource [TText '' (part of '', TField ted_ParentResourceName, TText '')''] [] \<in> set parentNodes"
      by (simp add: parentNodes_def)
    moreover have "sublist (pay_ParentResourceName p) (execNode ?d
        (TIf ted_HasParentResource [TText '' (part of '', TField ted_ParentResourceName, TText '')''] []))"
    proof (cases "ted_HasParentResource ?d")
      case True
      show ?thesis
        by (rule node_part [of "TField ted_ParentResourceName"]) (use True in \<open>simp_all add: buildTemplateData_def\<close>)
    qed (simp add: buildTemplateData_def)
    ultimately show ?thesis by (intro invitation_says) auto
  qed
  have role: "says (pay_Role p) (RenderInviteEmail p)"
    by (rule invitation_says [of "TField ted_Role"]) (simp_all add: buildTemplateData_def)
  have link: "says (pay_InviteLink p) (RenderInviteEmail p)"
    unfolding says_def by (rule plain_contains_link)
  with inviter name type parent role link show ?thesis by blast
qed

section \<open>Dispatch\<close>

text \<open>Sending an email makes at most one request, to the subject of the email service, with the encoding
  of the rendered email; the email counts as sent exactly when that request is answered and the
  answer is empty or decodes to an empty error, and every failure is an error that no client can
  mistake for one of the service's own.\<close>

theorem email_accepted_iff:
  assumes "exec (SendNotification elib subject payload) tr x"
  shows "(x = None \<longleftrightarrow> (\<exists>data reply. eml_marshal elib (emailEnvelopeOf elib payload) = Inr data
        \<and> tr = [ERequest subject data (Inr reply)] \<and> (reply = [] \<or> eml_error elib reply = Inr [])))
    \<and> (tr = [] \<or> (\<exists>data q. eml_marshal elib (emailEnvelopeOf elib payload) = Inr data \<and> tr = [ERequest subject data q]))
    \<and> (case x of Some err \<Rightarrow> \<forall>s. \<not> errors_Is err s | None \<Rightarrow> True)
    \<and> eml_To (emailEnvelopeOf elib payload) = pay_RecipientEmail payload"
proof -
  have "case x of Some err \<Rightarrow> \<forall>s. \<not> errors_Is err s | None \<Rightarrow> True"
    using SendNotification_noSentinel assms by (auto simp: noSentinel_def split: option.splits)
  moreover have "eml_To (emailEnvelopeOf elib payload) = pay_RecipientEmail payload"
    by (simp add: emailEnvelopeOf_def Let_def)
  ultimately show ?thesis
    using SendNotification_exec [OF assms] by (auto simp: acceptedReply_def)
qed

theorem email_accepted_iff_witness:
  "\<exists>tr. exec (SendNotification sampleEmail ''email'' (emailPayload sendRequest ''ada@lfx.dev'' ''Writer'' ''link'')) tr None
     \<and> tr = [ERequest ''email'' ''ada@lfx.dev'' (Inr [])]"
proof -
  let ?p = "SendNotification sampleEmail ''email'' (emailPayload sendRequest ''ada@lfx.dev'' ''Writer'' ''link'')"
  have "run mem_env ?p sendMem = (None, sendMem\<lparr>mem_sent := mem_sent sendMem @ [(''email'', ''ada@lfx.dev'')]\<rparr>)"
    by (simp add: SendNotification_def Request_def sampleEmail_def emailEnvelopeOf_def emailPayload_def Let_def prog_simps
        mem_env_simps)
  then have e: "exec ?p (traceOf mem_env ?p sendMem) None" using exec_traceOf [of ?p mem_env sendMem] by simp
  have "traceOf mem_env ?p sendMem = [ERequest ''email'' ''ada@lfx.dev'' (Inr [])]"
    by (simp add: SendNotification_def Request_def sampleEmail_def emailEnvelopeOf_def emailPayload_def Let_def prog_simps
        mem_env_simps)
  with e email_accepted_iff [OF e] show ?thesis by auto
qed

end
