(* ===== verification/Html_Properties.thy ===== *)
theory Html_Properties
  imports Email_Properties
begin

text \<open>
  The HTML part of an invite email: nothing a requester writes can change its markup, its links lead
  only where a link may, and the invite link arrives unchanged.
\<close>

section \<open>Markup\<close>

text \<open>The bytes of a text that open or close tags and attributes, in order.\<close>

definition markupOf :: "string \<Rightarrow> string" where
  "markupOf s = filter isMarkup s"

lemma markupOf_append: "markupOf (s @ t) = markupOf s @ markupOf t"
  by (simp add: markupOf_def)

lemma markupOf_concat: "markupOf (concat ss) = concat (map markupOf ss)"
  by (induction ss) (simp_all add: markupOf_append, simp add: markupOf_def)

lemma markupOf_inert: "markupOf (htmlText s) = []" "markupOf (hrefValue s) = []"
  using htmlText_inert hrefValue_inert by (simp_all add: markupOf_def)

text \<open>A node whose fields write no markup.\<close>

fun inertNode :: "node \<Rightarrow> bool" where
  "inertNode (TText t) = True"
| "inertNode (TField f) = (\<forall>d. markupOf (f d) = [])"
| "inertNode (TIf b ts es) = (list_all inertNode ts \<and> list_all inertNode es)"

text \<open>Two data that take the same branches in a node.\<close>

fun sameBranches :: "inviteEmailData \<Rightarrow> inviteEmailData \<Rightarrow> node \<Rightarrow> bool" where
  "sameBranches d d' (TText t) = True"
| "sameBranches d d' (TField f) = True"
| "sameBranches d d' (TIf b ts es) =
     (b d = b d' \<and> list_all (sameBranches d d') ts \<and> list_all (sameBranches d d') es)"

lemma inertNode_fields [simp]: "inertNode (HtmlField f)" "inertNode (HrefField f)"
  by (simp_all add: HtmlField_def HrefField_def markupOf_inert)

lemma sameBranches_fields [simp]: "sameBranches d d' (HtmlField f)" "sameBranches d d' (HrefField f)"
  by (simp_all add: HtmlField_def HrefField_def)

lemma markup_execNode:
  "inertNode n \<Longrightarrow> sameBranches d d' n \<Longrightarrow> markupOf (execNode d n) = markupOf (execNode d' n)"
proof (induction n)
  case (TIf b ts es)
  have part: "concat (map (\<lambda>n. markupOf (execNode d n)) ns) = concat (map (\<lambda>n. markupOf (execNode d' n)) ns)"
    if "list_all inertNode ns" "list_all (sameBranches d d') ns"
      "\<And>n. n \<in> set ns \<Longrightarrow> inertNode n \<Longrightarrow> sameBranches d d' n \<Longrightarrow> markupOf (execNode d n) = markupOf (execNode d' n)" for ns
    using that by (intro arg_cong [where f = concat] map_cong) (auto simp: list_all_iff)
  from TIf part [of ts] part [of es] show ?case by (simp add: markupOf_concat comp_def)
qed simp_all

lemma markup_execTemplate:
  "list_all inertNode ns \<Longrightarrow> list_all (sameBranches d d') ns \<Longrightarrow>
   markupOf (execTemplate ns d) = markupOf (execTemplate ns d')"
  by (induction ns) (auto simp: execTemplate_def markupOf_append dest: markup_execNode)

text \<open>The same data with every text replaced: all that is left is which texts are empty.\<close>

definition shapeOf :: "inviteEmailData \<Rightarrow> inviteEmailData" where
  "shapeOf d =
     (let x = (\<lambda>s. if s = [] then [] else ''x'') in
      d\<lparr>ted_RecipientFirstName := x (ted_RecipientFirstName d), ted_InviterFirstName := x (ted_InviterFirstName d),
        ted_InviterFullName := x (ted_InviterFullName d), ted_ResourceName := x (ted_ResourceName d),
        ted_ResourceType := x (ted_ResourceType d), ted_ParentResourceName := x (ted_ParentResourceName d),
        ted_Role := x (ted_Role d), ted_ReturnURL := x (ted_ReturnURL d), ted_OrgName := x (ted_OrgName d)\<rparr>)"

lemmas html_parts = htmlTmpl_def htmlTypeNodes_def htmlResourceNodes_def htmlRoleNodes_def htmlInvitation_def
  htmlGettingStarted_def htmlButton_def

lemma htmlTmpl_inert: "list_all inertNode htmlTmpl"
  by (simp add: html_parts)

lemma htmlTmpl_branches: "list_all (sameBranches d (shapeOf d)) htmlTmpl"
  by (simp add: html_parts shapeOf_def Let_def)

section \<open>Links\<close>

text \<open>The accept button and the link below it, with their texts, and the URL they lead to.\<close>

definition acceptButton :: "bool \<Rightarrow> string \<Rightarrow> string" where
  \<open>acceptButton account url =
     ''<a href="'' @ url @ ''" class="btn" style="color:#ffffff!important;">''
     @ (if account then ''Accept invitation'' else ''Accept invitation &amp; create account'') @ ''</a>''\<close>

definition fallbackAnchor :: "string \<Rightarrow> string" where
  \<open>fallbackAnchor url = ''<a href="'' @ url @ ''">click here to accept your invitation</a>''\<close>

lemma returnURL_link: "ted_ReturnURL (buildTemplateData p) = pay_InviteLink p"
  by (simp add: buildTemplateData_def)

lemma html_rendered: "ren_HTML (RenderInviteEmail p) = execTemplate htmlTmpl (buildTemplateData p)"
  by (simp add: RenderInviteEmail_def Let_def renderPart_def)

lemma html_button:
  "sublist (acceptButton (ted_RecipientHasAccount d) (hrefValue (ted_ReturnURL d))) (execTemplate htmlTmpl d)"
proof -
  let ?n = "TIf ted_RecipientHasAccount (htmlButton ''Accept invitation'')
        (htmlButton ''Accept invitation &amp; create account'')"
  have "?n \<in> set htmlTmpl" unfolding htmlTmpl_def by simp
  moreover have "execNode d ?n = acceptButton (ted_RecipientHasAccount d) (hrefValue (ted_ReturnURL d))"
    by (simp add: htmlButton_def HrefField_def acceptButton_def)
  ultimately show ?thesis using template_part [of ?n htmlTmpl] by (metis sublist_order.order_refl)
qed

lemma field_between:
  assumes "suffix x a" "prefix y b"
  shows "sublist (x @ hrefValue (f d) @ y) (execTemplate (ns @ [TText a, HrefField f, TText b] @ ms) d)"
proof -
  from assms obtain a' b' where "a = a' @ x" "b = y @ b'" by (auto simp: suffix_def prefix_def)
  then have "execTemplate (ns @ [TText a, HrefField f, TText b] @ ms) d =
      (execTemplate ns d @ a') @ (x @ hrefValue (f d) @ y) @ b' @ execTemplate ms d"
    by (simp add: execTemplate_def HrefField_def)
  then show ?thesis unfolding sublist_def by blast
qed

text \<open>The two texts of the template around the link of the note below the button.\<close>

definition beforeNote :: string where
  \<open>beforeNote = NL @ ''    <p class="btn-note">If the button above doesn't work, <a href="''\<close>

definition afterNote :: string where
  \<open>afterNote = ''">click here to accept your invitation</a>.</p>'' @ NL @ NL @ ''    <p class="signoff">Thanks,<br><strong>''\<close>

lemma html_note: "\<exists>ns ms. htmlTmpl = ns @ [TText beforeNote, HrefField ted_ReturnURL, TText afterNote] @ ms"
proof -
  have "\<exists>ns' ms. ns @ bs @ x1 # x2 # x3 # x4 # x5 # x6 # x7 # x8 # TText beforeNote # HrefField ted_ReturnURL # TText afterNote # ms0
      = ns' @ [TText beforeNote, HrefField ted_ReturnURL, TText afterNote] @ ms" for ns bs ms0 and x1 x2 x3 x4 x5 x6 x7 x8 :: node
    by (metis append.assoc append_Cons append_Nil)
  then show ?thesis unfolding htmlTmpl_def beforeNote_def afterNote_def by blast
qed

lemma html_fallback:
  "sublist (fallbackAnchor (hrefValue (ted_ReturnURL d))) (execTemplate htmlTmpl d)"
proof -
  obtain ns ms where t: "htmlTmpl = ns @ [TText beforeNote, HrefField ted_ReturnURL, TText afterNote] @ ms"
    using html_note by blast
  show ?thesis unfolding t fallbackAnchor_def
    by (rule field_between) (simp_all add: beforeNote_def afterNote_def suffix_to_prefix NL_def)
qed

text \<open>C38: The markup of the HTML part depends only on which branches of the template are taken: whatever the
  names, the role and the link of an invite contain, they add no tag, attribute or quote to it. The
  accept button, with the label for a recipient with or without an account, and the link below it
  both lead to the invite link when its scheme is http, https or mailto (or it has none), and to a
  dead anchor otherwise; a link of plain URL bytes arrives as it was generated.\<close>

theorem email_html_safe:
  "markupOf (ren_HTML (RenderInviteEmail p)) = markupOf (execTemplate htmlTmpl (shapeOf (buildTemplateData p)))
   \<and> (\<exists>url. sublist (acceptButton (pay_RecipientHasAccount p) url) (ren_HTML (RenderInviteEmail p))
        \<and> sublist (fallbackAnchor url) (ren_HTML (RenderInviteEmail p))
        \<and> markupOf url = []
        \<and> (if \<not> isSafeURL (pay_InviteLink p) then url = ''#ZgotmplZ''
           else if list_all plainURLByte (pay_InviteLink p) then url = pay_InviteLink p
           else url = htmlText (urlNormalize (pay_InviteLink p))))"
proof -
  let ?d = "buildTemplateData p"
  have d: "ted_ReturnURL ?d = pay_InviteLink p" "ted_RecipientHasAccount ?d = pay_RecipientHasAccount p"
    by (simp_all add: buildTemplateData_def)
  have "markupOf (ren_HTML (RenderInviteEmail p)) = markupOf (execTemplate htmlTmpl (shapeOf ?d))"
    unfolding html_rendered using markup_execTemplate [OF htmlTmpl_inert htmlTmpl_branches] by simp
  moreover have "if \<not> isSafeURL l then hrefValue l = ''#ZgotmplZ''
      else if list_all plainURLByte l then hrefValue l = l else hrefValue l = htmlText (urlNormalize l)" for l
    using hrefValue_unsafe [of l] hrefValue_plain [of l] by (simp add: hrefValue_def urlFilter_def)
  ultimately show ?thesis
    using html_button [of ?d] html_fallback [of ?d] markupOf_inert(2) unfolding html_rendered d by blast
qed

end
