(* ===== verification/Request_Properties.thy ===== *)
theory Request_Properties
  imports Send_Properties
begin

text \<open>
  Requests and their handlers: what a request must satisfy before anything happens, what the audit
  log shows, how the deprecated flat fields are resolved, and when a handler replies.
\<close>

section \<open>Validation comes first\<close>

text \<open>A host is allowed by an entry of the list: the same host, or a subdomain of a wildcard's domain.\<close>

definition hostAllowed :: "string list \<Rightarrow> string \<Rightarrow> bool" where
  "hostAllowed hosts host \<longleftrightarrow>
     host \<in> set hosts \<or> (\<exists>sub domain. ''*.'' @ domain \<in> set hosts \<and> host = sub @ ''.'' @ domain)"

lemma matchHost_allowed: "p \<in> set hosts \<Longrightarrow> matchHost host p \<Longrightarrow> hostAllowed hosts host"
  by (auto simp: matchHost_def hostAllowed_def hasPrefix_def hasSuffix_def prefix_def suffix_def split: if_splits)

definition wellFormedRequest :: "golib \<Rightarrow> NotificationConfig \<Rightarrow> SendInviteRequest \<Rightarrow> bool" where
  "wellFormedRequest lib cfg req \<longleftrightarrow>
     ResolvedRecipientEmail req \<noteq> [] \<and> (\<exists>email. lib_ParseAddress lib (ResolvedRecipientEmail req) = Inr email)
     \<and> trimSpace (req_Role req) \<noteq> []
     \<and> length (req_CustomClaims req) \<le> maxCustomClaims \<and> \<not> list_ex claimTooLong (req_CustomClaims req)
     \<and> (req_ReturnURL req = [] \<or> cfg_AllowedReturnURLHosts cfg = []
        \<or> (\<exists>host. lib_ParseURL lib (req_ReturnURL req) = Inr (''https'', host)
             \<and> hostAllowed (cfg_AllowedReturnURLHosts cfg) host))"

lemma claims_checked:
  assumes "exec (ns_linkGenerator (notificationService pf cfg) (linkPayload req email dest role)) tr (Inr g)"
  shows "length (req_CustomClaims req) \<le> maxCustomClaims \<and> \<not> list_ex claimTooLong (req_CustomClaims req)"
proof (rule ccontr)
  assume "\<not> ?thesis"
  then have "maxCustomClaims < length (lp_CustomClaims (linkPayload req email dest role))
      \<or> list_ex claimTooLong (lp_CustomClaims (linkPayload req email dest role))"
    by (auto simp: linkPayload_def)
  with Generate_rejects assms show False by fastforce
qed

text \<open>C21: Nothing is written and no email is sent unless the request is well-formed: a recipient address that
  parses, a role that is not blank, at most 16 custom claims of at most 64 and 1024 bytes, and a
  return URL, when one is given and hosts are configured, that uses https and an allowed host.\<close>

theorem effects_need_valid_request:
  assumes "sends pf cfg req tr x" "\<not> noEffect tr"
  shows "wellFormedRequest (plat_golib pf) (notificationConfig cfg) req"
proof (cases rule: HandleSendInvite_exec [OF assms(1) notificationService_simps(1), case_names invalid nolink persisted])
  case (nolink email role e)
  then show ?thesis using Generate_quiet assms(2) by auto
next
  case (persisted email role g trg now tr2 tr3 y)
  have "validateSend (plat_golib pf) (notificationConfig cfg) req = Inr (email, role)" using persisted(1) by simp
  moreover have "hostAllowed hosts host" if "\<exists>p \<in> set hosts. matchHost host p" for hosts host
    using that matchHost_allowed by blast
  ultimately show ?thesis
    using claims_checked [OF persisted(2)]
    by (fastforce simp: wellFormedRequest_def validateSend_ok validateReturnURL_None)
qed (use assms(2) in \<open>simp add: noEffect_def\<close>)

theorem effects_need_valid_request_witness:
  "wellFormedRequest sampleGolib (notificationConfig sampleConfig) sendRequest"
proof -
  have "\<not> noEffect sentTrace" by (simp add: sentTrace_def noEffect_iff)
  from effects_need_valid_request [OF sample_sends this] show ?thesis by simp
qed

section \<open>The audit log\<close>

text \<open>A redacted address: three asterisks, or the first byte, three asterisks and the part from the first at sign.\<close>

definition redactedForm :: "string \<Rightarrow> string \<Rightarrow> bool" where
  "redactedForm email shown \<longleftrightarrow>
     shown = ''***''
     \<or> (\<exists>c rest domain. email = c # rest @ ''@'' @ domain \<and> CHR ''@'' \<notin> set (c # rest) \<and> shown = c # ''***@'' @ domain)"

lemma redactEmail_form: "redactedForm email (redactEmail email)"
proof (cases "indexByte email (CHR ''@'')")
  case (Some i)
  note at = indexByte_Some [OF Some]
  then have e: "email = take i email @ CHR ''@'' # drop (Suc i) email" by (metis id_take_nth_drop)
  show ?thesis
  proof (cases i)
    case (Suc n)
    then obtain c rest where c: "take i email = c # rest" using at by (cases email) auto
    have "redactEmail email = take 1 email @ ''***'' @ drop i email" using Some Suc by (simp add: redactEmail_def)
    moreover have "drop i email = CHR ''@'' # drop (Suc i) email" using at Cons_nth_drop_Suc by metis
    moreover have "take 1 email = [c]" using c by (cases email) (auto simp: Suc)
    ultimately have "redactEmail email = c # ''***@'' @ drop (Suc i) email" by simp
    moreover have "email = c # rest @ ''@'' @ drop (Suc i) email" using e c by simp
    moreover have "CHR ''@'' \<notin> set (c # rest)" using at c by metis
    ultimately show ?thesis unfolding redactedForm_def by blast
  qed (use Some in \<open>simp add: redactEmail_def redactedForm_def\<close>)
qed (simp add: redactEmail_def redactedForm_def)

text \<open>Operations that write no audit entry.\<close>

fun isAudit :: "event \<Rightarrow> bool" where
  "isAudit (EAudit a) = True"
| "isAudit _ = False"

lemma no_audit:
  "calls (\<lambda>e. \<not> isAudit e) (Generate jwt secret base p)" "calls (\<lambda>e. \<not> isAudit e) (Create u r)"
  "calls (\<lambda>e. \<not> isAudit e) (DeleteInvite u uid)" "calls (\<lambda>e. \<not> isAudit e) (SendNotification elib subj payload)"
  unfolding Generate_def Create_def DeleteInvite_def SendNotification_def Request_def
  by (auto simp: Let_def intro!: calls_bind calls_choice split: sum.splits option.splits)

lemma no_audit_exec: "exec p tr x \<Longrightarrow> calls (\<lambda>e. \<not> isAudit e) p \<Longrightarrow> EAudit a \<notin> set tr"
  using exec_calls [of p tr x "\<lambda>e. \<not> isAudit e"] by (auto simp: list_all_iff)

text \<open>C27: Every audit entry of a send shows the recipient redacted: at most the first byte of the part before
  the at sign is left; and its delivery state says whether the request succeeded.\<close>

theorem audit_redacted:
  assumes "sends pf cfg req tr x" "EAudit entry \<in> set tr"
  shows "\<exists>email. lib_ParseAddress (plat_golib pf) (ResolvedRecipientEmail req) = Inr email
    \<and> redactedForm email (aud_RecipientEmail entry)
    \<and> aud_DeliveryState entry = (if \<exists>res. x = Inr res then DeliveryStateSent else DeliveryStateFailed)"
proof (cases rule: HandleSendInvite_exec [OF assms(1) notificationService_simps(1), case_names invalid nolink persisted])
  case (nolink email role e)
  then show ?thesis using no_audit_exec [OF nolink(2)] no_audit(1) assms(2) by simp
next
  case (persisted email role g trg now tr2 tr3 y)
  have quiet: "EAudit entry \<notin> set trg" "EAudit entry \<notin> set tr2"
    using no_audit_exec [OF persisted(2)] no_audit_exec [OF persisted(4)] no_audit(1,2) by simp_all
  with assms(2) persisted(3) have "EAudit entry \<in> set tr3" by auto
  with persisted(5) have d: "exec (dispatchInvite (notificationService pf cfg) req email role g) tr3 x"
    and entry: "EAudit entry \<in> set tr3" by auto
  have email: "lib_ParseAddress (plat_golib pf) (ResolvedRecipientEmail req) = Inr email"
    using persisted(1) by (simp add: validateSend_ok)
  show ?thesis
  proof (cases rule: dispatchInvite_exec [OF d notificationService_simps(1), case_names sent failed])
    case (sent trm entry')
    then have "EAudit entry \<notin> set trm" using no_audit_exec [OF sent(1)] no_audit(4) by simp
    with sent entry email redactEmail_form show ?thesis by auto
  next
    case (failed trm err entry' trd de)
    then have "EAudit entry \<notin> set trm" "EAudit entry \<notin> set trd"
      using no_audit_exec [OF failed(1)] no_audit_exec [OF failed(5)] no_audit(3,4) by simp_all
    with failed entry email redactEmail_form show ?thesis by auto
  qed
qed (use assms(2) in simp)

theorem audit_redacted_witness:
  "redactedForm ''ada@lfx.dev'' (aud_RecipientEmail sentAudit) \<and> aud_DeliveryState sentAudit = DeliveryStateSent"
proof -
  have "EAudit sentAudit \<in> set sentTrace" by (simp add: sentTrace_def)
  moreover have "lib_ParseAddress sampleGolib (ResolvedRecipientEmail sendRequest) = Inr ''ada@lfx.dev''"
    using sendRequest_valid by (simp add: validateSend_ok)
  ultimately show ?thesis using audit_redacted [OF sample_sends] by auto
qed

section \<open>Deprecated fields\<close>

lemma apiToModelRequest_simps:
  "req_Recipient (apiToModelRequest r) = map_option (\<lambda>p. \<lparr>rcp_Name = arcp_Name p, rcp_Email = arcp_Email p,
     rcp_Username = arcp_Username p, rcp_Avatar = arcp_Avatar p\<rparr>) (areq_Recipient r)"
  "req_Inviter (apiToModelRequest r) = map_option (\<lambda>p. \<lparr>inv_Name = ainv_Name p, inv_Username = ainv_Username p,
     inv_Email = ainv_Email p, inv_Avatar = ainv_Avatar p\<rparr>) (areq_Inviter r)"
  "req_Resource (apiToModelRequest r) = map_option (\<lambda>p. \<lparr>res_UID = ares_UID p, res_Name = ares_Name p,
     res_Type = ares_Type p, res_ParentName = ares_ParentName p\<rparr>) (areq_Resource r)"
  "req_RecipientEmail (apiToModelRequest r) = areq_RecipientEmail r" "req_RecipientName (apiToModelRequest r) = areq_RecipientName r"
  "req_InviterName (apiToModelRequest r) = areq_InviterName r" "req_ResourceUID (apiToModelRequest r) = areq_ResourceUID r"
  "req_ResourceName (apiToModelRequest r) = areq_ResourceName r" "req_ResourceType (apiToModelRequest r) = areq_ResourceType r"
  "req_Role (apiToModelRequest r) = areq_Role r" "req_ReturnURL (apiToModelRequest r) = areq_ReturnURL r"
  "req_OrgName (apiToModelRequest r) = areq_OrgName r" "req_ExpirationDays (apiToModelRequest r) = areq_ExpirationDays r"
  "req_CustomClaims (apiToModelRequest r) = areq_CustomClaims r"
  "req_RecipientHasAccount (apiToModelRequest r) = areq_RecipientHasAccount r"
  by (simp_all add: apiToModelRequest_def)

lemma map_option_inject: "inj f \<Longrightarrow> map_option f a = map_option f b \<longleftrightarrow> a = b"
  by (metis option.inj_map injD)

lemma api_inject: "apiToModelRequest r = apiToModelRequest r' \<longleftrightarrow> r = r'"
proof
  assume eq: "apiToModelRequest r = apiToModelRequest r'"
  have "inj (\<lambda>p :: ApiRecipient. \<lparr>rcp_Name = arcp_Name p, rcp_Email = arcp_Email p, rcp_Username = arcp_Username p, rcp_Avatar = arcp_Avatar p\<rparr>)"
    "inj (\<lambda>p :: ApiInviter. \<lparr>inv_Name = ainv_Name p, inv_Username = ainv_Username p, inv_Email = ainv_Email p, inv_Avatar = ainv_Avatar p\<rparr>)"
    "inj (\<lambda>p :: ApiResource. \<lparr>res_UID = ares_UID p, res_Name = ares_Name p, res_Type = ares_Type p, res_ParentName = ares_ParentName p\<rparr>)"
    by (auto intro!: injI)
  note nested = this [THEN map_option_inject]
  from eq show "r = r'"
    by (intro ApiSendInviteRequest.equality)
       (simp_all add: nested apiToModelRequest_def)
qed simp

text \<open>The mapping of a request to the model loses nothing, and every value the service uses is taken from
  the nested object when it has one there, else from the deprecated flat field.\<close>

theorem request_mapping:
  "(apiToModelRequest r = apiToModelRequest r' \<longleftrightarrow> r = r')
   \<and> ResolvedRecipientEmail (apiToModelRequest r) =
       firstNonEmpty [case areq_Recipient r of Some p \<Rightarrow> arcp_Email p | None \<Rightarrow> [], areq_RecipientEmail r]
   \<and> ResolvedRecipientName (apiToModelRequest r) =
       firstNonEmpty [case areq_Recipient r of Some p \<Rightarrow> arcp_Name p | None \<Rightarrow> [], areq_RecipientName r]
   \<and> ResolvedInviterName (apiToModelRequest r) =
       firstNonEmpty [case areq_Inviter r of Some p \<Rightarrow> ainv_Name p | None \<Rightarrow> [], areq_InviterName r]
   \<and> ResolvedResourceUID (apiToModelRequest r) =
       firstNonEmpty [case areq_Resource r of Some p \<Rightarrow> ares_UID p | None \<Rightarrow> [], areq_ResourceUID r]
   \<and> ResolvedResourceName (apiToModelRequest r) =
       firstNonEmpty [case areq_Resource r of Some p \<Rightarrow> ares_Name p | None \<Rightarrow> [], areq_ResourceName r]
   \<and> ResolvedResourceType (apiToModelRequest r) =
       firstNonEmpty [case areq_Resource r of Some p \<Rightarrow> ares_Type p | None \<Rightarrow> [], areq_ResourceType r]
   \<and> ResolvedParentResourceName (apiToModelRequest r) =
       (case areq_Resource r of Some p \<Rightarrow> ares_ParentName p | None \<Rightarrow> [])"
  by (intro conjI api_inject; cases "areq_Recipient r"; cases "areq_Inviter r"; cases "areq_Resource r")
     (simp_all add: resolve apiToModelRequest_simps)

section \<open>Replies\<close>

lemma subjects_differ:
  "InviteAcceptedSubject \<noteq> SendInviteSubject" "InviteAcceptedSubject \<noteq> GetInviteSubject"
  "InviteAcceptedSubject \<noteq> GetInvitesByEmailSubject" "GetInviteSubject \<noteq> SendInviteSubject"
  "GetInvitesByEmailSubject \<noteq> SendInviteSubject" "GetInvitesByEmailSubject \<noteq> GetInviteSubject"
  by (simp_all add: subject_defs)

text \<open>C23: A message whose sender waits for a reply gets exactly one, whatever happens while it is handled;
  acceptance events and messages on other subjects get none.\<close>

theorem handlers_reply_once:
  assumes "exec (dispatchMsg lib (wireServer pf cfg) m) tr x"
  shows "replies tr = (if msg_ReplyTo m \<noteq> []
      \<and> msg_Subject m \<in> {SendInviteSubject, GetInviteSubject, GetInvitesByEmailSubject} then 1 else 0)"
proof -
  have one: "replies tr = (if msg_ReplyTo m = [] then 0 else 1)" if "exec p tr x" "once m p" for p :: "unit prog"
    using that unfolding once_def by blast
  show ?thesis
    using assms one [OF _ handleSendInvite_once] one [OF _ handleGetInvite_once] one [OF _ handleGetInvitesByEmail_once]
      handleInviteAccepted_replies [of pf cfg m tr x] subjects_differ
    unfolding dispatchMsg_def by (simp add: exec_simps(1) split: if_splits)
qed

theorem handlers_reply_once_witness:
  "\<exists>tr x. exec (dispatchMsg sampleGolib (wireServer samplePlatform sampleConfig)
      \<lparr>msg_Data = ''{}'', msg_Subject = GetInviteSubject, msg_ReplyTo = ''r''\<rparr>) tr x \<and> replies tr = 1"
proof -
  let ?m = "\<lparr>msg_Data = ''{}'', msg_Subject = GetInviteSubject, msg_ReplyTo = ''r''\<rparr>"
  obtain tr x where e: "exec (dispatchMsg sampleGolib (wireServer samplePlatform sampleConfig) ?m) tr x"
    using exec_exists [of "dispatchMsg sampleGolib (wireServer samplePlatform sampleConfig) ?m"] by auto
  from handlers_reply_once [OF e] have "replies tr = 1" by simp
  with e show ?thesis by blast
qed

end
