(* ===== verification/Message_Properties.thy ===== *)
theory Message_Properties
  imports Request_Properties
begin

text \<open>
  Messages that cannot be read: what the service does for them, and what it answers.
\<close>

section \<open>Messages that do not decode\<close>

definition decodes :: "natsMsg \<Rightarrow> bool" where
  "decodes m \<longleftrightarrow>
     (if msg_Subject m = SendInviteSubject then unmarshalSendInviteRequest (msg_Data m) \<noteq> None
      else if msg_Subject m = InviteAcceptedSubject then unmarshalInviteAcceptedEvent (msg_Data m) \<noteq> None
      else if msg_Subject m = GetInviteSubject then unmarshalGetInviteRequest (msg_Data m) \<noteq> None
      else if msg_Subject m = GetInvitesByEmailSubject then unmarshalGetInvitesByEmailRequest (msg_Data m) \<noteq> None
      else False)"

definition quoted :: "string \<Rightarrow> string" where
  "quoted s = [CHR 0x22] @ s @ [CHR 0x22]"

text \<open>The reply to a message that does not decode, as JSON text.\<close>

definition malformedReply :: "string \<Rightarrow> string option" where
  "malformedReply subject =
     (if subject \<in> {SendInviteSubject, GetInviteSubject}
      then Some (''{'' @ quoted ''error'' @ '':'' @ quoted ''malformed_request'' @ ''}'')
      else if subject = GetInvitesByEmailSubject
      then Some (''{'' @ quoted ''invites'' @ '':null,'' @ quoted ''error'' @ '':'' @ quoted ''malformed_request'' @ ''}'')
      else None)"

lemma malformed_json:
  "marshalSendInviteResponse \<lparr>sresp_InviteData = None, sresp_Error = ''malformed_request''\<rparr> =
     Some (''{'' @ quoted ''error'' @ '':'' @ quoted ''malformed_request'' @ ''}'')"
  "marshalGetInviteResponse \<lparr>gresp_Invite = None, gresp_Error = ''malformed_request''\<rparr> =
     Some (''{'' @ quoted ''error'' @ '':'' @ quoted ''malformed_request'' @ ''}'')"
  "marshalGetInvitesByEmailResponse \<lparr>eresp_Invites = None, eresp_Error = ''malformed_request''\<rparr> =
     Some (''{'' @ quoted ''invites'' @ '':null,'' @ quoted ''error'' @ '':'' @ quoted ''malformed_request'' @ ''}'')"
  by code_simp+

lemma Reply_exec:
  "exec (bind (Reply m d) (\<lambda>e. Return ())) tr x \<longleftrightarrow>
   (if msg_ReplyTo m = [] then tr = [] else \<exists>r. tr = [EReply d r])"
  unfolding Reply_def by (auto simp: prog_simps exec_bind)

text \<open>C35: A message that does not decode, or comes on another subject, makes the service do nothing but
  answer, where an answer is expected, with the error \<open>malformed_request\<close>: nothing is read, written,
  sent or logged for it.\<close>

theorem malformed_messages:
  assumes "exec (dispatchMsg lib srv m) tr x" "\<not> decodes m"
  shows "case malformedReply (msg_Subject m) of
      Some d \<Rightarrow> if msg_ReplyTo m = [] then tr = [] else \<exists>r. tr = [EReply d r]
    | None \<Rightarrow> tr = []"
proof (cases "msg_Subject m \<in> {SendInviteSubject, GetInviteSubject, GetInvitesByEmailSubject, InviteAcceptedSubject}")
  case False
  with assms(1) show ?thesis by (auto simp: dispatchMsg_def malformedReply_def prog_simps)
next
  case True
  then consider "msg_Subject m = SendInviteSubject" | "msg_Subject m = GetInviteSubject"
    | "msg_Subject m = GetInvitesByEmailSubject" | "msg_Subject m = InviteAcceptedSubject" by blast
  then show ?thesis
  proof cases
    case 1
    with assms have "exec (replyError m ''malformed_request'') tr x"
      by (simp add: dispatchMsg_def handleSendInvite_def decodes_def)
    with 1 show ?thesis
      by (simp add: replyError_def orNil_def malformed_json Reply_exec malformedReply_def)
  next
    case 2
    with assms subjects_differ have "exec (replyGetInviteError m ''malformed_request'') tr x"
      by (simp add: dispatchMsg_def handleGetInvite_def decodes_def)
    with 2 show ?thesis
      by (simp add: replyGetInviteError_def orNil_def malformed_json Reply_exec malformedReply_def)
  next
    case 3
    with assms subjects_differ have "exec (replyGetByEmailError m ''malformed_request'') tr x"
      by (simp add: dispatchMsg_def handleGetInvitesByEmail_def decodes_def)
    with 3 subjects_differ show ?thesis
      by (simp add: replyGetByEmailError_def orNil_def malformed_json Reply_exec malformedReply_def)
  next
    case 4
    with assms subjects_differ have "exec (Return ()) tr x"
      by (simp add: dispatchMsg_def handleInviteAccepted_def decodes_def)
    with 4 subjects_differ show ?thesis by (simp add: malformedReply_def prog_simps)
  qed
qed

theorem malformed_messages_witness:
  "\<exists>tr r. exec (dispatchMsg sampleGolib (wireServer samplePlatform sampleConfig)
      \<lparr>msg_Data = ''{'', msg_Subject = GetInviteSubject, msg_ReplyTo = ''r''\<rparr>) tr ()
    \<and> tr = [EReply (''{'' @ quoted ''error'' @ '':'' @ quoted ''malformed_request'' @ ''}'') r]"
proof -
  let ?m = "\<lparr>msg_Data = ''{'', msg_Subject = GetInviteSubject, msg_ReplyTo = ''r''\<rparr>"
  have "unmarshalGetInviteRequest ''{'' = None" by code_simp
  then have d: "\<not> decodes ?m" using subjects_differ by (simp add: decodes_def)
  obtain tr where e: "exec (dispatchMsg sampleGolib (wireServer samplePlatform sampleConfig) ?m) tr ()"
    using exec_exists [of "dispatchMsg sampleGolib (wireServer samplePlatform sampleConfig) ?m"] by auto
  from malformed_messages [OF e d] e show ?thesis by (auto simp: malformedReply_def)
qed

end
