(* ===== verification/Call_Bounds.thy ===== *)
theory Call_Bounds
  imports Request_Properties
begin

text \<open>
  How much one message can make the service do: every handler returns after a bounded number of
  calls, whatever their answers are.
\<close>

section \<open>Bounds of programs\<close>

definition maxCalls :: "nat \<Rightarrow> 'a prog \<Rightarrow> bool" where
  "maxCalls n p \<longleftrightarrow> (\<forall>tr x. exec p tr x \<longrightarrow> length tr \<le> n)"

lemma maxCallsI: "(\<And>tr x. exec p tr x \<Longrightarrow> length tr \<le> n) \<Longrightarrow> maxCalls n p"
  by (simp add: maxCalls_def)

lemma maxCallsD: "maxCalls n p \<Longrightarrow> exec p tr x \<Longrightarrow> length tr \<le> n"
  unfolding maxCalls_def by blast

lemma maxCalls_mono: "maxCalls m p \<Longrightarrow> m \<le> n \<Longrightarrow> maxCalls n p"
  by (fastforce simp: maxCalls_def)

lemma maxCalls_bind:
  assumes "maxCalls m p" "\<And>x. maxCalls n (g x)"
  shows "maxCalls (m + n) (bind p g)"
proof (rule maxCallsI)
  fix tr x
  assume "exec (bind p g) tr x"
  then obtain tr1 a tr2 where "tr = tr1 @ tr2" "exec p tr1 a" "exec (g a) tr2 x" by (rule exec_bindE)
  with assms show "length tr \<le> m + n" by (fastforce simp: maxCalls_def)
qed

lemma maxCalls_bindI:
  assumes "maxCalls m p" "\<And>x. maxCalls n (g x)" "m + n \<le> k"
  shows "maxCalls k (bind p g)"
  by (rule maxCalls_mono [OF maxCalls_bind [OF assms(1,2)] assms(3)])

lemma maxCalls_simps [simp]:
  "maxCalls n (Return a)"
  "(\<And>t. maxCalls n (f t)) \<Longrightarrow> maxCalls (Suc n) (Now f)"
  "maxCalls n p \<Longrightarrow> maxCalls (Suc n) (Audit e p)"
  by (auto simp: maxCalls_def prog_simps) blast+

named_theorems call_bounds \<open>how many calls a program makes\<close>

section \<open>Repository\<close>

lemma repository_bounds [call_bounds]:
  "maxCalls 3 (Create u r)" "maxCalls 1 (GetByUID uid)" "maxCalls 3 (DeleteInvite u uid)"
  by (auto simp: maxCalls_def Create_def GetByUID_def DeleteInvite_def prog_simps split: if_splits)

lemma markAttempts_bound: "maxCalls (3 * n) (markAttempts n uid username t)"
proof (induction n)
  case (Suc n)
  show ?case
  proof (rule maxCallsI)
    fix tr x
    assume "exec (markAttempts (Suc n) uid username t) tr x"
    then consider "length tr \<le> 3" | tr1 tr2 where "tr = tr1 @ tr2" "length tr1 = 3" "exec (markAttempts n uid username t) tr2 x"
      by (auto simp: Let_def prog_simps split: if_splits) (metis append_Cons append_Nil length_Cons list.size(3) numeral_3_eq_3)
    then show "length tr \<le> 3 * Suc n" using Suc by cases (auto simp: maxCalls_def)
  qed
qed simp

lemma MarkAccepted_bound [call_bounds]: "maxCalls 9 (MarkAccepted uid username t)"
  using markAttempts_bound [of 3] by (simp add: MarkAccepted_def maxMarkAcceptedRetries_def)

text \<open>The keys that the bucket listed during an execution.\<close>

definition keysListed :: "event list \<Rightarrow> nat" where
  "keysListed tr = sum_list (map (\<lambda>e. case e of EListKeys (Inr keys) \<Rightarrow> length keys | _ \<Rightarrow> 0) tr)"

lemma keysListed_simps [simp]:
  "keysListed [] = 0" "keysListed (tr @ tr') = keysListed tr + keysListed tr'"
  "keysListed (e # tr) = (case e of EListKeys (Inr keys) \<Rightarrow> length keys | _ \<Rightarrow> 0) + keysListed tr"
  by (simp_all add: keysListed_def)

lemma loadRecords_bound: "maxCalls (length uids) (loadRecords uids acc)"
proof (induction uids arbitrary: acc)
  case (Cons uid uids)
  have "maxCalls (length uids) (case r of
      Inl err \<Rightarrow> if errors_Is err ErrInviteNotFound then loadRecords uids acc else Return (Inl err)
    | Inr record \<Rightarrow> loadRecords uids (acc @ [record]))" for r
    using Cons by (cases r) simp_all
  from maxCalls_bind [OF repository_bounds(2) this] show ?case by simp
qed simp

lemma GetByEmail_bound: "exec (GetByEmail u email) tr x \<Longrightarrow> length tr \<le> 2 + keysListed tr"
proof -
  have "length tr' \<le> length keys" if "exec (loadRecords (map f (filter P keys)) []) tr' x" for f P keys tr'
  proof -
    have "length tr' \<le> length (map f (filter P keys))" by (rule maxCallsD [OF loadRecords_bound that])
    also have "\<dots> \<le> length keys" by simp
    finally show ?thesis .
  qed
  then show "exec (GetByEmail u email) tr x \<Longrightarrow> length tr \<le> 2 + keysListed tr"
    by (fastforce simp: GetByEmail_def Let_def prog_simps split: if_splits)
qed

section \<open>Services\<close>

lemma service_bounds [call_bounds]:
  "maxCalls 3 (Generate jwt secret base p)" "maxCalls 1 (Verify jwt secret token)"
  "maxCalls 1 (SendNotification elib subject payload)" "maxCalls 1 (Publish c d)" "maxCalls 1 (Reply m d)"
  by (auto simp: maxCalls_def Generate_def Verify_def SendNotification_def Request_def Publish_def Reply_def Let_def
      prog_simps exec_bind split: if_splits)

lemma HandleSendInvite_bound [call_bounds]: "maxCalls 11 (HandleSendInvite lib (notificationService pf cfg) req)"
proof (rule maxCallsI)
  fix tr x
  assume e: "exec (HandleSendInvite lib (notificationService pf cfg) req) tr x"
  show "length tr \<le> 11"
  proof (cases rule: HandleSendInvite_exec [OF e notificationService_simps(1), case_names invalid nolink persisted])
    case (nolink email role err)
    from maxCallsD [OF service_bounds(1) nolink(2) [unfolded notificationService_simps]] show ?thesis by simp
  next
    case (persisted email role g trg now tr2 tr3 y)
    have "length trg \<le> 3" "length tr2 \<le> 3"
      using maxCallsD [OF service_bounds(1) persisted(2) [unfolded notificationService_simps]]
        maxCallsD [OF repository_bounds(1) persisted(4) [unfolded NATSInviteRepository_simps]] by simp_all
    moreover have "length tr2 \<le> 2" if "y = None"
      using persisted(4) that by (auto simp: Create_None)
    moreover have "length tr3 \<le> 5" if d: "exec (dispatchInvite (notificationService pf cfg) req email role g) tr3 x"
    proof (cases rule: dispatchInvite_exec [OF d notificationService_simps(1), case_names sent failed])
      case (sent trm entry)
      from maxCallsD [OF service_bounds(3) sent(1) [unfolded notificationService_simps]] sent(2) show ?thesis by simp
    next
      case (failed trm err entry trd de)
      from maxCallsD [OF service_bounds(3) failed(1) [unfolded notificationService_simps]]
        maxCallsD [OF repository_bounds(3) failed(5) [unfolded NATSInviteRepository_simps]] failed(2)
      show ?thesis by simp
    qed
    ultimately show ?thesis using persisted(3,5) by auto
  qed simp
qed

lemma publishAccepted_bound [call_bounds]: "maxCalls 2 (publishAccepted (acceptanceService u jwt secret) uid)"
proof -
  have p: "maxCalls 1 (bind (Publish c d) (\<lambda>err. Return ()))" for c d
    by (rule maxCalls_bindI [OF service_bounds(4), of 0]) simp_all
  show ?thesis
    unfolding publishAccepted_def acceptanceService_simps NATSInviteRepository_simps
    by (rule maxCalls_bindI [OF repository_bounds(2), of 1]) (use p in \<open>simp_all add: Let_def split: sum.splits option.splits\<close>)
qed

lemma verifyAcceptance_bound [call_bounds]:
  "maxCalls 1 (verifyAcceptance (acceptanceService u jwt secret) evt r now)"
  unfolding verifyAcceptance_def acceptanceService_simps
  by (auto intro!: maxCalls_bindI [OF service_bounds(2), of 0] split: sum.splits)

lemma HandleInviteAccepted_bound [call_bounds]:
  "maxCalls 14 (HandleInviteAccepted (acceptanceService u jwt secret) evt)"
proof -
  let ?svc = "acceptanceService u jwt secret"
  have mark: "maxCalls 11 (bind (MarkAccepted uid username now) (\<lambda>r. case r of
      Some err \<Rightarrow> Return () | None \<Rightarrow> publishAccepted ?svc uid))" for uid username now
    by (rule maxCalls_bindI [OF MarkAccepted_bound, of 2]) (simp_all add: publishAccepted_bound split: option.splits)
  have "maxCalls 12 (bind (verifyAcceptance ?svc evt r now) (\<lambda>v. case v of
      Some err \<Rightarrow> Return ()
    | None \<Rightarrow> bind (MarkAccepted uid username now) (\<lambda>r. case r of
        Some err \<Rightarrow> Return () | None \<Rightarrow> publishAccepted ?svc uid)))" for r now uid username
    by (rule maxCalls_bindI [OF verifyAcceptance_bound, of 11]) (simp_all add: mark split: option.splits)
  note verified = maxCalls_simps(2) [OF this]
  show ?thesis
    unfolding HandleInviteAccepted_def acceptanceService_simps NATSInviteRepository_simps
    by (auto intro!: maxCalls_bindI [OF repository_bounds(2), of 13] split: sum.splits)
       (use verified in \<open>simp add: eval_nat_numeral\<close>)
qed

section \<open>Messages\<close>

lemma after_reply:
  assumes "exec (bind p g) tr x" "\<And>tr y. exec p tr y \<Longrightarrow> length tr \<le> n + keysListed tr" "\<And>y. maxCalls 1 (g y)"
  shows "length tr \<le> n + 1 + keysListed tr"
proof -
  obtain tr1 y tr2 where t: "tr = tr1 @ tr2" "exec p tr1 y" "exec (g y) tr2 x" using assms(1) by (rule exec_bindE)
  have "length tr1 \<le> n + keysListed tr1" "length tr2 \<le> 1" using assms(2) [OF t(2)] maxCallsD [OF assms(3) t(3)] by simp_all
  with t(1) show ?thesis by simp
qed

lemma reply_bounds:
  "maxCalls 1 (bind (Reply m d) (\<lambda>e. Return ()))" "maxCalls 1 (replyError m code)"
  "maxCalls 1 (replyGetInviteError m code)" "maxCalls 1 (replyGetByEmailError m code)"
proof -
  show r: "maxCalls 1 (bind (Reply m d) (\<lambda>e. Return ()))" for d
    using maxCalls_bind [OF service_bounds(5), of 0 "\<lambda>e. Return ()"] by simp
  show "maxCalls 1 (replyError m code)" "maxCalls 1 (replyGetInviteError m code)" "maxCalls 1 (replyGetByEmailError m code)"
    unfolding replyError_def replyGetInviteError_def replyGetByEmailError_def by (rule r)+
qed

text \<open>C36: Every message is handled in a bounded number of calls to the outside, whatever they answer: at most 12
  for a send, 14 for an acceptance (its retries included), 2 for a query by UID, and 3 plus one per
  key that the bucket lists for a query by email.\<close>

theorem handler_call_bounds:
  assumes "exec (dispatchMsg lib (wireServer pf cfg) m) tr x"
  shows "length tr \<le> (if msg_Subject m = SendInviteSubject then 12
    else if msg_Subject m = InviteAcceptedSubject then 14
    else if msg_Subject m = GetInviteSubject then 2
    else if msg_Subject m = GetInvitesByEmailSubject then 3 + keysListed tr
    else 0)"
proof -
  have send: "maxCalls 12 (handleSendInvite lib (wireServer pf cfg) m)"
    using maxCalls_mono [OF reply_bounds(2), of 12 m] reply_bounds(1,2)
    by (auto simp: handleSendInvite_def Let_def intro!: maxCalls_bindI [OF HandleSendInvite_bound, of 1] split: option.splits)
  have accept: "maxCalls 14 (handleInviteAccepted (wireServer pf cfg) m)"
    using HandleInviteAccepted_bound by (simp add: handleInviteAccepted_def wireServer_acceptSvc split: option.splits)
  have "maxCalls 1 (GetInvite (NATSInviteRepository u) uid)" for u uid
    by (auto simp: GetInvite_def intro!: maxCalls_bindI [OF repository_bounds(2), of 0] split: sum.splits)
  then have get: "maxCalls 2 (handleGetInvite (wireServer pf cfg) m)"
    using maxCalls_mono [OF reply_bounds(3), of 2 m] reply_bounds(1,3)
    by (auto simp: handleGetInvite_def Let_def intro!: maxCalls_bindI [of 1 _ 1] split: option.splits)
  have byEmail: "length tr \<le> 3 + keysListed tr" if "exec (handleGetInvitesByEmail lib (wireServer pf cfg) m) tr x"
  proof (cases "unmarshalGetInvitesByEmailRequest (msg_Data m)")
    case None
    with that have "exec (replyGetByEmailError m ''malformed_request'') tr x" by (simp add: handleGetInvitesByEmail_def)
    with maxCallsD [OF reply_bounds(4)] show ?thesis by fastforce
  next
    case (Some req)
    let ?p = "GetInvitesByEmail lib (NATSInviteRepository (lib_lower (plat_golib pf))) (ereq_Email req)"
    have query: "length tr \<le> 2 + keysListed tr" if "exec ?p tr y" for tr y
      using that GetByEmail_bound
      by (force simp: GetInvitesByEmail_def exec_bind prog_simps split: if_splits)
    have "maxCalls 1 (case r of
        Inl err \<Rightarrow> if errors_Is err ErrInvalidRequest then replyGetByEmailError m ''invalid_request''
                   else replyGetByEmailError m ''internal_error''
      | Inr invites \<Rightarrow>
          (case marshalGetInvitesByEmailResponse \<lparr>eresp_Invites = Some invites, eresp_Error = []\<rparr> of
             None \<Rightarrow> replyGetByEmailError m ''internal_error''
           | Some data \<Rightarrow> bind (Reply m data) (\<lambda>replyErr. Return ())))" for r
      using reply_bounds(1,4) by (simp split: sum.splits option.splits)
    from after_reply [OF _ query this] that Some show ?thesis by (auto simp: handleGetInvitesByEmail_def)
  qed
  show ?thesis
    using assms maxCallsD [OF send] maxCallsD [OF accept] maxCallsD [OF get] byEmail
    by (auto simp: dispatchMsg_def prog_simps split: if_splits)
qed

theorem handler_call_bounds_witness:
  "\<exists>tr x. exec (dispatchMsg sampleGolib (wireServer samplePlatform sampleConfig)
      \<lparr>msg_Data = ''{}'', msg_Subject = GetInviteSubject, msg_ReplyTo = ''r''\<rparr>) tr x \<and> length tr \<le> 2"
proof -
  let ?m = "\<lparr>msg_Data = ''{}'', msg_Subject = GetInviteSubject, msg_ReplyTo = ''r''\<rparr>"
  obtain tr where e: "exec (dispatchMsg sampleGolib (wireServer samplePlatform sampleConfig) ?m) tr ()"
    using exec_exists [of "dispatchMsg sampleGolib (wireServer samplePlatform sampleConfig) ?m"] by auto
  from handler_call_bounds [OF e] e subjects_differ show ?thesis by auto
qed

end
