(* ===== verification/Config_Properties.thy ===== *)
theory Config_Properties
  imports Request_Properties
begin

text \<open>
  What the settings of the environment mean: the configuration is always complete, which return URLs
  an allow list lets through, which sampler is chosen, and how trace headers are carried.
\<close>

section \<open>Configuration\<close>

text \<open>The host of the web application of each deployment.\<close>

definition deploymentHost :: "string \<Rightarrow> string" where
  "deploymentHost environment =
     (case map_of [(''prod'', ''app.lfx.dev''), (''staging'', ''app.staging.lfx.dev''), (''stg'', ''app.staging.lfx.dev'')]
        environment of
        Some host \<Rightarrow> host
      | None \<Rightarrow> ''app.dev.lfx.dev'')"

text \<open>C39: Whatever the environment, the configuration names a server, a bucket, a base URL and a default return
  URL, the secret is the one of the environment, and every entry of the allow list is a nonempty text
  without commas. The base URL is the one that is set, else https with the host of the deployment:
  app.lfx.dev in production, app.staging.lfx.dev in staging, app.dev.lfx.dev otherwise. The default
  return URL is the one that is set, else the base URL. And the defaults fit together: the allow list
  that holds when none is set lets through the host of every deployment.\<close>

theorem config_complete:
  "app_NATSURL (AppConfigFromEnv env) \<noteq> [] \<and> app_InvitesKVBucket (AppConfigFromEnv env) \<noteq> []
   \<and> app_SelfServeBaseURL (AppConfigFromEnv env) \<noteq> [] \<and> app_DefaultReturnURL (AppConfigFromEnv env) \<noteq> []
   \<and> app_InviteJWTSecret (AppConfigFromEnv env) = env ''INVITE_JWT_SECRET''
   \<and> list_all (\<lambda>h. h \<noteq> [] \<and> CHR '','' \<notin> set h) (app_AllowedReturnURLHosts (AppConfigFromEnv env))
   \<and> app_SelfServeBaseURL (AppConfigFromEnv env) =
       (if env ''LFX_SELF_SERVE_BASE_URL'' = [] then ''https://'' @ deploymentHost (env ''LFX_ENVIRONMENT'')
        else env ''LFX_SELF_SERVE_BASE_URL'')
   \<and> app_DefaultReturnURL (AppConfigFromEnv env) =
       (if env ''DEFAULT_INVITE_LINK_RETURN_URL'' = [] then app_SelfServeBaseURL (AppConfigFromEnv env)
        else env ''DEFAULT_INVITE_LINK_RETURN_URL'')
   \<and> list_ex (matchHost (deploymentHost (env ''LFX_ENVIRONMENT'')))
       (app_AllowedReturnURLHosts (AppConfigFromEnv (env(''ALLOWED_RETURN_URL_HOSTS'' := []))))"
proof -
  have "list_all (\<lambda>h. h \<noteq> [] \<and> CHR '','' \<notin> set h) (parseAllowedReturnURLHosts raw)" for raw
  proof (cases "raw = []")
    case True
    then show ?thesis by (simp add: parseAllowedReturnURLHosts_def)
  next
    case False
    then show ?thesis using parseAllowed_clean by (auto simp: list_all_iff)
  qed
  moreover have "matchHost (deploymentHost e) ''*.lfx.dev''" for e
    by (simp add: matchHost_def deploymentHost_def hasPrefix_def hasSuffix_def suffix_to_prefix)
  moreover have "parseAllowedReturnURLHosts [] = [''*.lfx.dev'', ''*.linuxfoundation.org'']"
    by (simp add: parseAllowedReturnURLHosts_def)
  ultimately show ?thesis by (simp add: AppConfigFromEnv_def deploymentHost_def Let_def)
qed

section \<open>Return URLs\<close>

text \<open>The entries an operator wrote into the allow list.\<close>

definition allowEntries :: "string \<Rightarrow> string set" where
  "allowEntries raw = {h. h \<noteq> [] \<and> h \<in> trimSpace ` set (splitByte (CHR '','') raw)}"

lemma parseAllowed_entries:
  "raw \<noteq> [] \<Longrightarrow> set (parseAllowedReturnURLHosts raw) = allowEntries raw"
  by (auto simp: parseAllowedReturnURLHosts_def allowEntries_def)

text \<open>C34: With the allow list unset a return URL is accepted exactly when it uses https and its host is a
  subdomain of lfx.dev or linuxfoundation.org. With the list set it is accepted exactly when it uses
  https and an entry names its host or, as a wildcard, a domain above it; but a list that is set and
  has no entry, such as a single comma, accepts every return URL.\<close>

theorem return_url_policy:
  "validateReturnURL lib url (parseAllowedReturnURLHosts raw) = None \<longleftrightarrow>
   (if raw = [] then \<exists>host. lib_ParseURL lib url = Inr (''https'', host)
        \<and> (\<exists>sub. host = sub @ ''.lfx.dev'' \<or> host = sub @ ''.linuxfoundation.org'')
    else allowEntries raw = {} \<or> (\<exists>host. lib_ParseURL lib url = Inr (''https'', host)
        \<and> (\<exists>entry \<in> allowEntries raw. if prefix ''*.'' entry then suffix (drop 1 entry) host else host = entry)))"
proof (cases "raw = []")
  case True
  have "(\<exists>p \<in> set [''*.lfx.dev'', ''*.linuxfoundation.org'']. matchHost host p) \<longleftrightarrow>
      (\<exists>sub. host = sub @ ''.lfx.dev'' \<or> host = sub @ ''.linuxfoundation.org'')" for host
    by (auto simp: matchHost_def hasPrefix_def hasSuffix_def suffix_def)
  with True show ?thesis by (simp add: validateReturnURL_None parseAllowedReturnURLHosts_def)
next
  case False
  have "parseAllowedReturnURLHosts raw = [] \<longleftrightarrow> allowEntries raw = {}"
    using parseAllowed_entries [OF False] by (metis set_empty)
  with False show ?thesis
    by (simp add: validateReturnURL_None parseAllowed_entries matchHost_def hasPrefix_def hasSuffix_def)
qed

text \<open>A single comma switches the enforcement off.\<close>

lemma comma_accepts_all: "validateReturnURL lib url (parseAllowedReturnURLHosts '','') = None"
proof -
  have "trimSpace [] = []" using trimSpace_sublist [of "[]"] by simp
  then show ?thesis by (simp add: validateReturnURL_def parseAllowedReturnURLHosts_def)
qed

section \<open>Sampler\<close>

text \<open>The sampler is one of the six the environment can name, whatever it says, and a ratio is between 0 and
  1, or the NaN that the range check lets through.\<close>

theorem sampler_in_range:
  "\<exists>ratio. samplerFromEnv u parseFloat env \<in> {AlwaysOn, AlwaysOff, ParentBased AlwaysOn, ParentBased AlwaysOff,
       TraceIDRatio ratio, ParentBased (TraceIDRatio ratio)}
     \<and> (case ratio of Finite r \<Rightarrow> 0 \<le> r \<and> r \<le> 1 | x \<Rightarrow> x = NaN)"
proof -
  let ?r = "parseRatio parseFloat (trimSpace (env ''OTEL_TRACES_SAMPLER_ARG''))"
  have "case ?r of Finite r \<Rightarrow> 0 \<le> r \<and> r \<le> 1 | x \<Rightarrow> x = NaN"
    using parseRatio_range [of parseFloat "trimSpace (env ''OTEL_TRACES_SAMPLER_ARG'')"] by auto
  then show ?thesis
    by (intro exI [of _ ?r]) (simp add: samplerFromEnv_def Let_def)
qed

section \<open>Trace headers\<close>

text \<open>Setting a header of a message replaces its values by one and leaves the others alone; the keys are
  those that were there and the new one; on a nil header reads are empty and writes do nothing.\<close>

theorem trace_headers:
  assumes "wf_map h"
  shows "carrierGet (carrierSet (Some h) k v) k' = (if k' = k then v else carrierGet (Some h) k')
    \<and> set (carrierKeys (carrierSet (Some h) k v)) = insert k (set (carrierKeys (Some h)))
    \<and> distinct (carrierKeys (carrierSet (Some h) k v))
    \<and> carrierGet None k = [] \<and> carrierSet None k v = None \<and> carrierKeys None = []"
proof -
  have "wf_map (map_put h k [v])" using assms by simp
  then have "distinct (map fst (map_put h k [v]))" by (simp add: wf_map_def strict_sorted_iff)
  with assms carrier_get_set carrier_keys_set show ?thesis
    by (auto simp: carrierGet_def carrierSet_def carrierKeys_def map_of_map_put set_fst_map_put)
qed

end
