(* ===== verification/Lifecycle.thy ===== *)
theory Lifecycle
  imports Config_Server
begin

text \<open>
  The life of the process: the OpenTelemetry pipeline of internal/infrastructure/observability, and
  \<open>run\<close> and \<open>main\<close> of cmd/invite-api/main.go, from the environment to the exit status. Every
  function returns what it did as a list of events, deferred calls included.
\<close>

section \<open>OpenTelemetry (otel.go)\<close>

text \<open>
  The answers of the SDK: of merging the resource, of making the three exporters, and of shutting
  down each provider.
\<close>

record otellib =
  ot_Merge :: "liberr option"
  ot_SpanExporter :: "liberr option"
  ot_MetricReader :: "liberr option"
  ot_LogExporter :: "liberr option"
  ot_Shutdown :: "provider \<Rightarrow> liberr option"
  ot_ParseFloat :: "string \<Rightarrow> gofloat option"

text \<open>\<open>errors.Join\<close>: nil when all are nil, else their texts on lines of their own.\<close>

fun joinParts :: "goerr list \<Rightarrow> errpart list" where
  "joinParts [] = []"
| "joinParts [e] = [W e]"
| "joinParts (e # es) = W e # T NL # joinParts es"

definition errors_Join :: "goerr option list \<Rightarrow> goerr option" where
  "errors_Join es = (case List.map_filter id es of [] \<Rightarrow> None | es' \<Rightarrow> Some (Errorf (joinParts es')))"

text \<open>The loop of \<open>shutdown\<close>, with the error joined so far.\<close>

fun shutdownLoop :: "otellib \<Rightarrow> provider list \<Rightarrow> goerr option \<Rightarrow> goerr option \<times> lifeEvent list" where
  "shutdownLoop ot [] err = (err, [])"
| "shutdownLoop ot (fn # fns) err =
     (case shutdownLoop ot fns (errors_Join [err, map_option LibErr (ot_Shutdown ot fn)]) of
        (err', evs) \<Rightarrow> (err', Release (Provider fn) # evs))"

text \<open>\<open>shutdown\<close> also returns the list of functions it leaves, which is empty.\<close>

definition shutdown :: "otellib \<Rightarrow> provider list \<Rightarrow> goerr option \<times> lifeEvent list \<times> provider list" where
  "shutdown ot shutdownFuncs =
     (case shutdownLoop ot shutdownFuncs None of (err, evs) \<Rightarrow> (err, evs, []))"

definition handleErr :: "otellib \<Rightarrow> provider list \<Rightarrow> liberr \<Rightarrow> goerr option \<times> lifeEvent list \<times> provider list" where
  "handleErr ot shutdownFuncs inErr =
     (case shutdown ot shutdownFuncs of
        (err, evs, fns) \<Rightarrow> (errors_Join [Some (LibErr inErr), err], evs, fns))"

definition defaultServiceName :: string where
  "defaultServiceName = ''lfx-v2-invite-service''"

text \<open>
  The error, what was done, and the functions that the returned \<open>shutdown\<close> would call. \<open>Describe\<close> is
  the resource with the name and the version of the service.
\<close>

definition SetupOTelSDK :: "(nat \<Rightarrow> nat) \<Rightarrow> otellib \<Rightarrow> getenv \<Rightarrow> goerr option \<times> lifeEvent list \<times> provider list" where
  "SetupOTelSDK u ot env =
     (let serviceName = (if env ''OTEL_SERVICE_NAME'' = [] then defaultServiceName else env ''OTEL_SERVICE_NAME'')
      in case ot_Merge ot of
        Some err \<Rightarrow> handleErr ot [] err
      | None \<Rightarrow>
          let evs0 = [Describe serviceName (env ''OTEL_SERVICE_VERSION''), SetTextMapPropagator]
          in (case ot_SpanExporter ot of
                Some err \<Rightarrow> (case handleErr ot [] err of (e, evs, fns) \<Rightarrow> (e, evs0 @ evs, fns))
              | None \<Rightarrow>
                  let evs1 = evs0 @ [UseSampler (samplerFromEnv u (ot_ParseFloat ot) env), Acquire (Provider TracerProvider),
                    Install TracerProvider]
                  in (case ot_MetricReader ot of
                        Some err \<Rightarrow>
                          (case handleErr ot [TracerProvider] err of (e, evs, fns) \<Rightarrow> (e, evs1 @ evs, fns))
                      | None \<Rightarrow>
                          let evs2 = evs1 @ [Acquire (Provider MeterProvider), Install MeterProvider]
                          in (case ot_LogExporter ot of
                                Some err \<Rightarrow>
                                  (case handleErr ot [TracerProvider, MeterProvider] err of
                                     (e, evs, fns) \<Rightarrow> (e, evs2 @ evs, fns))
                              | None \<Rightarrow>
                                  (None, evs2 @ [Acquire (Provider LoggerProvider), Install LoggerProvider],
                                   [TracerProvider, MeterProvider, LoggerProvider])))))"

section \<open>run and main (main.go)\<close>

definition Version :: string where
  "Version = ''dev''"

text \<open>
  The body of \<open>run\<close> from the configuration on, with the deferred \<open>srv.Close\<close> and the deferred loop
  over the stop functions. \<open>AwaitSignal\<close> is the receive from \<open>quit\<close>.
\<close>

definition serve :: "platform \<Rightarrow> AppConfig \<Rightarrow> goerr option \<times> lifeEvent list" where
  "serve pf cfg =
     (case NewServerFromConfig pf cfg of
        (Inl err, evs) \<Rightarrow> (Some err, evs)
      | (Inr srv, evs) \<Rightarrow>
          (case Start srv of
             (Inl err, evs') \<Rightarrow> (Some err, evs @ evs' @ CloseServer srv)
           | (Inr stops, evs') \<Rightarrow> (None, evs @ evs' @ [AwaitSignal] @ concat stops @ CloseServer srv)))"

text \<open>\<open>os.Setenv\<close>, and the environment after it.\<close>

definition seedVersion :: "getenv \<Rightarrow> getenv \<times> lifeEvent list" where
  "seedVersion env =
     (if env ''OTEL_SERVICE_VERSION'' = []
      then (env(''OTEL_SERVICE_VERSION'' := Version), [SetEnv ''OTEL_SERVICE_VERSION'' Version])
      else (env, []))"

definition runService :: "otellib \<Rightarrow> platform \<Rightarrow> getenv \<Rightarrow> goerr option \<times> lifeEvent list" where
  "runService ot pf env0 =
     (case seedVersion env0 of (env, seed) \<Rightarrow>
        (case SetupOTelSDK (lib_lower (plat_golib pf)) ot env of
           (Some err, evs, fns) \<Rightarrow> (Some err, seed @ evs)
         | (None, evs, fns) \<Rightarrow>
             (let cfg = AppConfigFromEnv env;
                  served = serve pf cfg;
                  otelShutdown = shutdown ot fns
              in (fst served,
                  seed @ evs @ InitStructureLogConfig (app_LogLevel cfg) @ snd served @ fst (snd otelShutdown)))))"

text \<open>\<open>init\<close>, then \<open>main\<close> with its exit status.\<close>

definition main :: "otellib \<Rightarrow> platform \<Rightarrow> getenv \<Rightarrow> nat \<times> lifeEvent list" where
  "main ot pf env = (case runService ot pf env of (err, evs) \<Rightarrow> (if err = None then 0 else 1, InitStructureLogConfig [] @ evs))"

section \<open>The state of the process\<close>

text \<open>
  A state machine of what is held: providers, then a connection, then subscriptions on it. An event
  that does not fit the state has no successor: a connection needs no other connection to be open,
  subscriptions need a connection, a connection is closed after its subscriptions, a provider is
  released after the connection, only a provider that is held is made the global one, and nothing is
  released that is not held.
\<close>

record held =
  hd_providers :: "provider list"
  hd_conn :: "string option"
  hd_subs :: "(string \<times> string) list"

definition nothing :: held where
  "nothing = \<lparr>hd_providers = [], hd_conn = None, hd_subs = []\<rparr>"

fun lifeStep :: "held \<Rightarrow> lifeEvent \<Rightarrow> held option" where
  "lifeStep h (Acquire (Provider p)) =
     (if p \<in> set (hd_providers h) then None else Some (h\<lparr>hd_providers := hd_providers h @ [p]\<rparr>))"
| "lifeStep h (Acquire (Conn u)) = (if hd_conn h = None then Some (h\<lparr>hd_conn := Some u\<rparr>) else None)"
| "lifeStep h (Acquire (Subscription s q)) =
     (if hd_conn h = None \<or> (s, q) \<in> set (hd_subs h) then None else Some (h\<lparr>hd_subs := hd_subs h @ [(s, q)]\<rparr>))"
| "lifeStep h (Release (Provider p)) =
     (if p \<in> set (hd_providers h) \<and> hd_conn h = None
      then Some (h\<lparr>hd_providers := remove1 p (hd_providers h)\<rparr>) else None)"
| "lifeStep h (Release (Conn u)) =
     (if hd_conn h = Some u \<and> hd_subs h = [] then Some (h\<lparr>hd_conn := None\<rparr>) else None)"
| "lifeStep h (Release (Subscription s q)) =
     (if (s, q) \<in> set (hd_subs h) then Some (h\<lparr>hd_subs := remove1 (s, q) (hd_subs h)\<rparr>) else None)"
| "lifeStep h (Install p) = (if p \<in> set (hd_providers h) then Some h else None)"
| "lifeStep h (Bind b) = (if hd_conn h = None then None else Some h)"
| "lifeStep h e = Some h"

fun lifeSteps :: "held \<Rightarrow> lifeEvent list \<Rightarrow> held option" where
  "lifeSteps h [] = Some h"
| "lifeSteps h (e # es) = (case lifeStep h e of None \<Rightarrow> None | Some h' \<Rightarrow> lifeSteps h' es)"

lemma lifeSteps_append:
  "lifeSteps h (es @ es') = (case lifeSteps h es of None \<Rightarrow> None | Some h' \<Rightarrow> lifeSteps h' es')"
  by (induction es arbitrary: h) (auto split: option.splits)

end
