(* ===== verification/Lifecycle_Properties.thy ===== *)
theory Lifecycle_Properties
  imports Lifecycle Samples
begin

text \<open>
  What the life of the process keeps: whatever the libraries answer, everything that was acquired is
  given back once and in order before the process exits, and it waits for a signal exactly when all
  of it was acquired.
\<close>

section \<open>Telemetry\<close>

abbreviation holds :: "provider list \<Rightarrow> held" where
  "holds ps \<equiv> nothing\<lparr>hd_providers := ps\<rparr>"

lemma nothing_simps [simp]: "hd_providers nothing = []" "hd_conn nothing = None" "hd_subs nothing = []"
  "nothing\<lparr>hd_providers := []\<rparr> = nothing"
  by (simp_all add: nothing_def)

lemma shutdownLoop_steps:
  "shutdownLoop ot fns err = (err', evs) \<Longrightarrow> lifeSteps (holds fns) evs = Some nothing \<and> AwaitSignal \<notin> set evs"
  by (induction fns arbitrary: err evs) (auto split: prod.splits)

lemma shutdown_steps:
  "shutdown ot fns = (err, evs, fns') \<Longrightarrow>
   lifeSteps (holds fns) evs = Some nothing \<and> AwaitSignal \<notin> set evs \<and> fns' = []"
  by (auto simp: shutdown_def dest: shutdownLoop_steps split: prod.splits)

lemma errors_Join_None: "errors_Join es = None \<longleftrightarrow> (\<forall>e \<in> set es. e = None)"
proof -
  have "List.map_filter id es = [] \<longleftrightarrow> (\<forall>e \<in> set es. e = None)"
    by (induction es) (auto simp: List.map_filter_simps split: option.splits)
  then show ?thesis by (auto simp: errors_Join_def split: list.splits)
qed

lemma handleErr_steps:
  assumes "handleErr ot fns l = (err, evs, fns')"
  shows "lifeSteps (holds fns) evs = Some nothing \<and> AwaitSignal \<notin> set evs \<and> fns' = [] \<and> err \<noteq> None"
proof -
  have "errors_Join [Some (LibErr l), e] \<noteq> None" for e by (simp only: errors_Join_None) simp
  with assms show ?thesis unfolding handleErr_def by (auto dest: shutdown_steps split: prod.splits)
qed

definition allProviders :: "provider list" where
  "allProviders = [TracerProvider, MeterProvider, LoggerProvider]"

definition otelUp :: "otellib \<Rightarrow> bool" where
  "otelUp ot \<longleftrightarrow> ot_Merge ot = None \<and> ot_SpanExporter ot = None \<and> ot_MetricReader ot = None \<and> ot_LogExporter ot = None"

lemma SetupOTelSDK_steps:
  assumes "SetupOTelSDK u ot env = (err, evs, fns)"
  shows "lifeSteps nothing evs = Some (holds fns)" "err = None \<longleftrightarrow> otelUp ot"
    "fns = (if err = None then allProviders else [])" "AwaitSignal \<notin> set evs"
  using assms
  by (auto simp: SetupOTelSDK_def Let_def otelUp_def allProviders_def lifeSteps_append nothing_def
      dest: handleErr_steps split: option.splits prod.splits)

section \<open>Server and subscriptions\<close>

definition stopOf :: "string \<times> string \<Rightarrow> stopFunc" where
  "stopOf b = [Release (Subscription (fst b) (snd b))]"

definition boundBy :: "(string \<times> string \<times> string) list \<Rightarrow> (string \<times> string) list" where
  "boundBy plan = map (\<lambda>(subject, queue, name). (subject, queue)) plan"

lemma boundBy_simps [simp]: "boundBy [] = []" "boundBy ((s, q, n) # plan) = (s, q) # boundBy plan"
  by (simp_all add: boundBy_def)

lemma stops_steps:
  "lifeSteps (h\<lparr>hd_subs := bs\<rparr>) (concat (map stopOf bs)) = Some (h\<lparr>hd_subs := []\<rparr>)
   \<and> AwaitSignal \<notin> set (concat (map stopOf bs))"
  by (induction bs) (auto simp: stopOf_def)

lemma QueueSubscribe_simps:
  "nats_QueueSubscribe nl s q = None \<Longrightarrow> QueueSubscribe nl s q = (Inr (stopOf (s, q)), [Acquire (Subscription s q)])"
  "nats_QueueSubscribe nl s q = Some l \<Longrightarrow> \<exists>e. QueueSubscribe nl s q = (Inl e, [])"
  by (simp_all add: QueueSubscribe_def stopOf_def)

lemma startFrom_steps:
  assumes "startFrom (QueueSubscribe nl) plan (map stopOf bound) = (r, evs)" "distinct (bound @ boundBy plan)" "hd_conn h \<noteq> None"
  shows "AwaitSignal \<notin> set evs \<and>
    (case r of
       Inl e \<Rightarrow> (\<exists>(s, q, n) \<in> set plan. nats_QueueSubscribe nl s q \<noteq> None)
                \<and> lifeSteps (h\<lparr>hd_subs := bound\<rparr>) evs = Some (h\<lparr>hd_subs := []\<rparr>)
     | Inr stops \<Rightarrow> (\<forall>(s, q, n) \<in> set plan. nats_QueueSubscribe nl s q = None)
                \<and> stops = map stopOf (bound @ boundBy plan)
                \<and> lifeSteps (h\<lparr>hd_subs := bound\<rparr>) evs = Some (h\<lparr>hd_subs := bound @ boundBy plan\<rparr>))"
  using assms
proof (induction plan arbitrary: bound evs)
  case (Cons p plan)
  obtain s q n where p: "p = (s, q, n)" by (cases p)
  show ?case
  proof (cases "nats_QueueSubscribe nl s q")
    case (Some l)
    with Cons(2) p QueueSubscribe_simps(2) [OF Some] stops_steps [of bound h] show ?thesis by auto
  next
    case None
    from Cons(2) p QueueSubscribe_simps(1) [OF None] obtain evs' where
      r: "startFrom (QueueSubscribe nl) plan (map stopOf (bound @ [(s, q)])) = (r, evs')"
      and evs: "evs = Acquire (Subscription s q) # evs'" by (auto split: prod.splits)
    from Cons(1) [OF r] Cons(3,4) None p evs show ?thesis by (auto split: sum.splits)
  qed
qed auto

definition subscriptions :: "(string \<times> string) list" where
  "subscriptions =
     [(SendInviteSubject, ''invite-service-workers''), (InviteAcceptedSubject, ''invite-service-acceptance''),
      (GetInviteSubject, ''invite-service-get-invite''), (GetInvitesByEmailSubject, ''invite-service-get-by-email'')]"

lemma boundBy_plan: "boundBy subscriptionPlan = subscriptions" "distinct subscriptions"
  by (simp_all add: subscriptionPlan_def subscriptions_def)

definition natsUp :: "natslib \<Rightarrow> AppConfig \<Rightarrow> bool" where
  "natsUp nl cfg \<longleftrightarrow> nats_Connect nl (app_NATSURL cfg) connectOptions = None \<and> js_New nl = None
     \<and> js_KeyValue nl (app_InvitesKVBucket cfg) = None"

definition subscribed :: "natslib \<Rightarrow> bool" where
  "subscribed nl \<longleftrightarrow> (\<forall>(s, q) \<in> set subscriptions. nats_QueueSubscribe nl s q = None)"

lemma subscribed_plan:
  "subscribed nl \<longleftrightarrow> (\<forall>(s, q, n) \<in> set subscriptionPlan. nats_QueueSubscribe nl s q = None)"
  by (simp add: subscribed_def subscriptions_def subscriptionPlan_def)

lemma unbound_plan:
  "(\<exists>(s, q, n) \<in> set subscriptionPlan. nats_QueueSubscribe nl s q \<noteq> None) \<longleftrightarrow> \<not> subscribed nl"
  by (simp add: subscribed_def subscriptions_def subscriptionPlan_def)

lemma NewServer_steps:
  assumes "NewServerFromConfig pf cfg = (r, evs)" "hd_conn h = None" "hd_subs h = []"
  shows "AwaitSignal \<notin> set evs \<and>
    (case r of
       Inl e \<Rightarrow> \<not> (32 \<le> length (app_InviteJWTSecret cfg) \<and> natsUp (plat_nats pf) cfg) \<and> lifeSteps h evs = Some h
     | Inr srv \<Rightarrow> 32 \<le> length (app_InviteJWTSecret cfg) \<and> natsUp (plat_nats pf) cfg \<and> srv = wireServer pf cfg
         \<and> lifeSteps h evs = Some (h\<lparr>hd_conn := Some (app_NATSURL cfg)\<rparr>))"
  using assms
  by (auto simp: NewServerFromConfig_def New_def KeyValue_def Close_def natsUp_def split: if_splits option.splits)

lemma wireServer_transport [simp]:
  "srv_subscriber (wireServer pf cfg) = QueueSubscribe (plat_nats pf)"
  "CloseServer (wireServer pf cfg) = [Release (Conn (app_NATSURL cfg))]"
  by (simp_all add: wireServer_def NewServer_def CloseServer_def Close_def Let_def)

section \<open>The whole life\<close>

text \<open>What is held while the process waits.\<close>

definition serving :: "AppConfig \<Rightarrow> held" where
  "serving cfg =
     \<lparr>hd_providers = allProviders, hd_conn = Some (app_NATSURL cfg), hd_subs = subscriptions\<rparr>"

definition serverUp :: "platform \<Rightarrow> AppConfig \<Rightarrow> bool" where
  "serverUp pf cfg \<longleftrightarrow> 32 \<le> length (app_InviteJWTSecret cfg) \<and> natsUp (plat_nats pf) cfg \<and> subscribed (plat_nats pf)"

text \<open>The events wait once, and hold \<open>h'\<close> while they do.\<close>

definition waitsIn :: "held \<Rightarrow> held \<Rightarrow> lifeEvent list \<Rightarrow> bool" where
  "waitsIn h h' evs \<longleftrightarrow> (\<exists>pre post. evs = pre @ AwaitSignal # post \<and> AwaitSignal \<notin> set (pre @ post)
     \<and> lifeSteps h pre = Some h')"

lemma waitsInI:
  "AwaitSignal \<notin> set pre \<Longrightarrow> AwaitSignal \<notin> set post \<Longrightarrow> lifeSteps h pre = Some h' \<Longrightarrow> waitsIn h h' (pre @ AwaitSignal # post)"
  by (auto simp: waitsIn_def)

lemma waitsIn_pad:
  assumes "waitsIn h h' evs" "lifeSteps h0 a = Some h" "AwaitSignal \<notin> set a" "AwaitSignal \<notin> set b"
  shows "waitsIn h0 h' (a @ evs @ b)"
proof -
  from assms(1) obtain pre post where "evs = pre @ AwaitSignal # post" "AwaitSignal \<notin> set (pre @ post)"
    "lifeSteps h pre = Some h'" by (auto simp: waitsIn_def)
  with assms(2-4) waitsInI [of "a @ pre" "post @ b" h0 h'] show ?thesis by (simp add: lifeSteps_append)
qed

lemma serve_outcome:
  assumes "serve pf cfg = (err, evs)"
  shows "lifeSteps (holds ps) evs = Some (holds ps) \<and> (err = None \<longleftrightarrow> serverUp pf cfg)
    \<and> (if err = None
       then waitsIn (holds ps) \<lparr>hd_providers = ps, hd_conn = Some (app_NATSURL cfg), hd_subs = subscriptions\<rparr> evs
       else AwaitSignal \<notin> set evs)"
proof (cases "NewServerFromConfig pf cfg")
  let ?h = "holds ps" and ?c = "(holds ps)\<lparr>hd_conn := Some (app_NATSURL cfg)\<rparr>"
  let ?s = "\<lparr>hd_providers = ps, hd_conn = Some (app_NATSURL cfg), hd_subs = subscriptions\<rparr>"
  case (Pair r evs1)
  have h: "hd_conn ?h = None" "hd_subs ?h = []" by simp_all
  note new = NewServer_steps [OF Pair h]
  show ?thesis
  proof (cases r)
    case (Inl e)
    with Pair new assms show ?thesis by (auto simp: serve_def serverUp_def)
  next
    case r: (Inr srv)
    with new have srv: "srv = wireServer pf cfg" by simp
    obtain x evs2 where start: "Start srv = (x, evs2)" by (cases "Start srv")
    have c: "?c\<lparr>hd_subs := []\<rparr> = ?c" "?c\<lparr>hd_subs := subscriptions\<rparr> = ?s" by (simp_all add: nothing_def)
    have "startFrom (QueueSubscribe (plat_nats pf)) subscriptionPlan (map stopOf []) = (x, evs2)"
      using start srv by (simp add: Start_def)
    from startFrom_steps [OF this, of ?c, unfolded c append_Nil boundBy_plan(1) subscribed_plan [symmetric] unbound_plan]
    have subs: "AwaitSignal \<notin> set evs2 \<and>
      (case x of Inl e \<Rightarrow> \<not> subscribed (plat_nats pf) \<and> lifeSteps ?c evs2 = Some ?c
       | Inr stops \<Rightarrow> subscribed (plat_nats pf) \<and> stops = map stopOf subscriptions \<and> lifeSteps ?c evs2 = Some ?s)"
      using boundBy_plan(2) by simp
    show ?thesis
    proof (cases x)
      case (Inl e)
      with Pair r new srv start subs assms show ?thesis by (auto simp: serve_def serverUp_def lifeSteps_append)
    next
      case x: (Inr stops)
      let ?post = "concat (map stopOf subscriptions) @ [Release (Conn (app_NATSURL cfg))]"
      have evs: "err = None" "evs = (evs1 @ evs2) @ AwaitSignal # ?post"
        using Pair r x srv start subs assms by (auto simp: serve_def)
      have pre: "lifeSteps ?h (evs1 @ evs2) = Some ?s" using new subs r x by (simp add: lifeSteps_append)
      have post: "lifeSteps ?s (AwaitSignal # ?post) = Some ?h" "AwaitSignal \<notin> set ?post"
        using stops_steps [of subscriptions ?c] unfolding c by (simp_all add: lifeSteps_append nothing_def)
      have "lifeSteps ?h evs = Some ?h" unfolding evs(2) lifeSteps_append [of ?h "evs1 @ evs2"] pre using post(1) by simp
      moreover have "waitsIn ?h ?s evs" unfolding evs(2) by (rule waitsInI [OF _ post(2) pre]) (use new subs in simp)
      moreover have "serverUp pf cfg" using new subs r x by (simp add: serverUp_def)
      ultimately show ?thesis using evs(1) by simp
    qed
  qed
qed

text \<open>The configuration the process runs with.\<close>

definition configOf :: "getenv \<Rightarrow> AppConfig" where
  "configOf env = AppConfigFromEnv (fst (seedVersion env))"

lemma runService_outcome:
  assumes "runService ot pf env = (err, evs)"
  shows "lifeSteps nothing evs = Some nothing \<and> (err = None \<longleftrightarrow> otelUp ot \<and> serverUp pf (configOf env))
    \<and> (if err = None then waitsIn nothing (serving (configOf env)) evs else AwaitSignal \<notin> set evs)"
proof -
  obtain env' seed where seed: "seedVersion env = (env', seed)" by (cases "seedVersion env")
  then have quiet: "lifeSteps h seed = Some h" "AwaitSignal \<notin> set seed" for h
    by (auto simp: seedVersion_def split: if_splits)
  obtain e evs1 fns where otel: "SetupOTelSDK (lib_lower (plat_golib pf)) ot env' = (e, evs1, fns)"
    by (cases "SetupOTelSDK (lib_lower (plat_golib pf)) ot env'")
  note up = SetupOTelSDK_steps [OF otel]
  obtain x served where serve: "serve pf (configOf env) = (x, served)" by (cases "serve pf (configOf env)")
  obtain e2 shut fns' where down: "shutdown ot fns = (e2, shut, fns')" by (cases "shutdown ot fns")
  note s = serve_outcome [OF serve, of fns] and d = shutdown_steps [OF down]
  show ?thesis
  proof (cases e)
    case (Some l)
    with assms seed otel up quiet show ?thesis by (auto simp: runService_def lifeSteps_append)
  next
    case None
    let ?a = "seed @ evs1 @ InitStructureLogConfig (app_LogLevel (configOf env))"
    from None have evs: "err = x" "evs = ?a @ served @ shut"
      using assms seed otel serve down by (auto simp: runService_def configOf_def Let_def)
    have a: "lifeSteps nothing ?a = Some (holds fns)" "AwaitSignal \<notin> set ?a"
      using quiet up(1,4) by (simp_all add: lifeSteps_append InitStructureLogConfig_def)
    have "lifeSteps nothing evs = Some nothing"
      unfolding evs(2) lifeSteps_append [of nothing ?a] a(1) using s d by (simp add: lifeSteps_append)
    moreover have "waitsIn nothing (serving (configOf env)) evs" if "x = None"
      unfolding evs(2) by (rule waitsIn_pad [OF _ a]) (use s d up(3) None that in \<open>simp_all add: serving_def\<close>)
    moreover have "AwaitSignal \<notin> set evs" if "x \<noteq> None"
      unfolding evs(2) using s d a(2) that by simp
    ultimately show ?thesis using s up(2) None evs(1) by simp
  qed
qed

text \<open>C28: Whatever the libraries answer, and on every path through startup and shutdown, the process gives
  back everything it acquired: each provider, the connection and each subscription is released
  exactly once, subscriptions before the connection and the connection before the telemetry, and
  nothing is held when it exits.\<close>

theorem process_releases_all: "lifeSteps nothing (snd (main ot pf env)) = Some nothing"
proof (cases "runService ot pf env")
  case (Pair err evs)
  with runService_outcome [OF Pair] show ?thesis by (simp add: main_def InitStructureLogConfig_def)
qed

text \<open>C29: The process waits for a signal, once, and exits with status 0 exactly when the telemetry came up, the
  secret has at least 32 bytes, and the connection, the bucket and all four subscriptions were
  obtained; while it waits it holds exactly these. In every other case it exits with status 1
  without having waited.\<close>

theorem process_serves_when_up:
  "if otelUp ot \<and> serverUp pf (configOf env)
   then fst (main ot pf env) = 0 \<and> waitsIn nothing (serving (configOf env)) (snd (main ot pf env))
   else fst (main ot pf env) = 1 \<and> AwaitSignal \<notin> set (snd (main ot pf env))"
proof (cases "runService ot pf env")
  case (Pair err evs)
  have "waitsIn nothing h evs \<Longrightarrow> waitsIn nothing h (InitStructureLogConfig [] @ evs @ [])" for h
    by (rule waitsIn_pad) (simp_all add: InitStructureLogConfig_def)
  with Pair runService_outcome [OF Pair] show ?thesis by (auto simp: main_def InitStructureLogConfig_def)
qed

end
