(* ===== verification/Nats_Tracing.thy ===== *)
theory Nats_Tracing
  imports Nats_Client
begin

text \<open>
  The spans of internal/infrastructure/nats: what \<open>Request\<close> and \<open>Publish\<close> put into a message and
  into their span, and the span that \<open>QueueSubscribe\<close> opens around a handler. OpenTelemetry is the
  argument \<open>tracelib\<close>, over a type of contexts: starting a span in a context, the \<open>Set\<close> calls a
  propagator makes on a carrier, and the context it extracts, given \<open>Get\<close> and \<open>Keys\<close> of a carrier.
\<close>

section \<open>Spans\<close>

datatype spanKind = SpanKindClient | SpanKindProducer | SpanKindConsumer

datatype attrValue = AttrString string | AttrInt int

record spanStart =
  sp_Name :: string
  sp_Kind :: spanKind
  sp_Attributes :: "(string \<times> attrValue) list"

datatype spanEvent =
    Started spanStart
  | RecordError liberr
  | SetStatusError string
  | Ended

record 'ctx tracelib =
  tl_Start :: "'ctx \<Rightarrow> spanStart \<Rightarrow> 'ctx"
  tl_Inject :: "'ctx \<Rightarrow> (string \<times> string) list"
  tl_Extract :: "(string \<Rightarrow> string) \<Rightarrow> string list \<Rightarrow> 'ctx"

definition messagingAttributes :: "string \<Rightarrow> string \<Rightarrow> string \<Rightarrow> (string \<times> attrValue) list" where
  "messagingAttributes subject operation data =
     [(''messaging.system'', AttrString ''nats''), (''messaging.destination.name'', AttrString subject),
      (''messaging.operation.type'', AttrString operation),
      (''messaging.message.body.size'', AttrInt (int (length data)))]"

definition requestSpan :: "string \<Rightarrow> string \<Rightarrow> spanStart" where
  "requestSpan subject data =
     \<lparr>sp_Name = ''nats.request'', sp_Kind = SpanKindClient, sp_Attributes = messagingAttributes subject ''send'' data\<rparr>"

definition publishSpan :: "string \<Rightarrow> string \<Rightarrow> spanStart" where
  "publishSpan subject data =
     \<lparr>sp_Name = ''nats.publish'', sp_Kind = SpanKindProducer, sp_Attributes = messagingAttributes subject ''publish'' data\<rparr>"

definition processSpan :: "string \<Rightarrow> string \<Rightarrow> spanStart" where
  "processSpan subject data =
     \<lparr>sp_Name = ''nats.process'', sp_Kind = SpanKindConsumer, sp_Attributes = messagingAttributes subject ''process'' data\<rparr>"

section \<open>Messages\<close>

record outMsg =
  out_Subject :: string
  out_Header :: natsHeader
  out_Data :: string

text \<open>\<open>Inject\<close> into an empty header.\<close>

definition injected :: "'ctx tracelib \<Rightarrow> 'ctx \<Rightarrow> natsHeader" where
  "injected tlib ctx = fold (\<lambda>(k, v) h. carrierSet h k v) (tl_Inject tlib ctx) (Some [])"

text \<open>The message that is sent and the events of its span, given the answer of the server.\<close>

definition tracedRequest :: "'ctx tracelib \<Rightarrow> 'ctx \<Rightarrow> string \<Rightarrow> string \<Rightarrow> liberr + string \<Rightarrow> outMsg \<times> spanEvent list" where
  "tracedRequest tlib ctx subject data reply =
     (let ctx' = tl_Start tlib ctx (requestSpan subject data)
      in (\<lparr>out_Subject = subject, out_Header = injected tlib ctx', out_Data = data\<rparr>,
          Started (requestSpan subject data)
            # (case reply of Inl err \<Rightarrow> [RecordError err, SetStatusError (le_text err)] | Inr r \<Rightarrow> []) @ [Ended]))"

definition tracedPublish :: "'ctx tracelib \<Rightarrow> 'ctx \<Rightarrow> string \<Rightarrow> string \<Rightarrow> liberr option \<Rightarrow> outMsg \<times> spanEvent list" where
  "tracedPublish tlib ctx subject data result =
     (let ctx' = tl_Start tlib ctx (publishSpan subject data)
      in (\<lparr>out_Subject = subject, out_Header = injected tlib ctx', out_Data = data\<rparr>,
          Started (publishSpan subject data)
            # (case result of Some err \<Rightarrow> [RecordError err, SetStatusError (le_text err)] | None \<Rightarrow> []) @ [Ended]))"

text \<open>The context in which the handler runs on a message with these headers, and the events of its span.\<close>

definition tracedProcess :: "'ctx tracelib \<Rightarrow> string \<Rightarrow> natsHeader \<Rightarrow> string \<Rightarrow> 'ctx \<times> spanEvent list" where
  "tracedProcess tlib subject header data =
     (tl_Start tlib (tl_Extract tlib (carrierGet header) (carrierKeys header)) (processSpan subject data),
      [Started (processSpan subject data), Ended])"

section \<open>What the spans say\<close>

text \<open>A span is ended once, last, and carries an error exactly when the call returns one.\<close>

definition closedSpan :: "spanEvent list \<Rightarrow> bool \<Rightarrow> bool" where
  "closedSpan evs failed \<longleftrightarrow> count_list evs Ended = 1 \<and> last evs = Ended \<and> (failed \<longleftrightarrow> (\<exists>err. RecordError err \<in> set evs))"

lemma traced_closed:
  "closedSpan (snd (tracedRequest tlib ctx subject data reply)) (isl reply)"
  "closedSpan (snd (tracedPublish tlib ctx subject data result)) (result \<noteq> None)"
  "closedSpan (snd (tracedProcess tlib subject header data)) False"
  unfolding closedSpan_def tracedRequest_def tracedPublish_def tracedProcess_def Let_def
  subgoal by (cases reply) auto
  subgoal by (cases result) auto
  subgoal by simp
  done

lemma request_span:
  assumes "exec (Request subject data) tr x"
  shows "\<exists>reply. tr = [ERequest subject data reply] \<and> closedSpan (snd (tracedRequest tlib ctx subject data reply)) (isl x)"
proof -
  from assms obtain reply where "tr = [ERequest subject data reply]" "isl x = isl reply"
    unfolding Request_def by (auto simp: prog_simps split: sum.splits)
  then show ?thesis using traced_closed(1) [of tlib ctx subject data reply] by auto
qed

lemma publish_span:
  assumes "exec (Publish subject data) tr x"
  shows "\<exists>result. tr = [EPublish subject data result] \<and> closedSpan (snd (tracedPublish tlib ctx subject data result)) (x \<noteq> None)"
proof -
  from assms obtain result where "tr = [EPublish subject data result]" "x \<noteq> None \<longleftrightarrow> result \<noteq> None"
    unfolding Publish_def by (auto simp: prog_simps split: option.splits)
  then show ?thesis using traced_closed(2) [of tlib ctx subject data result] by auto
qed

text \<open>What was injected is what the receiver's carrier gives back.\<close>

lemma fold_carrier:
  "wf_map h \<Longrightarrow> distinct (map fst kvs) \<Longrightarrow>
   \<exists>h'. fold (\<lambda>(k, v) h. carrierSet h k v) kvs (Some h) = Some h' \<and> wf_map h'
     \<and> (\<forall>k. carrierGet (Some h') k = (case map_of kvs k of Some v \<Rightarrow> v | None \<Rightarrow> carrierGet (Some h) k))
     \<and> set (carrierKeys (Some h')) = fst ` set kvs \<union> set (carrierKeys (Some h))"
proof (induction kvs arbitrary: h)
  case (Cons kv kvs)
  obtain k v where kv: "kv = (k, v)" by (cases kv)
  have w: "wf_map (map_put h k [v])" using Cons.prems(1) by (rule wf_map_put)
  have c: "carrierSet (Some h) k v = Some (map_put h k [v])" by (simp add: carrierSet_def)
  obtain h' where h': "fold (\<lambda>(k, v) h. carrierSet h k v) kvs (Some (map_put h k [v])) = Some h'" "wf_map h'"
    "\<forall>x. carrierGet (Some h') x = (case map_of kvs x of Some y \<Rightarrow> y | None \<Rightarrow> carrierGet (Some (map_put h k [v])) x)"
    "set (carrierKeys (Some h')) = fst ` set kvs \<union> set (carrierKeys (Some (map_put h k [v])))"
    using Cons.IH [OF w] Cons.prems(2) by auto
  have new: "map_of kvs k = None" using Cons.prems(2) kv by (simp add: map_of_eq_None_iff)
  have g: "carrierGet (Some h') x = (case map_of (kv # kvs) x of Some y \<Rightarrow> y | None \<Rightarrow> carrierGet (Some h) x)" for x
    using h'(3) carrier_get_set [OF Cons.prems(1), of k v x] new unfolding c kv by (cases "x = k") (auto split: option.splits)
  have "set (carrierKeys (Some h')) = fst ` set (kv # kvs) \<union> set (carrierKeys (Some h))"
    using h'(4) carrier_keys_set [of h k v] unfolding c kv by auto
  with h'(1,2) g c kv show ?case by simp
qed auto

text \<open>
  What a propagator promises, with \<open>remote\<close> the part of a context that it carries, the identity of
  the current span: it sets each key once, and a carrier that gives back all it has set extracts to a
  context with the same remote part.
\<close>

definition propagates :: "'ctx tracelib \<Rightarrow> ('ctx \<Rightarrow> 'span) \<Rightarrow> bool" where
  "propagates tlib remote \<longleftrightarrow>
     (\<forall>ctx. distinct (map fst (tl_Inject tlib ctx)))
     \<and> (\<forall>ctx get keys. (\<forall>(k, v) \<in> set (tl_Inject tlib ctx). get k = v) \<longrightarrow> fst ` set (tl_Inject tlib ctx) \<subseteq> set keys
          \<longrightarrow> remote (tl_Extract tlib get keys) = remote ctx)"

lemma injected_extracts:
  assumes "propagates tlib remote"
  shows "remote (tl_Extract tlib (carrierGet (injected tlib ctx)) (carrierKeys (injected tlib ctx))) = remote ctx"
proof -
  from assms have d: "distinct (map fst (tl_Inject tlib ctx))"
    and e: "\<forall>ctx get keys. (\<forall>(k, v) \<in> set (tl_Inject tlib ctx). get k = v) \<longrightarrow> fst ` set (tl_Inject tlib ctx) \<subseteq> set keys
       \<longrightarrow> remote (tl_Extract tlib get keys) = remote ctx"
    unfolding propagates_def by (blast, elim conjE)
  have w: "wf_map ([] :: (string \<times> string list) list)" by (simp add: wf_map_def)
  obtain h where h: "injected tlib ctx = Some h"
    "\<forall>k. carrierGet (Some h) k = (case map_of (tl_Inject tlib ctx) k of Some v \<Rightarrow> v | None \<Rightarrow> carrierGet (Some []) k)"
    "set (carrierKeys (Some h)) = fst ` set (tl_Inject tlib ctx) \<union> set (carrierKeys (Some []))"
    using fold_carrier [OF w d] unfolding injected_def by blast
  have "carrierGet (Some h) k = v" if "(k, v) \<in> set (tl_Inject tlib ctx)" for k v
    unfolding spec [OF h(2), of k] map_of_is_SomeI [OF d that] by simp
  then have get: "\<forall>(k, v) \<in> set (tl_Inject tlib ctx). carrierGet (Some h) k = v" by blast
  have keys: "fst ` set (tl_Inject tlib ctx) \<subseteq> set (carrierKeys (Some h))" unfolding h(3) by (rule Un_upper1)
  show ?thesis unfolding h(1) by (rule mp [OF mp [OF spec [OF spec [OF spec [OF e]]] get] keys])
qed


text \<open>A tracer whose contexts are the names of the spans from the root on, carried in one header.\<close>

definition sampleTracelib :: "string tracelib" where
  "sampleTracelib = \<lparr>tl_Start = (\<lambda>ctx s. ctx @ ''/'' @ sp_Name s), tl_Inject = (\<lambda>ctx. [(''traceparent'', ctx)]),
     tl_Extract = (\<lambda>get keys. get ''traceparent'')\<rparr>"

lemma sample_propagates: "propagates sampleTracelib (\<lambda>ctx. ctx)"
  by (simp add: propagates_def sampleTracelib_def)


end
