(* ===== verification/Mocks.thy ===== *)
theory Mocks
  imports Subscriptions
begin

text \<open>
  internal/domain/port/mocks: the test doubles of the ports. A mock is a record that a method
  returns updated: the call is recorded, and the answer is the injected function's or, without one,
  the zero values. Injected functions are functions of their arguments; contexts are left out.
\<close>

section \<open>Invite store (invite\_store\_mock.go)\<close>

record MarkAcceptedCall =
  mac_UID :: string
  mac_Username :: string
  mac_At :: time

text \<open>\<open>GetByUIDFunc\<close> returns a record or nil, and an error or nil.\<close>

record MockInviteStore =
  mis_CreateFunc :: "(InviteRecord \<Rightarrow> goerr option) option"
  mis_GetByUIDFunc :: "(string \<Rightarrow> InviteRecord option \<times> goerr option) option"
  mis_GetByEmailFunc :: "(string \<Rightarrow> InviteRecord list \<times> goerr option) option"
  mis_MarkAcceptedFunc :: "(string \<Rightarrow> string \<Rightarrow> time \<Rightarrow> goerr option) option"
  mis_DeleteFunc :: "(string \<Rightarrow> goerr option) option"
  mis_CreateCalls :: "InviteRecord list"
  mis_GetByUIDCalls :: "string list"
  mis_GetByEmailCalls :: "string list"
  mis_MarkAcceptedCalls :: "MarkAcceptedCall list"
  mis_DeleteCalls :: "string list"

definition mockCreate :: "MockInviteStore \<Rightarrow> InviteRecord \<Rightarrow> goerr option \<times> MockInviteStore" where
  "mockCreate m r =
     (case mis_CreateFunc m of Some f \<Rightarrow> f r | None \<Rightarrow> None,
      m\<lparr>mis_CreateCalls := mis_CreateCalls m @ [r]\<rparr>)"

definition mockGetByUID :: "MockInviteStore \<Rightarrow> string \<Rightarrow> (InviteRecord option \<times> goerr option) \<times> MockInviteStore" where
  "mockGetByUID m uid =
     (case mis_GetByUIDFunc m of Some f \<Rightarrow> f uid | None \<Rightarrow> (None, None),
      m\<lparr>mis_GetByUIDCalls := mis_GetByUIDCalls m @ [uid]\<rparr>)"

definition mockGetByEmail :: "MockInviteStore \<Rightarrow> string \<Rightarrow> (InviteRecord list \<times> goerr option) \<times> MockInviteStore" where
  "mockGetByEmail m email =
     (case mis_GetByEmailFunc m of Some f \<Rightarrow> f email | None \<Rightarrow> ([], None),
      m\<lparr>mis_GetByEmailCalls := mis_GetByEmailCalls m @ [email]\<rparr>)"

definition mockMarkAccepted :: "MockInviteStore \<Rightarrow> string \<Rightarrow> string \<Rightarrow> time \<Rightarrow> goerr option \<times> MockInviteStore" where
  "mockMarkAccepted m uid username t =
     (case mis_MarkAcceptedFunc m of Some f \<Rightarrow> f uid username t | None \<Rightarrow> None,
      m\<lparr>mis_MarkAcceptedCalls := mis_MarkAcceptedCalls m @ [\<lparr>mac_UID = uid, mac_Username = username, mac_At = t\<rparr>]\<rparr>)"

definition mockDelete :: "MockInviteStore \<Rightarrow> string \<Rightarrow> goerr option \<times> MockInviteStore" where
  "mockDelete m uid =
     (case mis_DeleteFunc m of Some f \<Rightarrow> f uid | None \<Rightarrow> None,
      m\<lparr>mis_DeleteCalls := mis_DeleteCalls m @ [uid]\<rparr>)"

section \<open>Email sender and event publisher\<close>

record MockEmailSender =
  mes_SendFunc :: "(InviteEmailPayload \<Rightarrow> goerr option) option"
  mes_Calls :: "InviteEmailPayload list"

definition mockSendNotification :: "MockEmailSender \<Rightarrow> InviteEmailPayload \<Rightarrow> goerr option \<times> MockEmailSender" where
  "mockSendNotification m payload =
     (case mes_SendFunc m of Some f \<Rightarrow> f payload | None \<Rightarrow> None,
      m\<lparr>mes_Calls := mes_Calls m @ [payload]\<rparr>)"

record PublishCall =
  puc_Subject :: string
  puc_Data :: string

record MockEventPublisher =
  mep_PublishFunc :: "(string \<Rightarrow> string \<Rightarrow> goerr option) option"
  mep_PublishCalls :: "PublishCall list"

definition mockPublish :: "MockEventPublisher \<Rightarrow> string \<Rightarrow> string \<Rightarrow> goerr option \<times> MockEventPublisher" where
  "mockPublish m subject data =
     (case mep_PublishFunc m of Some f \<Rightarrow> f subject data | None \<Rightarrow> None,
      m\<lparr>mep_PublishCalls := mep_PublishCalls m @ [\<lparr>puc_Subject = subject, puc_Data = data\<rparr>]\<rparr>)"

section \<open>Subscriber (subscriber\_mock.go)\<close>

record SubscriberCall =
  suc_Subject :: string
  suc_Queue :: string

record MockSubscriber =
  msub_QueueSubscribeFunc :: "(string \<Rightarrow> string \<Rightarrow> goerr + stopFunc) option"
  msub_Calls :: "SubscriberCall list"

text \<open>\<open>func() {}\<close> stops nothing.\<close>

definition noopStop :: stopFunc where
  "noopStop = []"

definition mockQueueSubscribe :: "MockSubscriber \<Rightarrow> string \<Rightarrow> string \<Rightarrow> (goerr + stopFunc) \<times> MockSubscriber" where
  "mockQueueSubscribe m subject queue =
     (case msub_QueueSubscribeFunc m of Some f \<Rightarrow> f subject queue | None \<Rightarrow> Inr noopStop,
      m\<lparr>msub_Calls := msub_Calls m @ [\<lparr>suc_Subject = subject, suc_Queue = queue\<rparr>]\<rparr>)"

definition FailOnSubject :: "string \<Rightarrow> string \<Rightarrow> string \<Rightarrow> goerr + stopFunc" where
  "FailOnSubject subject s q =
     (if s = subject then Inl (Errorf [T ''injected failure for subject '', Q s]) else Inr noopStop)"

section \<open>Starting against a mock\<close>

text \<open>The answers of a mock as a subscriber; a mock does nothing to the process.\<close>

definition answersOf :: "MockSubscriber \<Rightarrow> Subscriber" where
  "answersOf m subject queue = (fst (mockQueueSubscribe m subject queue), [])"

definition failingOn :: "string \<Rightarrow> MockSubscriber" where
  "failingOn subject = \<lparr>msub_QueueSubscribeFunc = Some (FailOnSubject subject), msub_Calls = []\<rparr>"

lemma startFrom_failingOn:
  "startFrom (answersOf (failingOn subject)) plan stops =
   (case find (\<lambda>(s, q, name). s = subject) plan of
      None \<Rightarrow> (Inr (stops @ replicate (length plan) noopStop), [])
    | Some (s, q, name) \<Rightarrow>
        (Inl (Errorf [T ''start subscription '', Q name, T '': '',
           W (Errorf [T ''injected failure for subject '', Q subject])]),
         concat stops))"
proof (induction plan arbitrary: stops)
  case (Cons p plan)
  obtain s q name where p: "p = (s, q, name)" by (cases p)
  show ?case
  proof (cases "s = subject")
    case True
    then show ?thesis by (simp add: p answersOf_def mockQueueSubscribe_def failingOn_def FailOnSubject_def)
  next
    case False
    then show ?thesis
      using Cons.IH [of "stops @ [noopStop]"]
      by (simp add: p answersOf_def mockQueueSubscribe_def failingOn_def FailOnSubject_def noopStop_def
          split: option.splits)
  qed
qed simp

lemma Start_failingOn:
  assumes "srv_subscriber srv = answersOf (failingOn subject)"
  shows "(\<exists>err. Start srv = (Inl err, [])) \<longleftrightarrow> subject \<in> fst ` set subscriptionPlan"
    "subject \<notin> fst ` set subscriptionPlan \<Longrightarrow> Start srv = (Inr [noopStop, noopStop, noopStop, noopStop], [])"
  using assms startFrom_failingOn [of subject subscriptionPlan "[]"]
  by (auto simp: Start_def subscriptionPlan_def)

end
