(* ===== verification/Spec2Isabelle.thy ===== *)
theory Spec2Isabelle
  imports Acceptance_Live Concurrent_Liveness Wellformed Index_Invariant Invite_Lifecycle Store_Properties Query_Properties Client_Properties
    Token_Properties Email_Properties Html_Properties Message_Properties Call_Bounds Config_Properties Lifecycle_Properties Nats_Tracing Mocks
begin

text \<open>
  A verification library of the LFX invite service (Go, github.com/linuxfoundation/lfx-v2-invite-service).

  The program. Resource services ask the service over NATS to invite somebody to a resource. It
  validates the request, signs a token (a JWT), stores a record of the invite and an index entry for
  the address in a JetStream key-value bucket, and has the email service send a link with the token;
  when no email can be sent it takes the record back. When the web application announces that an
  invite was accepted, the service verifies the token against the record, marks the record accepted
  by compare-and-set, and publishes an enriched event. Two further subjects query records by UID and
  by address. Four queue subscriptions run on any number of replicas, so handlers interleave.

  How code is modelled. A handler is a program (\<open>prog\<close> of Effects): a tree of the calls whose
  answers the source does not determine. \<open>exec p tr a\<close> are its executions with any answers at all,
  and \<open>run env p s\<close> its run against an environment. Structs are records with a prefix on their
  fields, \<open>(T, error)\<close> is a sum with the error on the left, errors are values that \<open>errors.Is\<close>
  inspects, a pointer that may be nil is an option, a Go string is a list of bytes, a map of strings
  is its sorted association list, and a time is an instant in nanoseconds,
  written in UTC (the zone a parsed time came with is not kept). Starting and stopping the
  process is modelled as the list of events it causes (Process\_Events).

  Parts, from below (paths under src/):
    \<^item> Prelude, Go\_Errors, Go\_Strconv, Go\_Time, Go\_Base64, Go\_Json (laws in Go\_Json\_Laws): the parts of
      Go's standard library the service uses: strings and UTF-8, \<open>fmt.Errorf\<close>, numbers, RFC 3339
      times, base64, encoding/json with its scanner, case folding, \<open>omitempty\<close> and embedded structs.
    \<^item> Domain\_Model, Api\_Types, Record\_Json, Api\_Client: internal/domain/model and pkg/api with the JSON
      their struct tags give, for the service and for its clients. Json\_Decoded, Request\_Decoded and
      Api\_Client\_Laws: what decoded values satisfy, and that encoding and decoding are inverse.
    \<^item> Effects, Kv\_Contract: programs, their executions and runs; the contract of the bucket.
    \<^item> Ports, Mocks: internal/domain/port with the contract of the invite store (locale
      \<open>invite_store\<close>), and its test doubles.
    \<^item> Invite\_Repository (laws in Repository\_Laws, abstraction in Store\_Spec): nats/invite\_repository.go
      and nats/errors.go.
    \<^item> Auth (Auth\_Laws, Jwt\_Contract): infrastructure/auth.
    \<^item> Notification (Notification\_Laws, Send\_Laws): service/notification.go.
    \<^item> Acceptance (Acceptance\_Laws, Acceptance\_Ports, Acceptance\_Total): service/acceptance.go.
    \<^item> Invite\_Read (Query\_Laws): service/invite\_read.go.
    \<^item> Email\_Templates, Html\_Escape, Email\_Html, Email\_Render: infrastructure/smtp and its three
      templates, byte for byte.
    \<^item> Nats\_Client, Nats\_Connection, Nats\_Tracing: nats/client.go, email\_sender.go, inbound\_message.go,
      tracing.go. The spans stand beside the programs, in Nats\_Tracing, which shows that each span is
      closed once with the error of its call, and that a trace crosses from a request or a
      publication to its handler, for propagators that read back what they set (\<open>propagates\<close>).
    \<^item> Subscriptions (Handler\_Laws), Config\_Server: cmd/invite-api/service: the four handlers, \<open>Start\<close>,
      configuration and wiring.
    \<^item> Lifecycle: cmd/invite-api/main.go and infrastructure/observability/otel.go; the choice of the
      sampler and the loggers of log.go are in Config\_Server.
    \<^item> Concurrency: pools of handlers whose calls interleave on one bucket. Invite\_States: the life of an
      invite as a step relation, and the programs that follow it.
    \<^item> Samples, Send\_Samples: the concrete values the witnesses compute with.

  Parameters. Code that is not in the repository is an argument, and what is relied on is a named
  hypothesis: \<open>kv_contract\<close> (an answer of the bucket fits its contents; a failed call may have taken
  effect) and \<open>kv_reliable\<close> (besides, calls succeed when they can; an absent key is always answered
  by \<open>ErrKeyNotFound\<close>, also one that nats.go refuses with \<open>ErrInvalidKey\<close>), interpreted on an in-memory
  bucket; \<open>jwt_contract\<close> for the JWT library, interpreted on a reference library; \<open>golib\<close> (net/mail,
  net/url, the Unicode lower case table), \<open>emaillib\<close> (the email service's message types), \<open>natslib\<close> and
  \<open>otellib\<close> (answers of nats.go and OpenTelemetry), of which nothing is assumed beyond what a theorem
  states. The locales \<open>invite_store\<close>, \<open>indexed_store\<close> and \<open>acceptance_ports\<close> are contracts inside the
  service; sublocales show that the repository, the verifier and the publisher provide them on every
  bucket that keeps \<open>kv_contract\<close>.

  Bounds. \<open>MarkAccepted\<close> makes at most three attempts, as in the source. The JSON scanner has the
  nesting limit 10000 of encoding/json; its inner fuel is the length of the text, and Go\_Json\_Laws
  shows that everything the printer writes is read back. All other loops are structural. Call\_Bounds
  bounds the calls one message causes; every program is finite in depth, so handlers return.

  What the properties show.
    \<^item> Acceptance (Acceptance\_Properties, Acceptance\_Live, Acceptance\_Total, Concurrency\_Properties,
      Concurrent\_Liveness): no acceptance or announcement without a verified token that matches a
      pending, unexpired record; in every interleaving at most one acceptance per invite, and exactly
      one once a valid delivery was handled on a bucket whose calls succeed; the mailed link works
      until it expires; the outcome of \<open>MarkAccepted\<close> on every branch; refinement of an abstract step.
    \<^item> Sending (Send\_Properties, Request\_Properties): email only after the record, with the link of
      that record; found afterwards; rolled back when it cannot be sent; error codes; allow list.
    \<^item> Store (Store\_Properties, Bucket\_Invariants, Wellformed, Index\_Invariant): refinement of a store of
      records with an index; round trip of records; keys do not collide; every interleaving keeps
      stored records well-formed and indexed under nobody else's address.
    \<^item> Life of an invite (Invite\_Lifecycle): every interleaving refines the steps unborn, pending,
      accepted, withdrawn; what is stored about an invite stays, up to one acceptance. A send whose
      email service does not confirm withdraws its invite in whatever state it is.
    \<^item> Queries and clients (Query\_Properties, Client\_Properties): what replies contain, and what a
      client decodes from them.
    \<^item> Tokens, emails, messages (Token\_Properties, Email\_Properties, Html\_Properties,
      Message\_Properties): claims, limits and verification; subject, text and HTML of an email
      whatever the request contains; malformed messages.
    \<^item> Process (Config\_Properties, Lifecycle\_Properties): the settings follow the deployment; what is
      acquired is released, in order, on every path; the process serves exactly when everything is up.

  Not modelled: the text of log lines other than the audit entry, which change no state of the
  service; the OpenTelemetry exporters and propagators and the log handlers, which are third party
  code; deadlines of contexts, which show as errors of the calls below; the parsing of the
  templates, which are constants checked when the binary starts; panics of third party code.
\<close>

end
